theory Spec2Isabelle
  imports Main
begin

section \<open>Data model\<close>

text \<open>
  The rows of the \<^verbatim>\<open>scheduled_jobs\<close> table, as the \<^verbatim>\<open>Job\<close> interface of
  \<^verbatim>\<open>lib/job-queue.ts\<close> reads them. The primary key (a UUID generated by the
  database) is a natural number drawn from a counter; timestamps are milliseconds since
  the epoch; \<^verbatim>\<open>content\<close> and \<^verbatim>\<open>last_error\<close> are nullable.
  Strings are lists of code units below 256.
\<close>

datatype job_status = Pending | Processing | Completed | Failed | Skipped

record job =
  job_id :: nat
  wa_id :: string
  status :: job_status
  scheduled_for :: int
  attempts :: nat
  last_error :: "string option"
  content :: "string option"

text \<open>The rows of \<^verbatim>\<open>wa_id_mappings\<close> (unique key \<^verbatim>\<open>wa_id\<close>).\<close>

record mapping =
  chatbase_conversation_id :: "string option"
  chatbase_contact_id :: "string option"
  name :: "string option"
  blocked :: bool

text \<open>
  A JavaScript exception, by what the code observes of a caught value:
  \<^verbatim>\<open>instanceof Error\<close>, the \<^verbatim>\<open>message\<close> property and \<^verbatim>\<open>String(value)\<close>.
  \<open>Error m\<close> is an \<^verbatim>\<open>Error\<close> instance with message \<open>m\<close> whose name is
  \<^verbatim>\<open>Error\<close> or whose message is not empty (a \<^verbatim>\<open>RangeError\<close> or
  \<^verbatim>\<open>TypeError\<close> with a message is one). \<open>Thrown_value\<close> is any other value except
  \<^verbatim>\<open>null\<close> and \<^verbatim>\<open>undefined\<close>, which the code never throws: whether it is an
  instance of \<^verbatim>\<open>Error\<close>, the text of its \<^verbatim>\<open>message\<close> property (empty when it
  has none), and the string \<^verbatim>\<open>String\<close> makes of it.
\<close>

datatype thrown = Error string | Thrown_value bool string string

datatype completion = Returned | Threw thrown

text \<open>The rows inserted into \<^verbatim>\<open>event_logs\<close>.\<close>

datatype payload =
    P_attempts nat
  | P_blocked bool
  | P_response_sent nat string string
  | P_completed string nat

record event_log =
  event_type :: string
  ev_wa_id :: string
  ev_job_id :: nat
  ev_payload :: payload
  ev_error :: "string option"

text \<open>The body of a request to the WhatsApp Graph API.\<close>

datatype wa_body =
    Text_body string string
  | Template_body string string string "string list"

text \<open>Calls that leave the process: the AI backend, the messaging platform, Brevo.\<close>

datatype ext_call =
    AI_query string "string option" string
  | WA_post string wa_body
  | Worker_contact_lookup string
  | Worker_brevo_update string
  | Worker_AI_query string string "string option"
  | Worker_WA_send string string

text \<open>The lines written with \<^verbatim>\<open>console.log\<close> and \<^verbatim>\<open>console.error\<close>.\<close>

datatype console_line =
    Log_debounced nat int
  | Log_created nat int
  | Err_create_failed
  | Err_fetch_failed
  | Err_job_failed nat thrown
  | Log_completed nat
  | Log_will_retry nat int
  | Err_wa_api string
  | Err_wa_send thrown
  | Log_worker_processing nat string
  | Log_worker_blocked string nat
  | Err_worker_job_failed nat string
  | Log_worker_completed nat

text \<open>
  Everything the job queue reads and writes. \<^verbatim>\<open>config\<close> is what a read of the
  \<^verbatim>\<open>config\<close> table returns: \<^verbatim>\<open>getConfig\<close> ignores the error of a failed
  read, which is therefore the same as an absent key.
\<close>

record world =
  jobs :: "job list"
  next_job_id :: nat
  mappings :: "string \<rightharpoonup> mapping"
  config :: "string \<rightharpoonup> string"
  event_logs :: "event_log list"
  console :: "console_line list"
  calls :: "ext_call list"

section \<open>JavaScript helpers\<close>

text \<open>
  \<^verbatim>\<open>parseInt(s)\<close> with no radix: leading white space is skipped, a sign is read,
  a \<^verbatim>\<open>0x\<close> prefix selects base 16, and the longest prefix of digits is the value;
  \<^verbatim>\<open>NaN\<close> (here \<open>None\<close>) when there is no digit. The value is the exact integer:
  a JavaScript number is exact below \<open>2^53\<close>, which lies outside the range of
  \<^verbatim>\<open>Date\<close>, so every time value that \<^verbatim>\<open>toISOString\<close> accepts is exact.
\<close>

definition is_js_space :: "char \<Rightarrow> bool" where
  "is_js_space c = (of_char c \<in> {9, 10, 11, 12, 13, 32, 160 :: nat})"

definition digit_val :: "char \<Rightarrow> nat option" where
  "digit_val c =
     (let n = (of_char c :: nat)
      in if 48 \<le> n \<and> n \<le> 57 then Some (n - 48)
         else if 97 \<le> n \<and> n \<le> 122 then Some (n - 87)
         else if 65 \<le> n \<and> n \<le> 90 then Some (n - 55)
         else None)"

fun digits_prefix :: "nat \<Rightarrow> string \<Rightarrow> nat list" where
  "digits_prefix r [] = []"
| "digits_prefix r (c # cs) =
     (case digit_val c of
        None \<Rightarrow> []
      | Some d \<Rightarrow> if d < r then d # digits_prefix r cs else [])"

definition parseInt :: "string \<Rightarrow> int option" where
  "parseInt s =
     (let t = dropWhile is_js_space s;
          negative = (case t of [] \<Rightarrow> False | c # _ \<Rightarrow> c = CHR ''-'');
          u = (case t of [] \<Rightarrow> t
               | c # cs \<Rightarrow> if c = CHR ''-'' \<or> c = CHR ''+'' then cs else t);
          hex = (case u of
                   c1 # c2 # _ \<Rightarrow> c1 = CHR ''0'' \<and> (c2 = CHR ''x'' \<or> c2 = CHR ''X'')
                 | _ \<Rightarrow> False);
          radix = (if hex then 16 else 10);
          ds = digits_prefix radix (if hex then drop 2 u else u);
          n = int (foldl (\<lambda>a d. a * radix + d) 0 ds)
      in if ds = [] then None else Some (if negative then - n else n))"

text \<open>\<^verbatim>\<open>Date.now() + x\<close> where \<open>x\<close> may be \<^verbatim>\<open>NaN\<close>.\<close>

definition js_add :: "int \<Rightarrow> int option \<Rightarrow> int option" where
  "js_add a x = (case x of None \<Rightarrow> None | Some b \<Rightarrow> Some (a + b))"

text \<open>
  \<^verbatim>\<open>new Date(t).toISOString()\<close>: a \<^verbatim>\<open>RangeError\<close> when the time value is
  \<^verbatim>\<open>NaN\<close> or beyond 8.64e15 ms from the epoch. The timestamp written to the database
  is kept as the millisecond count.
\<close>

definition toISOString :: "int option \<Rightarrow> thrown + int" where
  "toISOString t =
     (case t of
        None \<Rightarrow> Inl (Error ''Invalid time value'')
      | Some v \<Rightarrow>
          if \<bar>v\<bar> \<le> 8640000000000000 then Inr v
          else Inl (Error ''Invalid time value''))"

definition newline :: string where
  "newline = [CHR 0x0A]"

section \<open>Database access\<close>

text \<open>\<^verbatim>\<open>.single()\<close>: the row when exactly one matches, no data otherwise.\<close>

definition single :: "'a list \<Rightarrow> 'a option" where
  "single rows = (case rows of [r] \<Rightarrow> Some r | _ \<Rightarrow> None)"

text \<open>\<^verbatim>\<open>.update(...).eq('id', i)\<close> on \<^verbatim>\<open>scheduled_jobs\<close>.\<close>

definition update_job :: "nat \<Rightarrow> (job \<Rightarrow> job) \<Rightarrow> job list \<Rightarrow> job list" where
  "update_job i f js = map (\<lambda>j. if job_id j = i then f j else j) js"

text \<open>\<^verbatim>\<open>getConfig\<close>: \<^verbatim>\<open>data?.value || null\<close>, so an empty value reads as absent.\<close>

definition getConfig :: "string \<Rightarrow> world \<Rightarrow> string option" where
  "getConfig key w =
     (case config w key of
        None \<Rightarrow> None
      | Some v \<Rightarrow> if v = [] then None else Some v)"

text \<open>\<^verbatim>\<open>error instanceof Error ? error.message : 'Unknown error'\<close>.\<close>

definition error_message :: "thrown \<Rightarrow> string" where
  "error_message e =
     (case e of
        Error m \<Rightarrow> m
      | Thrown_value is_error m _ \<Rightarrow> if is_error then m else ''Unknown error'')"

definition MAX_ATTEMPTS :: nat where
  "MAX_ATTEMPTS = 3"

section \<open>Enqueue with debounce (lib/job-queue.ts)\<close>

text \<open>
  The outcome of the statements \<^verbatim>\<open>scheduleOrDebounceJob\<close> sends to the database:
  whether the lookup of the pending job returns data, and whether the insert or update
  succeeds. The Supabase client reports a failure in its result and does not throw.
\<close>

record db_outcome =
  select_ok :: bool
  write_ok :: bool

definition pending_for :: "string \<Rightarrow> job list \<Rightarrow> job list" where
  "pending_for waId js = filter (\<lambda>j. wa_id j = waId \<and> status j = Pending) js"

definition append_content :: "string option \<Rightarrow> string \<Rightarrow> string" where
  "append_content existing fragment =
     (let existingContent = (case existing of None \<Rightarrow> [] | Some c \<Rightarrow> c)
      in if existingContent \<noteq> [] then existingContent @ newline @ fragment else fragment)"

definition new_job :: "nat \<Rightarrow> string \<Rightarrow> int \<Rightarrow> string \<Rightarrow> job" where
  "new_job i waId scheduledFor fragment =
     \<lparr>job_id = i, wa_id = waId, status = Pending, scheduled_for = scheduledFor,
      attempts = 0, last_error = None, content = Some fragment\<rparr>"

text \<open>\<^verbatim>\<open>parseInt(await getConfig('debounce_ms') || '3000')\<close>.\<close>

definition debounceMs :: "world \<Rightarrow> int option" where
  "debounceMs w =
     parseInt (case getConfig ''debounce_ms'' w of None \<Rightarrow> ''3000'' | Some v \<Rightarrow> v)"

definition scheduleOrDebounceJob ::
  "db_outcome \<Rightarrow> int \<Rightarrow> string \<Rightarrow> string \<Rightarrow> world \<Rightarrow> completion \<times> world" where
  "scheduleOrDebounceJob db now waId fragment w =
     (let existingJob = (if select_ok db then single (pending_for waId (jobs w)) else None)
      in case toISOString (js_add now (debounceMs w)) of
           Inl e \<Rightarrow> (Threw e, w)
         | Inr scheduledFor \<Rightarrow>
             (case existingJob of
                Some ex \<Rightarrow>
                  (let newContent = append_content (content ex) fragment;
                       w1 = (if write_ok db
                             then w\<lparr>jobs := update_job (job_id ex)
                                      (\<lambda>j. j\<lparr>scheduled_for := scheduledFor,
                                              content := Some newContent\<rparr>) (jobs w)\<rparr>
                             else w)
                   in (Returned,
                       w1\<lparr>console := console w1 @ [Log_debounced (job_id ex) scheduledFor]\<rparr>))
              | None \<Rightarrow>
                  if write_ok db
                  then (Returned,
                        w\<lparr>jobs := jobs w @ [new_job (next_job_id w) waId scheduledFor fragment],
                          next_job_id := Suc (next_job_id w),
                          console := console w @ [Log_created (next_job_id w) scheduledFor]\<rparr>)
                  else (Returned, w\<lparr>console := console w @ [Err_create_failed]\<rparr>)))"

section \<open>Outbound send (lib/whatsapp.ts)\<close>

record send_options =
  to :: string
  message :: string
  useTemplate :: bool
  templateName :: "string option"
  templateLanguage :: "string option"
  templateComponents :: "string list option"

record send_result =
  success :: bool
  messageId :: "string option"
  error :: "string option"

text \<open>
  What the Graph API exchange can do: \<^verbatim>\<open>fetch\<close> rejects; or a response arrives,
  with its \<^verbatim>\<open>ok\<close> flag, whose \<^verbatim>\<open>json()\<close> rejects or yields a value. Of the
  value the code reads its \<^verbatim>\<open>JSON.stringify\<close> text and \<^verbatim>\<open>messages[0]?.id\<close>;
  reading index 0 of a missing \<^verbatim>\<open>messages\<close> field is a \<^verbatim>\<open>TypeError\<close>.
\<close>

datatype wa_messages = Messages_unreadable thrown | Messages "string option list"

datatype json_read = Json_rejects thrown | Json string wa_messages

datatype http_outcome = Fetch_rejects thrown | Response bool json_read

definition truthy :: "string option \<Rightarrow> bool" where
  "truthy s = (case s of None \<Rightarrow> False | Some v \<Rightarrow> v \<noteq> [])"

definition or_else :: "string option \<Rightarrow> string \<Rightarrow> string" where
  "or_else s d = (case s of None \<Rightarrow> d | Some v \<Rightarrow> if v = [] then d else v)"

text \<open>The body of the \<^verbatim>\<open>try\<close> block of \<^verbatim>\<open>sendWhatsAppMessage\<close>.\<close>

definition send_exchange :: "http_outcome \<Rightarrow> world \<Rightarrow> (thrown + send_result) \<times> world" where
  "send_exchange h w =
     (case h of
        Fetch_rejects e \<Rightarrow> (Inl e, w)
      | Response ok body \<Rightarrow>
          (case body of
             Json_rejects e \<Rightarrow> (Inl e, w)
           | Json txt msgs \<Rightarrow>
               if \<not> ok
               then (Inr \<lparr>success = False, messageId = None, error = Some txt\<rparr>,
                     w\<lparr>console := console w @ [Err_wa_api txt]\<rparr>)
               else (case msgs of
                       Messages_unreadable e \<Rightarrow> (Inl e, w)
                     | Messages ms \<Rightarrow>
                         (Inr \<lparr>success = True,
                               messageId = (case ms of [] \<Rightarrow> None | m # _ \<Rightarrow> m),
                               error = None\<rparr>, w))))"

definition sendWhatsAppMessage ::
  "send_options \<Rightarrow> http_outcome \<Rightarrow> world \<Rightarrow> (thrown + send_result) \<times> world" where
  "sendWhatsAppMessage options h w =
     (case (getConfig ''whatsapp_phone_number_id'' w, getConfig ''whatsapp_access_token'' w) of
        (Some phoneNumberId, Some accessToken) \<Rightarrow>
          (let body = (if useTemplate options \<and> truthy (templateName options)
                       then Template_body (to options) (or_else (templateName options) [])
                              (or_else (templateLanguage options) ''en'')
                              (case templateComponents options of None \<Rightarrow> [] | Some cs \<Rightarrow> cs)
                       else Text_body (to options) (message options));
               w1 = w\<lparr>calls := calls w @ [WA_post phoneNumberId body]\<rparr>
           in case send_exchange h w1 of
                (Inr r, w2) \<Rightarrow> (Inr r, w2)
              | (Inl e, w2) \<Rightarrow>
                  (Inr \<lparr>success = False, messageId = None,
                        error = Some (error_message e)\<rparr>,
                   w2\<lparr>console := console w2 @ [Err_wa_send e]\<rparr>))
      | _ \<Rightarrow>
          (Inr \<lparr>success = False, messageId = None,
                error = Some ''WhatsApp credentials not configured''\<rparr>, w))"

section \<open>Identity mapping (lib/chatbase.ts)\<close>

definition empty_mapping :: mapping where
  "empty_mapping =
     \<lparr>chatbase_conversation_id = None, chatbase_contact_id = None, name = None,
      blocked = False\<rparr>"

definition getOrCreateMapping ::
  "bool \<Rightarrow> bool \<Rightarrow> string \<Rightarrow> world \<Rightarrow> (string option \<times> string option) \<times> world" where
  "getOrCreateMapping read_ok ins_ok waId w =
     (case (if read_ok then mappings w waId else None) of
        Some m \<Rightarrow> ((chatbase_conversation_id m, chatbase_contact_id m), w)
      | None \<Rightarrow>
          ((None, None),
           if ins_ok \<and> mappings w waId = None
           then w\<lparr>mappings := (mappings w)(waId \<mapsto> empty_mapping)\<rparr>
           else w))"

text \<open>\<^verbatim>\<open>updateMapping\<close>: an upsert on \<^verbatim>\<open>wa_id\<close> that changes the given field only.\<close>

definition updateMapping :: "bool \<Rightarrow> string \<Rightarrow> (mapping \<Rightarrow> mapping) \<Rightarrow> world \<Rightarrow> world" where
  "updateMapping ok waId f w =
     (if ok
      then w\<lparr>mappings := (mappings w)(waId \<mapsto>
               f (case mappings w waId of None \<Rightarrow> empty_mapping | Some m \<Rightarrow> m))\<rparr>
      else w)"

section \<open>Job processing (lib/job-queue.ts)\<close>

text \<open>
  What the surroundings do during one call of \<^verbatim>\<open>processJob\<close>: the clock read in the
  \<^verbatim>\<open>catch\<close> block, whether each database statement succeeds (the code never looks
  at their results), and what the AI adapter \<^verbatim>\<open>queryChatbaseWithConversation\<close> does:
  it throws, or returns a reply text and a conversation identifier.
\<close>

record proc_env =
  clock :: int
  map_read_ok :: bool
  map_write_ok :: bool
  mark_ok :: bool
  finish_ok :: bool
  log_ok :: bool
  ai :: "thrown + (string \<times> string)"

record pj_env = proc_env +
  http :: http_outcome

definition insert_event :: "bool \<Rightarrow> event_log \<Rightarrow> world \<Rightarrow> world" where
  "insert_event ok ev w = (if ok then w\<lparr>event_logs := event_logs w @ [ev]\<rparr> else w)"

definition set_job :: "bool \<Rightarrow> nat \<Rightarrow> (job \<Rightarrow> job) \<Rightarrow> world \<Rightarrow> world" where
  "set_job ok i f w = (if ok then w\<lparr>jobs := update_job i f (jobs w)\<rparr> else w)"

definition say :: "console_line \<Rightarrow> world \<Rightarrow> world" where
  "say l w = w\<lparr>console := console w @ [l]\<rparr>"

definition call :: "ext_call \<Rightarrow> world \<Rightarrow> world" where
  "call c w = w\<lparr>calls := calls w @ [c]\<rparr>"

text \<open>The statement \<^verbatim>\<open>Mark as processing\<close> that opens \<^verbatim>\<open>processJob\<close>.\<close>

definition mark_processing :: "bool \<Rightarrow> job \<Rightarrow> world \<Rightarrow> world" where
  "mark_processing ok j w = set_job ok (job_id j) (\<lambda>r. r\<lparr>status := Processing\<rparr>) w"

text \<open>
  The send mode and the options \<^verbatim>\<open>processJob\<close> passes to
  \<^verbatim>\<open>sendWhatsAppMessage\<close>: a template with the reply as its body parameter when
  the mode is \<^verbatim>\<open>template\<close> and a template name is configured, plain text otherwise.
\<close>

definition send_mode :: "world \<Rightarrow> string" where
  "send_mode w = or_else (getConfig ''send_mode'' w) ''text''"

definition reply_options :: "world \<Rightarrow> string \<Rightarrow> string \<Rightarrow> send_options" where
  "reply_options w waId reply =
     (let tName = getConfig ''template_name'' w;
          tLanguage = or_else (getConfig ''template_language'' w) ''en''
      in if send_mode w = ''template'' \<and> truthy tName
         then \<lparr>to = waId, message = reply, useTemplate = True,
               templateName = tName, templateLanguage = Some tLanguage,
               templateComponents = Some [reply]\<rparr>
         else \<lparr>to = waId, message = reply, useTemplate = False,
               templateName = None, templateLanguage = None,
               templateComponents = None\<rparr>)"

text \<open>
  The \<^verbatim>\<open>try\<close> block, \<open>Some e\<close> when it throws \<open>e\<close>: first its second half, from
  the send to the completion of the job, then the whole block.
\<close>

definition send_reply ::
  "pj_env \<Rightarrow> job \<Rightarrow> string \<Rightarrow> string \<Rightarrow> world \<Rightarrow> thrown option \<times> world" where
  "send_reply env j reply conversationId w =
     (case sendWhatsAppMessage (reply_options w (wa_id j) reply) (http env) w of
        (Inl e, w5) \<Rightarrow> (Some e, w5)
      | (Inr sendResult, w5) \<Rightarrow>
          if \<not> success sendResult
          then (Some (Error (or_else (error sendResult) ''Failed to send message'')), w5)
          else
            (let w6 = insert_event (log_ok env)
                        \<lparr>event_type = ''chatbase_response_sent'', ev_wa_id = wa_id j,
                         ev_job_id = job_id j,
                         ev_payload = P_response_sent (length reply) (send_mode w) conversationId,
                         ev_error = None\<rparr> w5;
                 w7 = set_job (finish_ok env) (job_id j) (\<lambda>r. r\<lparr>status := Completed\<rparr>) w6
             in (None, say (Log_completed (job_id j)) w7)))"

definition processJob_try :: "pj_env \<Rightarrow> job \<Rightarrow> world \<Rightarrow> thrown option \<times> world" where
  "processJob_try env j w =
     (let waId = wa_id j
      in if \<not> truthy (content j)
         then (Some (Error ''No message content found in job''), w)
         else
           (let c = or_else (content j) [];
                ((conv, contact), w2) =
                  getOrCreateMapping (map_read_ok env) (map_write_ok env) waId w;
                w3 = call (AI_query c (if truthy conv then conv else None) waId) w2
            in case ai env of
                 Inl e \<Rightarrow> (Some e, w3)
               | Inr (reply, conversationId) \<Rightarrow>
                   send_reply env j reply conversationId
                     (if conversationId \<noteq> [] \<and> Some conversationId \<noteq> conv
                      then updateMapping (map_write_ok env) waId
                             (\<lambda>m. m\<lparr>chatbase_conversation_id := Some conversationId\<rparr>) w3
                      else w3)))"

text \<open>The \<^verbatim>\<open>catch\<close> block, which ends by throwing the error again.\<close>

definition processJob_catch :: "pj_env \<Rightarrow> job \<Rightarrow> thrown \<Rightarrow> world \<Rightarrow> completion \<times> world" where
  "processJob_catch env j e w =
     (let attempts' = attempts j + 1;
          errorMessage = error_message e
      in if attempts' \<ge> MAX_ATTEMPTS
         then
           (let w1 = set_job (finish_ok env) (job_id j)
                       (\<lambda>r. r\<lparr>status := Failed, attempts := attempts',
                              last_error := Some errorMessage\<rparr>) w;
                w2 = insert_event (log_ok env)
                       \<lparr>event_type = ''job_failed'', ev_wa_id = wa_id j, ev_job_id = job_id j,
                        ev_payload = P_attempts attempts', ev_error = Some errorMessage\<rparr> w1
            in (Threw e, w2))
         else
           (let retryDelay = (2 ^ attempts') * (5 :: int)
            in case toISOString (Some (clock env + retryDelay * 1000)) of
                 Inl r \<Rightarrow> (Threw r, w)
               | Inr retryAt \<Rightarrow>
                   (let w1 = set_job (finish_ok env) (job_id j)
                               (\<lambda>r. r\<lparr>status := Pending, scheduled_for := retryAt,
                                      attempts := attempts', last_error := Some errorMessage\<rparr>) w
                    in (Threw e, say (Log_will_retry (job_id j) retryAt) w1))))"

text \<open>
  Everything of \<^verbatim>\<open>processJob\<close> after its first statement, and the whole function.
  Other requests may run between the two, at the \<^verbatim>\<open>await\<close>.
\<close>

definition processJob_rest :: "pj_env \<Rightarrow> job \<Rightarrow> world \<Rightarrow> completion \<times> world" where
  "processJob_rest env j w =
     (case processJob_try env j w of
        (None, w1) \<Rightarrow> (Returned, w1)
      | (Some e, w1) \<Rightarrow> processJob_catch env j e w1)"

definition processJob :: "pj_env \<Rightarrow> job \<Rightarrow> world \<Rightarrow> completion \<times> world" where
  "processJob env j w = processJob_rest env j (mark_processing (mark_ok env) j w)"

section \<open>The poller (lib/job-queue.ts)\<close>

definition ready :: "int \<Rightarrow> job \<Rightarrow> bool" where
  "ready now j = (status j = Pending \<and> scheduled_for j \<le> now)"

text \<open>
  The query of \<^verbatim>\<open>processReadyJobs\<close>: filter, order by \<^verbatim>\<open>scheduled_for\<close>
  ascending, limit 10. Rows with equal \<^verbatim>\<open>scheduled_for\<close> keep their table order.
\<close>

definition select_ready :: "int \<Rightarrow> job list \<Rightarrow> job list" where
  "select_ready now js = take 10 (sort_key scheduled_for (filter (ready now) js))"

record counts =
  processed :: nat
  errors :: nat

text \<open>The \<^verbatim>\<open>for\<close> loop; the surroundings of each call are given per job.\<close>

fun process_batch :: "(nat \<Rightarrow> pj_env) \<Rightarrow> job list \<Rightarrow> counts \<Rightarrow> world \<Rightarrow> counts \<times> world" where
  "process_batch envs [] c w = (c, w)"
| "process_batch envs (j # js) c w =
     (case processJob (envs (job_id j)) j w of
        (Returned, w1) \<Rightarrow> process_batch envs js (c\<lparr>processed := processed c + 1\<rparr>) w1
      | (Threw e, w1) \<Rightarrow>
          process_batch envs js (c\<lparr>errors := errors c + 1\<rparr>)
            (say (Err_job_failed (job_id j) e) w1))"

definition processReadyJobs ::
  "bool \<Rightarrow> int \<Rightarrow> (nat \<Rightarrow> pj_env) \<Rightarrow> world \<Rightarrow> counts \<times> world" where
  "processReadyJobs fetch_ok now envs w =
     (if \<not> fetch_ok
      then (\<lparr>processed = 0, errors = 1\<rparr>, say Err_fetch_failed w)
      else process_batch envs (select_ready now (jobs w)) \<lparr>processed = 0, errors = 0\<rparr> w)"

section \<open>The standalone worker (backend/index.js)\<close>

fun show_nat :: "nat \<Rightarrow> string" where
  "show_nat n =
     (if n < 10 then [''0123456789'' ! n]
      else show_nat (n div 10) @ [''0123456789'' ! (n mod 10)])"

definition show_int :: "int \<Rightarrow> string" where
  "show_int i = (if i < 0 then CHR ''-'' # show_nat (nat (- i)) else show_nat (nat i))"

text \<open>
  The worker's surroundings: as for the library's processor, with the clock read when a
  conversation identifier is generated, and what its own adapters do:
  \<^verbatim>\<open>findOrCreateChatbaseContact\<close> throws or returns a contact identifier or null,
  \<^verbatim>\<open>queryChatbase\<close> throws or returns a reply, and the worker's
  \<^verbatim>\<open>sendWhatsAppMessage\<close> throws or returns.
\<close>

record worker_env = proc_env +
  conv_clock :: int
  contact :: "thrown + string option"
  send :: "thrown option"

definition logEvent ::
  "bool \<Rightarrow> string \<Rightarrow> string \<Rightarrow> nat \<Rightarrow> payload \<Rightarrow> string option \<Rightarrow> world \<Rightarrow> world" where
  "logEvent ok eventType waId jobId p err w =
     insert_event ok
       \<lparr>event_type = eventType, ev_wa_id = waId, ev_job_id = jobId, ev_payload = p,
        ev_error = err\<rparr> w"

text \<open>\<^verbatim>\<open>getMapping\<close>: the row, or no data when the read fails.\<close>

definition getMapping :: "bool \<Rightarrow> string \<Rightarrow> world \<Rightarrow> mapping option" where
  "getMapping ok waId w = (if ok then mappings w waId else None)"

text \<open>The \<^verbatim>\<open>try\<close> block of the worker's \<^verbatim>\<open>processJob\<close>.\<close>

definition worker_try ::
  "worker_env \<Rightarrow> job \<Rightarrow> mapping option \<Rightarrow> world \<Rightarrow> thrown option \<times> world" where
  "worker_try env j m w =
     (let waId = wa_id j
      in if \<not> truthy (content j)
         then (Some (Error ''No message content in job''), w)
         else
           (let c = or_else (content j) [];
                contact0 = (case m of None \<Rightarrow> None | Some r \<Rightarrow> chatbase_contact_id r);
                conv0 = (case m of None \<Rightarrow> None | Some r \<Rightarrow> chatbase_conversation_id r);
                step1 =
                  (if \<not> truthy contact0
                   then (case contact env of
                           Inl e \<Rightarrow> Inl (e, call (Worker_contact_lookup waId) w)
                         | Inr found \<Rightarrow>
                             Inr (found,
                                  (if truthy found
                                   then updateMapping (map_write_ok env) waId
                                          (\<lambda>r. r\<lparr>chatbase_contact_id := found\<rparr>)
                                   else (\<lambda>x. x))
                                    (call (Worker_contact_lookup waId) w)))
                   else Inr (contact0, w))
            in case step1 of
                 Inl (e, w1) \<Rightarrow> (Some e, w1)
               | Inr (chatbaseContactId, w1) \<Rightarrow>
                   (let generated = ''wa_'' @ waId @ ''_'' @ show_int (conv_clock env);
                        conversationId = (if truthy conv0 then or_else conv0 [] else generated);
                        w2 = (if truthy conv0 then w1
                              else call (Worker_brevo_update waId)
                                     (updateMapping (map_write_ok env) waId
                                        (\<lambda>r. r\<lparr>chatbase_conversation_id := Some generated\<rparr>) w1));
                        w3 = call (Worker_AI_query c conversationId
                                     (if truthy chatbaseContactId then chatbaseContactId else None)) w2
                    in case ai env of
                         Inl e \<Rightarrow> (Some e, w3)
                       | Inr (reply, replyConversationId) \<Rightarrow>
                           (let w4 = call (Worker_WA_send waId reply) w3
                            in case send env of
                                 Some e \<Rightarrow> (Some e, w4)
                               | None \<Rightarrow>
                                   (let w5 = set_job (finish_ok env) (job_id j)
                                               (\<lambda>r. r\<lparr>status := Completed\<rparr>) w4;
                                        w6 = logEvent (log_ok env) ''job_completed'' waId (job_id j)
                                               (P_completed replyConversationId (length reply)) None w5
                                    in (None, say (Log_worker_completed (job_id j)) w6))))))"

text \<open>\<^verbatim>\<open>error.message || String(error)\<close>, the worker's message for a caught error.\<close>

definition worker_error_message :: "thrown \<Rightarrow> string" where
  "worker_error_message e =
     (case e of
        Error m \<Rightarrow> if m \<noteq> [] then m else ''Error''
      | Thrown_value _ m s \<Rightarrow> if m \<noteq> [] then m else s)"

text \<open>
  The \<^verbatim>\<open>catch\<close> block of the worker: it does not throw the error again, and the
  retry is scheduled a fixed 5000 ms ahead.
\<close>

definition worker_catch :: "worker_env \<Rightarrow> job \<Rightarrow> thrown \<Rightarrow> world \<Rightarrow> completion \<times> world" where
  "worker_catch env j e w0 =
     (let errorMessage = worker_error_message e;
          w = say (Err_worker_job_failed (job_id j) errorMessage) w0;
          attempts' = attempts j + 1
      in if attempts' \<ge> MAX_ATTEMPTS
         then
           (let w1 = set_job (finish_ok env) (job_id j)
                       (\<lambda>r. r\<lparr>status := Failed, attempts := attempts',
                              last_error := Some errorMessage\<rparr>) w
            in (Returned,
                logEvent (log_ok env) ''job_failed'' (wa_id j) (job_id j) (P_attempts attempts')
                  (Some errorMessage) w1))
         else
           (case toISOString (Some (clock env + 5000)) of
              Inl r \<Rightarrow> (Threw r, w)
            | Inr retryAt \<Rightarrow>
                (let w1 = set_job (finish_ok env) (job_id j)
                            (\<lambda>r. r\<lparr>status := Pending, attempts := attempts',
                                   last_error := Some errorMessage,
                                   scheduled_for := retryAt\<rparr>) w
                 in (Returned,
                     logEvent (log_ok env) ''job_retry'' (wa_id j) (job_id j)
                       (P_attempts attempts') (Some errorMessage) w1))))"

text \<open>\<^verbatim>\<open>mapping?.blocked\<close>.\<close>

definition is_blocked :: "mapping option \<Rightarrow> bool" where
  "is_blocked m = (case m of None \<Rightarrow> False | Some r \<Rightarrow> blocked r)"

definition worker_processJob :: "worker_env \<Rightarrow> job \<Rightarrow> world \<Rightarrow> completion \<times> world" where
  "worker_processJob env j w0 =
     (let w = say (Log_worker_processing (job_id j) (wa_id j)) w0;
          m = getMapping (map_read_ok env) (wa_id j) w
      in if is_blocked m
         then
           (let w1 = say (Log_worker_blocked (wa_id j) (job_id j)) w;
                w2 = set_job (finish_ok env) (job_id j)
                       (\<lambda>r. r\<lparr>status := Skipped, last_error := Some ''User is blocked''\<rparr>) w1
            in (Returned,
                logEvent (log_ok env) ''job_skipped_blocked'' (wa_id j) (job_id j)
                  (P_blocked True) None w2))
         else
           (let w1 = mark_processing (mark_ok env) j w
            in case worker_try env j m w1 of
                 (None, w2) \<Rightarrow> (Returned, w2)
               | (Some e, w2) \<Rightarrow> worker_catch env j e w2))"

section \<open>Scenarios and specification-level notions\<close>

text \<open>A time value that \<^verbatim>\<open>Date\<close> can represent.\<close>

definition in_date_range :: "int \<Rightarrow> bool" where
  "in_date_range t = (\<bar>t\<bar> \<le> 8640000000000000)"

text \<open>The database answers every statement.\<close>

definition all_ok :: db_outcome where
  "all_ok = \<lparr>select_ok = True, write_ok = True\<rparr>"

text \<open>
  A sequence of enqueue calls for one user, each with the clock value it reads and its
  text fragment, with nothing else running in between.
\<close>

fun enqueue_calls :: "string \<Rightarrow> (int \<times> string) list \<Rightarrow> world \<Rightarrow> world" where
  "enqueue_calls waId [] w = w"
| "enqueue_calls waId ((now, fragment) # cs) w =
     enqueue_calls waId cs (snd (scheduleOrDebounceJob all_ok now waId fragment w))"

text \<open>
  The specification's "fragments joined by newline in call order", as
  \<^verbatim>\<open>Array.prototype.join\<close> joins them.
\<close>

fun join_lines :: "string list \<Rightarrow> string" where
  "join_lines [] = []"
| "join_lines [x] = x"
| "join_lines (x # y # ys) = x @ newline @ join_lines (y # ys)"

text \<open>A fresh installation: empty tables, no configuration.\<close>

definition world0 :: world where
  "world0 = \<lparr>jobs = [], next_job_id = 0, mappings = Map.empty, config = Map.empty,
             event_logs = [], console = [], calls = []\<rparr>"

text \<open>The same after a first message from one user, enqueued at time 0.\<close>

definition world1 :: world where
  "world1 = snd (scheduleOrDebounceJob all_ok 0 ''+33600000001'' ''Hello'' world0)"

text \<open>The row with a given primary key.\<close>

definition lookup_job :: "nat \<Rightarrow> world \<Rightarrow> job option" where
  "lookup_job i w = find (\<lambda>r. job_id r = i) (jobs w)"

text \<open>
  What the database guarantees of \<^verbatim>\<open>scheduled_jobs\<close>: primary keys are unique, and
  a generated key is new.
\<close>

definition wf_world :: "world \<Rightarrow> bool" where
  "wf_world w =
     (distinct (map job_id (jobs w)) \<and> list_all (\<lambda>r. job_id r < next_job_id w) (jobs w))"

text \<open>An update of a job row that leaves its key and its user alone.\<close>

definition keeps_key :: "(job \<Rightarrow> job) \<Rightarrow> bool" where
  "keeps_key g = (\<forall>r. job_id (g r) = job_id r \<and> wa_id (g r) = wa_id r)"

text \<open>
  The two entry points of the library's queue, called one after the other in any order:
  the webhook's enqueue and the poller, each call running to its end.
\<close>

datatype queue_op =
    Enqueue db_outcome int string string
  | Poll bool int "nat \<Rightarrow> pj_env"

fun run_op :: "queue_op \<Rightarrow> world \<Rightarrow> world" where
  "run_op (Enqueue db now waId fragment) w = snd (scheduleOrDebounceJob db now waId fragment w)"
| "run_op (Poll fetch_ok now envs) w = snd (processReadyJobs fetch_ok now envs w)"

fun run_ops :: "queue_op list \<Rightarrow> world \<Rightarrow> world" where
  "run_ops [] w = w"
| "run_ops (op # ops) w = run_ops ops (run_op op w)"

text \<open>
  The row \<^verbatim>\<open>processJob\<close> writes for a job whose attempt failed with the given
  message at the given clock value.
\<close>

definition after_failure :: "int \<Rightarrow> string \<Rightarrow> job \<Rightarrow> job" where
  "after_failure now msg j =
     (if MAX_ATTEMPTS \<le> attempts j + 1
      then j\<lparr>status := Failed, attempts := attempts j + 1, last_error := Some msg\<rparr>
      else j\<lparr>status := Pending, scheduled_for := now + 2 ^ (attempts j + 1) * 5 * 1000,
             attempts := attempts j + 1, last_error := Some msg\<rparr>)"

text \<open>
  One attempt on the job with a given key, as the poller makes it: the row is read and
  handed to \<^verbatim>\<open>processJob\<close>. \<open>failure_of\<close> is the error the attempt throws, if any.
\<close>

definition attempt :: "pj_env \<Rightarrow> nat \<Rightarrow> world \<Rightarrow> world" where
  "attempt env i w =
     (case lookup_job i w of None \<Rightarrow> w | Some j \<Rightarrow> snd (processJob env j w))"

definition failure_of :: "pj_env \<Rightarrow> nat \<Rightarrow> world \<Rightarrow> thrown option" where
  "failure_of env i w =
     (case lookup_job i w of
        None \<Rightarrow> None
      | Some j \<Rightarrow> (case fst (processJob env j w) of Returned \<Rightarrow> None | Threw x \<Rightarrow> Some x))"

text \<open>Surroundings in which the AI backend answers every query with an error.\<close>

definition ai_down :: "int \<Rightarrow> pj_env" where
  "ai_down now =
     \<lparr>clock = now, map_read_ok = True, map_write_ok = True, mark_ok = True,
      finish_ok = True, log_ok = True, ai = Inl (Error ''Chatbase API error: 500''),
      http = Fetch_rejects (Error ''fetch failed'')\<rparr>"

text \<open>The same for the worker: the AI backend answers with an error.\<close>

definition worker_ai_down :: "int \<Rightarrow> worker_env" where
  "worker_ai_down now =
     \<lparr>clock = now, map_read_ok = True, map_write_ok = True, mark_ok = True,
      finish_ok = True, log_ok = True, ai = Inl (Error ''Chatbase API error: 500''),
      conv_clock = now, contact = Inr None, send = None\<rparr>"

text \<open>A fresh installation after a text message without body, enqueued at time 0.\<close>

definition world_blank :: world where
  "world_blank = snd (scheduleOrDebounceJob all_ok 0 ''+33600000001'' [] world0)"

text \<open>
  The row the worker writes for a job whose attempt failed with the given message at
  the given clock value.
\<close>

definition worker_after_failure :: "int \<Rightarrow> string \<Rightarrow> job \<Rightarrow> job" where
  "worker_after_failure now msg j =
     (if MAX_ATTEMPTS \<le> attempts j + 1
      then j\<lparr>status := Failed, attempts := attempts j + 1, last_error := Some msg\<rparr>
      else j\<lparr>status := Pending, attempts := attempts j + 1, last_error := Some msg,
             scheduled_for := now + 5000\<rparr>)"

text \<open>
  The installation after the first message, with WhatsApp credentials configured and
  the user blocked; and surroundings in which every collaborator answers.
\<close>

definition world_blocked :: world where
  "world_blocked =
     world1\<lparr>mappings := [''+33600000001'' \<mapsto> empty_mapping\<lparr>blocked := True\<rparr>],
            config := [''whatsapp_phone_number_id'' \<mapsto> ''1055'',
                       ''whatsapp_access_token'' \<mapsto> ''secret'']\<rparr>"

definition all_up :: "int \<Rightarrow> pj_env" where
  "all_up now =
     \<lparr>clock = now, map_read_ok = True, map_write_ok = True, mark_ok = True,
      finish_ok = True, log_ok = True, ai = Inr (''Hi there'', ''conv-1''),
      http = Response True (Json ''{}'' (Messages [Some ''wamid.1'']))\<rparr>"

definition worker_all_up :: "int \<Rightarrow> worker_env" where
  "worker_all_up now =
     \<lparr>clock = now, map_read_ok = True, map_write_ok = True, mark_ok = True,
      finish_ok = True, log_ok = True, ai = Inr (''Hi there'', ''conv-1''),
      conv_clock = now, contact = Inr None, send = None\<rparr>"

text \<open>Both WhatsApp credentials are configured (present and not empty).\<close>

definition has_credentials :: "world \<Rightarrow> bool" where
  "has_credentials w =
     (getConfig ''whatsapp_phone_number_id'' w \<noteq> None
      \<and> getConfig ''whatsapp_access_token'' w \<noteq> None)"

text \<open>
  What the console tells of a batch: the jobs whose processing ended, in order, each
  with whether it completed (\<^verbatim>\<open>Job ... completed successfully\<close>, written by
  \<^verbatim>\<open>processJob\<close>) or failed (\<^verbatim>\<open>Job ... failed:\<close>, written by the loop of
  \<^verbatim>\<open>processReadyJobs\<close>).
\<close>

definition outcome_of :: "console_line \<Rightarrow> (nat \<times> bool) option" where
  "outcome_of l =
     (case l of
        Log_completed i \<Rightarrow> Some (i, True)
      | Err_job_failed i _ \<Rightarrow> Some (i, False)
      | _ \<Rightarrow> None)"

definition outcomes :: "world \<Rightarrow> (nat \<times> bool) list" where
  "outcomes w = List.map_filter outcome_of (console w)"

text \<open>
  The loop of \<^verbatim>\<open>processReadyJobs\<close> seen one job at a time: the state one
  iteration leaves (that of \<^verbatim>\<open>processJob\<close>, with the line the loop prints when
  the call threw), the state in which the \<open>k\<close>-th selected job is processed (after the
  \<open>k\<close> jobs before it), and how the call for the \<open>k\<close>-th job ends.
\<close>

definition after_job :: "(nat \<Rightarrow> pj_env) \<Rightarrow> world \<Rightarrow> job \<Rightarrow> world" where
  "after_job envs w j =
     (case processJob (envs (job_id j)) j w of
        (Returned, w1) \<Rightarrow> w1
      | (Threw e, w1) \<Rightarrow> say (Err_job_failed (job_id j) e) w1)"

definition state_before :: "(nat \<Rightarrow> pj_env) \<Rightarrow> world \<Rightarrow> job list \<Rightarrow> nat \<Rightarrow> world" where
  "state_before envs w js k = foldl (after_job envs) w (take k js)"

definition result_of :: "(nat \<Rightarrow> pj_env) \<Rightarrow> world \<Rightarrow> job list \<Rightarrow> nat \<Rightarrow> completion" where
  "result_of envs w js k =
     fst (processJob (envs (job_id (js ! k))) (js ! k) (state_before envs w js k))"

text \<open>Two users write, half a second apart.\<close>

definition world2 :: world where
  "world2 = snd (scheduleOrDebounceJob all_ok 500 ''+33600000002'' ''Bonjour'' world1)"

text \<open>The users of the pending jobs, one entry per job.\<close>

definition pending_users :: "world \<Rightarrow> string list" where
  "pending_users w = map wa_id (filter (\<lambda>j. status j = Pending) (jobs w))"

text \<open>In every enqueue call of the sequence the lookup of the pending job succeeds.\<close>

fun lookups_ok :: "queue_op list \<Rightarrow> bool" where
  "lookups_ok [] = True"
| "lookups_ok (Enqueue db now waId fragment # ops) = (select_ok db \<and> lookups_ok ops)"
| "lookups_ok (Poll fetch_ok now envs # ops) = lookups_ok ops"

text \<open>
  An interleaving at the \<^verbatim>\<open>await\<close> after the first statement of
  \<^verbatim>\<open>processJob\<close>: the poller has marked the job of \<open>world1\<close> as processing; a new
  message of the same user arrives and is enqueued; then the processing goes on, and
  fails because the AI backend is down.
\<close>

definition race_marked :: world where
  "race_marked = mark_processing True (new_job 0 ''+33600000001'' 3000 ''Hello'') world1"

definition race_enqueued :: world where
  "race_enqueued = snd (scheduleOrDebounceJob all_ok 3500 ''+33600000001'' ''again'' race_marked)"

definition race_world :: world where
  "race_world =
     snd (processJob_rest (ai_down 4000) (new_job 0 ''+33600000001'' 3000 ''Hello'')
            race_enqueued)"

section \<open>Enqueue: basic facts\<close>

lemma toISOString_Some: "toISOString (Some t) = (if in_date_range t then Inr t else Inl (Error ''Invalid time value''))"
  by (simp add: toISOString_def in_date_range_def)

lemma parseInt_3000: "parseInt ''3000'' = Some 3000"
  by (simp add: parseInt_def is_js_space_def digit_val_def)

lemma debounceMs_default: "getConfig ''debounce_ms'' w = None \<Longrightarrow> debounceMs w = Some 3000"
  by (simp add: debounceMs_def parseInt_3000)

lemma single_simps: "single [] = None" "single [x] = Some x" "single (x # y # ys) = None"
  by (simp_all add: single_def)

lemma sched_insert:
  assumes "select_ok db" "write_ok db" "debounceMs w = Some d" "in_date_range (now + d)"
    and "pending_for u (jobs w) = []"
  shows "scheduleOrDebounceJob db now u f w =
    (Returned, w\<lparr>jobs := jobs w @ [new_job (next_job_id w) u (now + d) f],
                  next_job_id := Suc (next_job_id w),
                  console := console w @ [Log_created (next_job_id w) (now + d)]\<rparr>)"
  using assms by (simp add: scheduleOrDebounceJob_def js_add_def toISOString_Some single_simps)

lemma sched_update:
  assumes "select_ok db" "write_ok db" "debounceMs w = Some d" "in_date_range (now + d)"
    and "pending_for u (jobs w) = [ex]"
  shows "scheduleOrDebounceJob db now u f w =
    (Returned, w\<lparr>jobs := update_job (job_id ex)
                     (\<lambda>j. j\<lparr>scheduled_for := now + d, content := Some (append_content (content ex) f)\<rparr>) (jobs w),
                  console := console w @ [Log_debounced (job_id ex) (now + d)]\<rparr>)"
  using assms by (simp add: scheduleOrDebounceJob_def js_add_def toISOString_Some single_simps Let_def)

lemma pending_for_update:
  assumes "\<And>j. wa_id (g j) = wa_id j \<and> status (g j) = status j"
  shows "pending_for u (update_job i g js) = map (\<lambda>j. if job_id j = i then g j else j) (pending_for u js)"
  using assms by (induction js) (auto simp: pending_for_def update_job_def)

lemma pending_for_update_single:
  assumes "pending_for u js = [ex]"
  shows "pending_for u (update_job (job_id ex) (\<lambda>j. j\<lparr>scheduled_for := t, content := c\<rparr>) js)
         = [ex\<lparr>scheduled_for := t, content := c\<rparr>]"
  by (subst pending_for_update) (simp_all add: assms)

lemma debounceMs_cong: "config w' = config w \<Longrightarrow> debounceMs w' = debounceMs w"
  by (simp add: debounceMs_def getConfig_def)

lemma sched_config: "config (snd (scheduleOrDebounceJob db now u f w)) = config w"
  by (auto simp: scheduleOrDebounceJob_def Let_def split: sum.splits option.splits)


lemma join_lines_merge: "join_lines ((c @ newline @ f) # fs) = join_lines (c # f # fs)"
  by (cases fs) simp_all

lemma merge_nonempty:
  "c \<noteq> [] \<Longrightarrow> foldl (\<lambda>a f. append_content (Some a) f) c fs = join_lines (c # fs)"
proof (induction fs arbitrary: c)
  case Nil
  then show ?case by simp
next
  case (Cons f fs)
  have "foldl (\<lambda>a f. append_content (Some a) f) c (f # fs)
        = foldl (\<lambda>a f. append_content (Some a) f) (c @ newline @ f) fs"
    using Cons.prems by (simp add: append_content_def)
  also have "\<dots> = join_lines ((c @ newline @ f) # fs)"
    using Cons.prems by (intro Cons.IH) simp
  finally show ?case by (simp only: join_lines_merge)
qed

lemma merge_empty:
  "foldl (\<lambda>a f. append_content (Some a) f) [] fs = join_lines (dropWhile (\<lambda>f. f = []) fs)"
proof (induction fs)
  case Nil
  then show ?case by simp
next
  case (Cons f fs)
  show ?case
  proof (cases "f = []")
    case True
    then show ?thesis using Cons.IH by (simp add: append_content_def)
  next
    case False
    then show ?thesis using merge_nonempty [of f fs] by (simp add: append_content_def)
  qed
qed

lemma merge_any:
  "foldl (\<lambda>a f. append_content (Some a) f) f0 fs = join_lines (dropWhile (\<lambda>f. f = []) (f0 # fs))"
  by (cases "f0 = []") (simp_all add: merge_empty merge_nonempty)

lemma enqueue_more:
  assumes "pending_for u (jobs w) = [ex]" "content ex = Some c0" "debounceMs w = Some d"
    and "\<forall>(now, f) \<in> set cs. in_date_range (now + d)"
  shows "\<exists>j. pending_for u (jobs (enqueue_calls u cs w)) = [j]
             \<and> content j = Some (foldl (\<lambda>a f. append_content (Some a) f) c0 (map snd cs))
             \<and> scheduled_for j = (if cs = [] then scheduled_for ex else fst (last cs) + d)
             \<and> attempts j = attempts ex \<and> job_id j = job_id ex"
  using assms
proof (induction cs arbitrary: w ex c0)
  case Nil
  then show ?case by simp
next
  case (Cons a cs)
  obtain now f where a: "a = (now, f)" by (cases a)
  have rng: "in_date_range (now + d)" using Cons.prems(4) a by simp
  define w1 where "w1 = snd (scheduleOrDebounceJob all_ok now u f w)"
  define ex1 where "ex1 = ex\<lparr>scheduled_for := now + d, content := Some (append_content (content ex) f)\<rparr>"
  have w1: "jobs w1 = update_job (job_id ex)
              (\<lambda>j. j\<lparr>scheduled_for := now + d, content := Some (append_content (content ex) f)\<rparr>) (jobs w)"
    unfolding w1_def
    by (subst sched_update [OF _ _ Cons.prems(3) rng Cons.prems(1)]) (simp_all add: all_ok_def)
  have p1: "pending_for u (jobs w1) = [ex1]"
    unfolding w1 ex1_def by (rule pending_for_update_single [OF Cons.prems(1)])
  have d1: "debounceMs w1 = Some d"
    unfolding w1_def using Cons.prems(3) debounceMs_cong [OF sched_config] by simp
  have c1: "content ex1 = Some (append_content (Some c0) f)"
    by (simp add: ex1_def Cons.prems(2))
  have r1: "\<forall>(now, f) \<in> set cs. in_date_range (now + d)" using Cons.prems(4) by simp
  from Cons.IH [OF p1 c1 d1 r1] obtain j where
    j: "pending_for u (jobs (enqueue_calls u cs w1)) = [j]"
       "content j = Some (foldl (\<lambda>a f. append_content (Some a) f) (append_content (Some c0) f) (map snd cs))"
       "scheduled_for j = (if cs = [] then scheduled_for ex1 else fst (last cs) + d)"
       "attempts j = attempts ex1" "job_id j = job_id ex1"
    by blast
  have "enqueue_calls u (a # cs) w = enqueue_calls u cs w1"
    by (simp add: a w1_def)
  then show ?case using j by (auto simp: a ex1_def)
qed

section \<open>Debounce merging\<close>

text \<open>
  Claim C3, as amended. Starting with no pending job for a user, after one or more
  enqueue calls for that user with nothing else running in between (the debounce
  setting being a number and every deadline a representable date) exactly one pending
  job exists for the user; its content is the fragments joined by newline in call
  order once the leading empty fragments are dropped (so it is the plain join whenever
  the first fragment is not empty), its deadline is the clock of the last call plus the
  debounce window, and its attempts are 0.
\<close>

theorem debounce_merging:
  assumes "cs \<noteq> []" and "pending_for waId (jobs w) = []" and "debounceMs w = Some d"
    and "\<forall>(now, fragment) \<in> set cs. in_date_range (now + d)"
  shows "\<exists>j. pending_for waId (jobs (enqueue_calls waId cs w)) = [j]
             \<and> content j = Some (join_lines (dropWhile (\<lambda>f. f = []) (map snd cs)))
             \<and> scheduled_for j = fst (last cs) + d
             \<and> attempts j = 0"
proof -
  obtain now f rest where cs: "cs = (now, f) # rest"
    using assms(1) by (cases cs) auto
  have rng: "in_date_range (now + d)" using assms(4) cs by simp
  define w1 where "w1 = snd (scheduleOrDebounceJob all_ok now waId f w)"
  define ex1 where "ex1 = new_job (next_job_id w) waId (now + d) f"
  have w1: "jobs w1 = jobs w @ [ex1]"
    unfolding w1_def ex1_def
    by (subst sched_insert [OF _ _ assms(3) rng assms(2)]) (simp_all add: all_ok_def)
  have p1: "pending_for waId (jobs w1) = [ex1]"
    using assms(2) by (simp add: w1 pending_for_def ex1_def new_job_def)
  have d1: "debounceMs w1 = Some d"
    unfolding w1_def using assms(3) debounceMs_cong [OF sched_config] by simp
  have c1: "content ex1 = Some f" by (simp add: ex1_def new_job_def)
  have r1: "\<forall>(now, f) \<in> set rest. in_date_range (now + d)" using assms(4) cs by simp
  from enqueue_more [OF p1 c1 d1 r1] obtain j where
    j: "pending_for waId (jobs (enqueue_calls waId rest w1)) = [j]"
       "content j = Some (foldl (\<lambda>a f. append_content (Some a) f) f (map snd rest))"
       "scheduled_for j = (if rest = [] then scheduled_for ex1 else fst (last rest) + d)"
       "attempts j = attempts ex1"
    by blast
  have e: "enqueue_calls waId cs w = enqueue_calls waId rest w1"
    by (simp add: cs w1_def)
  have "content j = Some (join_lines (dropWhile (\<lambda>f. f = []) (map snd cs)))"
    using j(2) by (simp only: merge_any cs list.map snd_conv)
  moreover have "scheduled_for j = fst (last cs) + d"
    using j(3) by (simp add: cs ex1_def new_job_def)
  moreover have "attempts j = 0" using j(4) by (simp add: ex1_def new_job_def)
  ultimately show ?thesis using j(1) e by simp
qed

lemma debounceMs_world0: "debounceMs world0 = Some 3000"
  by (simp add: debounceMs_default getConfig_def world0_def)

text \<open>The scenario of the specification: two messages one second apart.\<close>

theorem debounce_merging_witness:
  "\<exists>j. pending_for ''+33600000001''
          (jobs (enqueue_calls ''+33600000001'' [(0, ''Hello''), (1000, ''are you there?'')] world0)) = [j]
       \<and> content j = Some (''Hello'' @ newline @ ''are you there?'')
       \<and> scheduled_for j = 4000 \<and> attempts j = 0"
  using debounce_merging [of "[(0, ''Hello''), (1000, ''are you there?'')]" "''+33600000001''" world0 3000]
  by (simp add: debounceMs_world0 in_date_range_def) (simp add: world0_def pending_for_def)

text \<open>
  Claim C3 as stated fails when the first fragment is empty (a text message without a
  body): the stored content is \<open>b\<close>, the join of the two fragments is a newline
  followed by \<open>b\<close>.
\<close>

theorem debounce_merging_counterexample:
  "map content (pending_for ''u'' (jobs (enqueue_calls ''u'' [(0, []), (1000, ''b'')] world0)))
     = [Some ''b'']
   \<and> join_lines (map snd [(0 :: int, []), (1000, ''b'')]) = newline @ ''b''
   \<and> ''b'' \<noteq> newline @ ''b''"
  by (simp add: world0_def all_ok_def scheduleOrDebounceJob_def debounceMs_def getConfig_def
      parseInt_3000 js_add_def toISOString_def pending_for_def single_def new_job_def
      update_job_def append_content_def newline_def)

lemma select_ready_subset: "set (select_ready t js) \<subseteq> {j \<in> set js. ready t j}"
proof -
  have "set (select_ready t js) \<subseteq> set (sort_key scheduled_for (filter (ready t) js))"
    unfolding select_ready_def by (rule set_take_subset)
  then show ?thesis by auto
qed

lemma sched_returns:
  assumes "debounceMs w = Some d" "in_date_range (now + d)"
  shows "fst (scheduleOrDebounceJob db now u f w) = Returned"
  using assms
  by (auto simp: scheduleOrDebounceJob_def js_add_def toISOString_Some Let_def split: option.splits)

lemma sched_insert_fails:
  assumes "debounceMs w = Some d" "in_date_range (now + d)" "\<not> write_ok db"
    and "pending_for u (jobs w) = []"
  shows "scheduleOrDebounceJob db now u f w = (Returned, w\<lparr>console := console w @ [Err_create_failed]\<rparr>)"
  using assms
  by (simp add: scheduleOrDebounceJob_def js_add_def toISOString_Some single_simps)

section \<open>The first message\<close>

lemma world1_eq:
  "world1 = world0\<lparr>jobs := [new_job 0 ''+33600000001'' 3000 ''Hello''], next_job_id := Suc 0,
                   console := [Log_created 0 3000]\<rparr>"
proof -
  have "pending_for ''+33600000001'' (jobs world0) = []" by (simp add: world0_def pending_for_def)
  from sched_insert [OF _ _ debounceMs_world0 _ this, of all_ok 0 "''Hello''"]
  show ?thesis by (simp add: world1_def all_ok_def in_date_range_def world0_def)
qed

lemma debounceMs_world1: "debounceMs world1 = Some 3000"
  using debounceMs_cong [of world1 world0] debounceMs_world0 by (simp add: world1_eq)

section \<open>Enqueue and persistence failures\<close>

lemma sched_update_fails:
  assumes "select_ok db" "\<not> write_ok db" "debounceMs w = Some d" "in_date_range (now + d)"
    and "pending_for u (jobs w) = [ex]"
  shows "scheduleOrDebounceJob db now u f w =
    (Returned, w\<lparr>console := console w @ [Log_debounced (job_id ex) (now + d)]\<rparr>)"
  using assms by (simp add: scheduleOrDebounceJob_def js_add_def toISOString_Some single_simps Let_def)

lemma parseInt_soon: "parseInt ''soon'' = None"
  by (simp add: parseInt_def is_js_space_def digit_val_def)

text \<open>
  Claim C8 at two concrete inputs. With one pending job for the user and the update
  failing, the call returns normally, leaves the tables as they were and writes the
  success line \<open>Log_debounced\<close> to the console: the failure is not logged (a failed
  insert is, see \<open>sched_insert_fails\<close>). With the setting \<open>debounce_ms\<close> not a
  number, \<^verbatim>\<open>toISOString\<close> throws and the error reaches the caller.
\<close>

theorem enqueue_failure_eval:
  "scheduleOrDebounceJob \<lparr>select_ok = True, write_ok = False\<rparr> 1000 ''+33600000001''
      ''are you there?'' world1
     = (Returned, world1\<lparr>console := [Log_created 0 3000, Log_debounced 0 4000]\<rparr>)
   \<and> scheduleOrDebounceJob all_ok 0 ''+33600000001'' ''Hello''
        (world0\<lparr>config := [''debounce_ms'' \<mapsto> ''soon'']\<rparr>)
     = (Threw (Error ''Invalid time value''), world0\<lparr>config := [''debounce_ms'' \<mapsto> ''soon'']\<rparr>)"
proof -
  have p: "pending_for ''+33600000001'' (jobs world1) = [new_job 0 ''+33600000001'' 3000 ''Hello'']"
    by (simp add: world1_eq pending_for_def new_job_def)
  have r: "in_date_range (1000 + 3000)" by (simp add: in_date_range_def)
  have a: "scheduleOrDebounceJob \<lparr>select_ok = True, write_ok = False\<rparr> 1000 ''+33600000001''
      ''are you there?'' world1
     = (Returned, world1\<lparr>console := [Log_created 0 3000, Log_debounced 0 4000]\<rparr>)"
    by (subst sched_update_fails [OF _ _ debounceMs_world1 r p]) (simp_all add: world1_eq new_job_def)
  have "debounceMs (world0\<lparr>config := [''debounce_ms'' \<mapsto> ''soon'']\<rparr>) = None"
    by (simp add: debounceMs_def getConfig_def parseInt_soon)
  then have b: "scheduleOrDebounceJob all_ok 0 ''+33600000001'' ''Hello''
        (world0\<lparr>config := [''debounce_ms'' \<mapsto> ''soon'']\<rparr>)
     = (Threw (Error ''Invalid time value''), world0\<lparr>config := [''debounce_ms'' \<mapsto> ''soon'']\<rparr>)"
    by (simp add: scheduleOrDebounceJob_def js_add_def toISOString_def)
  from a b show ?thesis by simp
qed

section \<open>What each step leaves unchanged\<close>

lemma say_fields [simp]:
  "jobs (say l w) = jobs w" "next_job_id (say l w) = next_job_id w"
  "mappings (say l w) = mappings w" "config (say l w) = config w"
  "event_logs (say l w) = event_logs w" "calls (say l w) = calls w"
  "console (say l w) = console w @ [l]"
  by (simp_all add: say_def)

lemma call_fields [simp]:
  "jobs (call c w) = jobs w" "next_job_id (call c w) = next_job_id w"
  "mappings (call c w) = mappings w" "config (call c w) = config w"
  "event_logs (call c w) = event_logs w" "calls (call c w) = calls w @ [c]"
  "console (call c w) = console w"
  by (simp_all add: call_def)

lemma insert_event_fields [simp]:
  "jobs (insert_event ok ev w) = jobs w" "next_job_id (insert_event ok ev w) = next_job_id w"
  "mappings (insert_event ok ev w) = mappings w" "config (insert_event ok ev w) = config w"
  "event_logs (insert_event ok ev w) = (if ok then event_logs w @ [ev] else event_logs w)"
  "calls (insert_event ok ev w) = calls w" "console (insert_event ok ev w) = console w"
  by (simp_all add: insert_event_def)

lemma set_job_fields [simp]:
  "jobs (set_job ok i f w) = (if ok then update_job i f (jobs w) else jobs w)"
  "next_job_id (set_job ok i f w) = next_job_id w"
  "mappings (set_job ok i f w) = mappings w" "config (set_job ok i f w) = config w"
  "event_logs (set_job ok i f w) = event_logs w"
  "calls (set_job ok i f w) = calls w" "console (set_job ok i f w) = console w"
  by (simp_all add: set_job_def)

lemma updateMapping_fields [simp]:
  "jobs (updateMapping ok u f w) = jobs w" "next_job_id (updateMapping ok u f w) = next_job_id w"
  "config (updateMapping ok u f w) = config w"
  "event_logs (updateMapping ok u f w) = event_logs w"
  "calls (updateMapping ok u f w) = calls w" "console (updateMapping ok u f w) = console w"
  by (simp_all add: updateMapping_def)

lemma getOrCreateMapping_fields [simp]:
  "jobs (snd (getOrCreateMapping r i u w)) = jobs w"
  "next_job_id (snd (getOrCreateMapping r i u w)) = next_job_id w"
  "config (snd (getOrCreateMapping r i u w)) = config w"
  "event_logs (snd (getOrCreateMapping r i u w)) = event_logs w"
  "calls (snd (getOrCreateMapping r i u w)) = calls w"
  "console (snd (getOrCreateMapping r i u w)) = console w"
  by (simp_all add: getOrCreateMapping_def split: option.splits)

lemma getConfig_cong: "config w' = config w \<Longrightarrow> getConfig k w' = getConfig k w"
  by (simp add: getConfig_def)

lemma send_exchange_fields [simp]:
  "jobs (snd (send_exchange h w)) = jobs w"
  "next_job_id (snd (send_exchange h w)) = next_job_id w"
  "mappings (snd (send_exchange h w)) = mappings w"
  "config (snd (send_exchange h w)) = config w"
  "event_logs (snd (send_exchange h w)) = event_logs w"
  "calls (snd (send_exchange h w)) = calls w"
  by (simp_all add: send_exchange_def split: http_outcome.splits json_read.splits wa_messages.splits)

lemma sendWhatsAppMessage_fields [simp]:
  "jobs (snd (sendWhatsAppMessage opts h w)) = jobs w"
  "next_job_id (snd (sendWhatsAppMessage opts h w)) = next_job_id w"
  "mappings (snd (sendWhatsAppMessage opts h w)) = mappings w"
  "config (snd (sendWhatsAppMessage opts h w)) = config w"
  "event_logs (snd (sendWhatsAppMessage opts h w)) = event_logs w"
  by (simp_all add: sendWhatsAppMessage_def Let_def case_prod_unfold split: option.splits sum.splits)

lemma send_never_throws: "\<exists>r. fst (sendWhatsAppMessage opts h w) = Inr r"
  by (simp add: sendWhatsAppMessage_def Let_def case_prod_unfold split: option.splits sum.splits)




lemma send_reply_frame [simp]:
  "next_job_id (snd (send_reply env j reply cid w)) = next_job_id w"
  "config (snd (send_reply env j reply cid w)) = config w"
  "mappings (snd (send_reply env j reply cid w)) = mappings w"
proof -
  obtain r w5 where s: "sendWhatsAppMessage (reply_options w (wa_id j) reply) (http env) w = (r, w5)"
    by fastforce
  have f: "next_job_id w5 = next_job_id w" "config w5 = config w" "mappings w5 = mappings w"
    using sendWhatsAppMessage_fields [of "reply_options w (wa_id j) reply" "http env" w] s by simp_all
  show "next_job_id (snd (send_reply env j reply cid w)) = next_job_id w"
    "config (snd (send_reply env j reply cid w)) = config w"
    "mappings (snd (send_reply env j reply cid w)) = mappings w"
    unfolding send_reply_def s using f by (cases r; simp add: Let_def)+
qed

lemma send_reply_throws:
  assumes "fst (send_reply env j reply cid w) = Some e"
  shows "jobs (snd (send_reply env j reply cid w)) = jobs w"
    and "event_logs (snd (send_reply env j reply cid w)) = event_logs w"
proof -
  obtain r w5 where s: "sendWhatsAppMessage (reply_options w (wa_id j) reply) (http env) w = (r, w5)"
    by fastforce
  have f: "jobs w5 = jobs w" "event_logs w5 = event_logs w"
    using sendWhatsAppMessage_fields [of "reply_options w (wa_id j) reply" "http env" w] s by simp_all
  show "jobs (snd (send_reply env j reply cid w)) = jobs w"
    "event_logs (snd (send_reply env j reply cid w)) = event_logs w"
    using assms f unfolding send_reply_def s by (cases r; simp add: Let_def split: if_splits)+
qed

lemma send_reply_returns:
  assumes "fst (send_reply env j reply cid w) = None"
  shows "jobs (snd (send_reply env j reply cid w))
         = (if finish_ok env then update_job (job_id j) (\<lambda>r. r\<lparr>status := Completed\<rparr>) (jobs w)
            else jobs w)"
proof -
  obtain r w5 where s: "sendWhatsAppMessage (reply_options w (wa_id j) reply) (http env) w = (r, w5)"
    by fastforce
  have f: "jobs w5 = jobs w"
    using sendWhatsAppMessage_fields [of "reply_options w (wa_id j) reply" "http env" w] s by simp_all
  show ?thesis
    using assms f unfolding send_reply_def s by (cases r; simp add: Let_def split: if_splits)
qed


lemma processJob_try_cases:
  obtains
    (no_content) "\<not> truthy (content j)"
      "processJob_try env j w = (Some (Error ''No message content found in job''), w)"
  | (ai_throws) e w3 where "truthy (content j)" "ai env = Inl e"
      "processJob_try env j w = (Some e, w3)"
      "jobs w3 = jobs w" "event_logs w3 = event_logs w" "next_job_id w3 = next_job_id w"
      "config w3 = config w" "console w3 = console w"
  | (ai_replies) reply cid w4 where "truthy (content j)" "ai env = Inr (reply, cid)"
      "processJob_try env j w = send_reply env j reply cid w4"
      "jobs w4 = jobs w" "event_logs w4 = event_logs w" "next_job_id w4 = next_job_id w"
      "config w4 = config w" "console w4 = console w"
proof (cases "truthy (content j)")
  case False
  then show ?thesis using no_content by (simp add: processJob_try_def)
next
  case True
  obtain conv ct w2 where g: "getOrCreateMapping (map_read_ok env) (map_write_ok env) (wa_id j) w = ((conv, ct), w2)"
    by (metis surj_pair)
  have f2: "jobs w2 = jobs w" "event_logs w2 = event_logs w" "next_job_id w2 = next_job_id w"
    "config w2 = config w" "console w2 = console w"
    using getOrCreateMapping_fields [of "map_read_ok env" "map_write_ok env" "wa_id j" w] g by simp_all
  define w3 where "w3 = call (AI_query (or_else (content j) []) (if truthy conv then conv else None) (wa_id j)) w2"
  have f3: "jobs w3 = jobs w" "event_logs w3 = event_logs w" "next_job_id w3 = next_job_id w"
    "config w3 = config w" "console w3 = console w"
    by (simp_all add: w3_def f2)
  show ?thesis
  proof (cases "ai env")
    case (Inl e)
    have "processJob_try env j w = (Some e, w3)"
      by (simp add: processJob_try_def Let_def True g Inl w3_def)
    then show ?thesis using ai_throws [OF True Inl _ f3] by simp
  next
    case (Inr p)
    obtain reply cid where p: "p = (reply, cid)" by (cases p)
    define w4 where "w4 = (if cid \<noteq> [] \<and> Some cid \<noteq> conv
           then updateMapping (map_write_ok env) (wa_id j) (\<lambda>m. m\<lparr>chatbase_conversation_id := Some cid\<rparr>) w3
           else w3)"
    have f4: "jobs w4 = jobs w" "event_logs w4 = event_logs w" "next_job_id w4 = next_job_id w"
      "config w4 = config w" "console w4 = console w"
      by (simp_all add: w4_def f3)
    have a: "ai env = Inr (reply, cid)" using Inr p by simp
    have "processJob_try env j w = send_reply env j reply cid w4"
      by (simp add: processJob_try_def Let_def True g a w3_def w4_def)
    then show ?thesis using ai_replies [OF True a _ f4] by simp
  qed
qed

lemma try_frame [simp]:
  "next_job_id (snd (processJob_try env j w)) = next_job_id w"
  "config (snd (processJob_try env j w)) = config w"
  by (cases env j w rule: processJob_try_cases; simp)+

lemma try_throws_frame:
  assumes "fst (processJob_try env j w) = Some e"
  shows "jobs (snd (processJob_try env j w)) = jobs w"
    and "event_logs (snd (processJob_try env j w)) = event_logs w"
  using assms
  by (cases env j w rule: processJob_try_cases; simp add: send_reply_throws)+

lemma try_returns_frame:
  assumes "fst (processJob_try env j w) = None"
  shows "jobs (snd (processJob_try env j w))
         = (if finish_ok env then update_job (job_id j) (\<lambda>r. r\<lparr>status := Completed\<rparr>) (jobs w)
            else jobs w)"
  using assms
  by (cases env j w rule: processJob_try_cases; simp add: send_reply_returns)

lemma catch_final:
  assumes "MAX_ATTEMPTS \<le> attempts j + 1"
  shows "processJob_catch env j e w =
    (Threw e,
     insert_event (log_ok env)
       \<lparr>event_type = ''job_failed'', ev_wa_id = wa_id j, ev_job_id = job_id j,
        ev_payload = P_attempts (attempts j + 1), ev_error = Some (error_message e)\<rparr>
       (set_job (finish_ok env) (job_id j)
          (\<lambda>r. r\<lparr>status := Failed, attempts := attempts j + 1,
                 last_error := Some (error_message e)\<rparr>) w))"
  using assms by (simp add: processJob_catch_def Let_def)

lemma catch_retry:
  assumes "attempts j + 1 < MAX_ATTEMPTS"
    and "in_date_range (clock env + 2 ^ (attempts j + 1) * 5 * 1000)"
  shows "processJob_catch env j e w =
    (Threw e,
     say (Log_will_retry (job_id j) (clock env + 2 ^ (attempts j + 1) * 5 * 1000))
       (set_job (finish_ok env) (job_id j)
          (\<lambda>r. r\<lparr>status := Pending,
                 scheduled_for := clock env + 2 ^ (attempts j + 1) * 5 * 1000,
                 attempts := attempts j + 1,
                 last_error := Some (error_message e)\<rparr>) w))"
  using assms by (simp add: processJob_catch_def Let_def toISOString_Some)

lemma catch_out_of_range:
  assumes "attempts j + 1 < MAX_ATTEMPTS"
    and "\<not> in_date_range (clock env + 2 ^ (attempts j + 1) * 5 * 1000)"
  shows "processJob_catch env j e w = (Threw (Error ''Invalid time value''), w)"
  using assms by (simp add: processJob_catch_def Let_def toISOString_Some)

lemma processJob_unfold:
  "processJob env j w =
     (case fst (processJob_try env j (mark_processing (mark_ok env) j w)) of
        None \<Rightarrow> (Returned, snd (processJob_try env j (mark_processing (mark_ok env) j w)))
      | Some e \<Rightarrow> processJob_catch env j e (snd (processJob_try env j (mark_processing (mark_ok env) j w))))"
  by (simp add: processJob_def processJob_rest_def case_prod_unfold)

section \<open>Rows and their updates\<close>

lemma update_job_ids [simp]:
  "(\<And>r. job_id (g r) = job_id r) \<Longrightarrow> map job_id (update_job i g js) = map job_id js"
  by (induction js) (simp_all add: update_job_def)

lemma update_job_twice:
  "(\<And>r. job_id (f r) = job_id r) \<Longrightarrow> update_job i g (update_job i f js) = update_job i (g \<circ> f) js"
  by (induction js) (simp_all add: update_job_def)

lemma find_update_job:
  assumes "\<And>r. job_id (g r) = job_id r"
  shows "find (\<lambda>r. job_id r = i) (update_job k g js)
         = (if k = i then map_option g (find (\<lambda>r. job_id r = i) js) else find (\<lambda>r. job_id r = i) js)"
  using assms by (induction js) (auto simp: update_job_def)

lemma find_distinct:
  "distinct (map job_id js) \<Longrightarrow> j \<in> set js \<Longrightarrow> find (\<lambda>r. job_id r = job_id j) js = Some j"
  by (induction js) (auto simp: rev_image_eqI)

lemma lookup_job_member: "wf_world w \<Longrightarrow> j \<in> set (jobs w) \<Longrightarrow> lookup_job (job_id j) w = Some j"
  by (simp add: lookup_job_def wf_world_def find_distinct)

lemma mark_processing_jobs:
  "jobs (mark_processing ok j w) = (if ok then update_job (job_id j) (\<lambda>r. r\<lparr>status := Processing\<rparr>) (jobs w) else jobs w)"
  by (simp add: mark_processing_def)

lemma mark_processing_fields [simp]:
  "next_job_id (mark_processing ok j w) = next_job_id w"
  "config (mark_processing ok j w) = config w"
  "event_logs (mark_processing ok j w) = event_logs w"
  "mappings (mark_processing ok j w) = mappings w"
  "calls (mark_processing ok j w) = calls w"
  "console (mark_processing ok j w) = console w"
  by (simp_all add: mark_processing_def)

lemma keeps_key_comp: "keeps_key f \<Longrightarrow> keeps_key g \<Longrightarrow> keeps_key (g \<circ> f)"
  by (simp add: keeps_key_def)

lemma keeps_key_simps [simp]:
  "keeps_key (\<lambda>r. r)" "keeps_key (\<lambda>r. r\<lparr>status := s\<rparr>)"
  "keeps_key (\<lambda>r. r\<lparr>status := s, attempts := a, last_error := e\<rparr>)"
  "keeps_key (\<lambda>r. r\<lparr>status := s, scheduled_for := t, attempts := a, last_error := e\<rparr>)"
  "keeps_key (\<lambda>r. r\<lparr>scheduled_for := t, content := c\<rparr>)"
  by (simp_all add: keeps_key_def)

lemma update_job_id [simp]: "update_job i (\<lambda>r. r) js = js"
  by (induction js) (simp_all add: update_job_def)

lemma processJob_shape:
  "\<exists>g. keeps_key g \<and> jobs (snd (processJob env j w)) = update_job (job_id j) g (jobs w)"
proof -
  define f where "f = (if mark_ok env then (\<lambda>r. r\<lparr>status := Processing\<rparr>) else (\<lambda>r::job. r))"
  define w1 where "w1 = mark_processing (mark_ok env) j w"
  have kf: "keeps_key f" by (simp add: f_def)
  have j1: "jobs w1 = update_job (job_id j) f (jobs w)"
    by (simp add: w1_def f_def mark_processing_jobs)
  have "\<exists>g. keeps_key g \<and> jobs (snd (processJob env j w)) = update_job (job_id j) g (jobs w1)"
  proof (cases "fst (processJob_try env j w1)")
    case None
    then have "jobs (snd (processJob env j w))
          = (if finish_ok env then update_job (job_id j) (\<lambda>r. r\<lparr>status := Completed\<rparr>) (jobs w1) else jobs w1)"
      using try_returns_frame [OF None] by (simp add: processJob_unfold w1_def)
    then show ?thesis
      by (cases "finish_ok env") (auto intro: exI [of _ "\<lambda>r. r\<lparr>status := Completed\<rparr>"] exI [of _ "\<lambda>r. r"])
  next
    case (Some e)
    have pj: "processJob env j w = processJob_catch env j e (snd (processJob_try env j w1))"
      using Some by (simp add: processJob_unfold w1_def)
    have tj: "jobs (snd (processJob_try env j w1)) = jobs w1"
      by (rule try_throws_frame(1) [OF Some])
    show ?thesis
    proof (cases "MAX_ATTEMPTS \<le> attempts j + 1")
      case True
      show ?thesis
        unfolding pj catch_final [OF True] using tj
        by (cases "finish_ok env")
           (auto intro: exI [of _ "\<lambda>r. r\<lparr>status := Failed, attempts := attempts j + 1, last_error := Some (error_message e)\<rparr>"] exI [of _ "\<lambda>r. r"])
    next
      case False
      then have lt: "attempts j + 1 < MAX_ATTEMPTS" by simp
      show ?thesis
      proof (cases "in_date_range (clock env + 2 ^ (attempts j + 1) * 5 * 1000)")
        case True
        show ?thesis
          unfolding pj catch_retry [OF lt True] using tj
          by (cases "finish_ok env")
             (auto intro: exI [of _ "\<lambda>r. r\<lparr>status := Pending, scheduled_for := clock env + 2 ^ (attempts j + 1) * 5 * 1000, attempts := attempts j + 1, last_error := Some (error_message e)\<rparr>"] exI [of _ "\<lambda>r. r"])
      next
        case False
        show ?thesis
          unfolding pj catch_out_of_range [OF lt False] using tj
          by (auto intro: exI [of _ "\<lambda>r. r"])
      qed
    qed
  qed
  then obtain g where g: "keeps_key g" "jobs (snd (processJob env j w)) = update_job (job_id j) g (jobs w1)"
    by blast
  have "update_job (job_id j) g (jobs w1) = update_job (job_id j) (g \<circ> f) (jobs w)"
    unfolding j1 using kf by (intro update_job_twice) (simp add: keeps_key_def)
  with g kf show ?thesis using keeps_key_comp by metis
qed

lemma processJob_frame [simp]:
  "next_job_id (snd (processJob env j w)) = next_job_id w"
  "config (snd (processJob env j w)) = config w"
  by (simp_all add: processJob_unfold processJob_catch_def Let_def split: option.splits sum.splits)

section \<open>A failed attempt\<close>

lemma wf_world_cong:
  "map job_id (jobs w') = map job_id (jobs w) \<Longrightarrow> next_job_id w' = next_job_id w \<Longrightarrow>
   wf_world w \<Longrightarrow> wf_world w'"
proof -
  assume a: "map job_id (jobs w') = map job_id (jobs w)" "next_job_id w' = next_job_id w" "wf_world w"
  have "list_all (\<lambda>r. job_id r < n) js = list_all (\<lambda>i. i < n) (map job_id js)" for n and js :: "job list"
    by (induction js) simp_all
  with a show ?thesis by (simp add: wf_world_def)
qed

lemma wf_processJob: "wf_world w \<Longrightarrow> wf_world (snd (processJob env j w))"
proof -
  assume wf: "wf_world w"
  obtain g where g: "keeps_key g" "jobs (snd (processJob env j w)) = update_job (job_id j) g (jobs w)"
    using processJob_shape by blast
  have "map job_id (jobs (snd (processJob env j w))) = map job_id (jobs w)"
    unfolding g(2) using g(1) by (intro update_job_ids) (simp add: keeps_key_def)
  then show ?thesis by (rule wf_world_cong) (simp_all add: wf)
qed

lemma lookup_other_processJob:
  "job_id j \<noteq> i \<Longrightarrow> lookup_job i (snd (processJob env j w)) = lookup_job i w"
proof -
  assume ne: "job_id j \<noteq> i"
  obtain g where g: "keeps_key g" "jobs (snd (processJob env j w)) = update_job (job_id j) g (jobs w)"
    using processJob_shape by blast
  show ?thesis
    unfolding lookup_job_def g(2) using g(1) ne
    by (subst find_update_job) (simp_all add: keeps_key_def)
qed

lemma processJob_threw_try:
  assumes "processJob env j w = (Threw x, w')"
  obtains e where "fst (processJob_try env j (mark_processing (mark_ok env) j w)) = Some e"
    "processJob env j w = processJob_catch env j e (snd (processJob_try env j (mark_processing (mark_ok env) j w)))"
  using assms by (cases "fst (processJob_try env j (mark_processing (mark_ok env) j w))")
    (simp_all add: processJob_unfold)

lemma lookup_marked:
  assumes "wf_world w" "j \<in> set (jobs w)"
  shows "\<exists>r. lookup_job (job_id j) (mark_processing ok j w) = Some r
           \<and> (r = j \<or> r = j\<lparr>status := Processing\<rparr>)"
  using lookup_job_member [OF assms]
  by (simp add: lookup_job_def mark_processing_jobs find_update_job)

lemma fail_step:
  assumes run: "processJob env j w = (Threw x, w')"
    and fin: "finish_ok env"
    and wf: "wf_world w" and mem: "j \<in> set (jobs w)"
    and rng: "attempts j + 1 < MAX_ATTEMPTS \<Longrightarrow>
              in_date_range (clock env + 2 ^ (attempts j + 1) * 5 * 1000)"
  shows "lookup_job (job_id j) w' = Some (after_failure (clock env) (error_message x) j)"
    and "MAX_ATTEMPTS \<le> attempts j + 1 \<Longrightarrow> log_ok env \<Longrightarrow>
         event_logs w' = event_logs w @
           [\<lparr>event_type = ''job_failed'', ev_wa_id = wa_id j, ev_job_id = job_id j,
             ev_payload = P_attempts (attempts j + 1), ev_error = Some (error_message x)\<rparr>]"
proof -
  define w1 where "w1 = mark_processing (mark_ok env) j w"
  from run obtain e where e: "fst (processJob_try env j w1) = Some e"
    and pj: "processJob env j w = processJob_catch env j e (snd (processJob_try env j w1))"
    unfolding w1_def by (rule processJob_threw_try)
  define w2 where "w2 = snd (processJob_try env j w1)"
  have j2: "jobs w2 = jobs w1" and e2: "event_logs w2 = event_logs w"
    unfolding w2_def using try_throws_frame [OF e] by (simp_all add: w1_def)
  obtain r where r: "lookup_job (job_id j) w1 = Some r" "r = j \<or> r = j\<lparr>status := Processing\<rparr>"
    unfolding w1_def using lookup_marked [OF wf mem] by blast
  then have r2: "find (\<lambda>r. job_id r = job_id j) (jobs w2) = Some r"
    by (simp add: lookup_job_def j2)
  have c: "processJob_catch env j e w2 = (Threw x, w')"
    using run pj by (simp add: w2_def)
  have found: "lookup_job (job_id j) (set_job True (job_id j) g w2) = Some (g r)"
    if "keeps_key g" for g :: "job \<Rightarrow> job"
    using that by (simp add: lookup_job_def find_update_job r2 keeps_key_def)
  show "lookup_job (job_id j) w' = Some (after_failure (clock env) (error_message x) j)"
  proof (cases "MAX_ATTEMPTS \<le> attempts j + 1")
    case True
    define g :: "job \<Rightarrow> job" where "g = (\<lambda>r. r\<lparr>status := Failed, attempts := attempts j + 1,
                 last_error := Some (error_message e)\<rparr>)"
    from c have x: "x = e" and w': "jobs w' = jobs (set_job True (job_id j) g w2)"
      unfolding catch_final [OF True] g_def using fin by auto
    have "g r = after_failure (clock env) (error_message x) j"
      using r(2) True by (auto simp: g_def after_failure_def x)
    moreover have "keeps_key g" by (simp add: g_def)
    ultimately show ?thesis using found [of g] w' by (simp add: lookup_job_def)
  next
    case False
    then have lt: "attempts j + 1 < MAX_ATTEMPTS" by simp
    define g :: "job \<Rightarrow> job" where "g = (\<lambda>r. r\<lparr>status := Pending,
                 scheduled_for := clock env + 2 ^ (attempts j + 1) * 5 * 1000,
                 attempts := attempts j + 1,
                 last_error := Some (error_message e)\<rparr>)"
    from c have x: "x = e" and w': "jobs w' = jobs (set_job True (job_id j) g w2)"
      unfolding catch_retry [OF lt rng [OF lt]] g_def using fin by auto
    have "g r = after_failure (clock env) (error_message x) j"
      using r(2) False by (auto simp: g_def after_failure_def x)
    moreover have "keeps_key g" by (simp add: g_def)
    ultimately show ?thesis using found [of g] w' by (simp add: lookup_job_def)
  qed
  show "event_logs w' = event_logs w @
           [\<lparr>event_type = ''job_failed'', ev_wa_id = wa_id j, ev_job_id = job_id j,
             ev_payload = P_attempts (attempts j + 1), ev_error = Some (error_message x)\<rparr>]"
    if True: "MAX_ATTEMPTS \<le> attempts j + 1" and lg: "log_ok env"
  proof -
    from c have x: "x = e" and w': "event_logs w' = event_logs (insert_event True
       \<lparr>event_type = ''job_failed'', ev_wa_id = wa_id j, ev_job_id = job_id j,
        ev_payload = P_attempts (attempts j + 1), ev_error = Some (error_message e)\<rparr> w2)"
      unfolding catch_final [OF True] using lg by auto
    show ?thesis by (simp add: w' e2 x)
  qed
qed

section \<open>Rows that are no longer pending\<close>

lemma single_Some: "single xs = Some x \<longleftrightarrow> xs = [x]"
  by (cases xs; cases "tl xs") (auto simp: single_def)

lemma sched_shape:
  fixes db now u f w
  defines "w' \<equiv> snd (scheduleOrDebounceJob db now u f w)"
  obtains
    (same) "jobs w' = jobs w" "next_job_id w' = next_job_id w"
  | (updated) ex t c where "select_ok db" "pending_for u (jobs w) = [ex]"
      "jobs w' = update_job (job_id ex) (\<lambda>j. j\<lparr>scheduled_for := t, content := c\<rparr>) (jobs w)"
      "next_job_id w' = next_job_id w"
  | (inserted) t where "\<not> select_ok db \<or> single (pending_for u (jobs w)) = None"
      "jobs w' = jobs w @ [new_job (next_job_id w) u t f]"
      "next_job_id w' = Suc (next_job_id w)"
proof (cases "toISOString (js_add now (debounceMs w))")
  case (Inl e)
  then have "w' = w" by (simp add: w'_def scheduleOrDebounceJob_def)
  then show ?thesis using same by simp
next
  case (Inr t)
  show ?thesis
  proof (cases "if select_ok db then single (pending_for u (jobs w)) else None")
    case None
    then have n: "\<not> select_ok db \<or> single (pending_for u (jobs w)) = None"
      by (simp split: if_splits)
    show ?thesis
    proof (cases "write_ok db")
      case True
      then show ?thesis using inserted [where t = t] n None Inr
        by (simp add: w'_def scheduleOrDebounceJob_def)
    next
      case False
      then show ?thesis using same None Inr
        by (simp add: w'_def scheduleOrDebounceJob_def)
    qed
  next
    case (Some ex)
    then have s: "select_ok db" "pending_for u (jobs w) = [ex]"
      by (simp_all add: single_Some split: if_splits)
    show ?thesis
    proof (cases "write_ok db")
      case True
      then show ?thesis
        using updated [where ex = ex and t = t and c = "Some (append_content (content ex) f)"] s Some Inr
        by (simp add: w'_def scheduleOrDebounceJob_def Let_def)
    next
      case False
      then show ?thesis using same Some Inr
        by (simp add: w'_def scheduleOrDebounceJob_def Let_def)
    qed
  qed
qed

lemma pending_for_member: "pending_for u js = [ex] \<Longrightarrow> ex \<in> set js \<and> status ex = Pending \<and> wa_id ex = u"
proof -
  assume "pending_for u js = [ex]"
  then have "ex \<in> set (filter (\<lambda>j. wa_id j = u \<and> status j = Pending) js)"
    by (simp add: pending_for_def)
  then show ?thesis by simp
qed

lemma list_all_ids: "list_all (\<lambda>r. job_id r < n) js = (\<forall>i \<in> set (map job_id js). i < n)"
  by (induction js) simp_all

lemma wf_sched: "wf_world w \<Longrightarrow> wf_world (snd (scheduleOrDebounceJob db now u f w))"
proof -
  assume wf: "wf_world w"
  show ?thesis
  proof (cases db now u f w rule: sched_shape)
    case same
    then show ?thesis by (intro wf_world_cong [OF _ _ wf]) simp_all
  next
    case (updated ex t c)
    then show ?thesis by (intro wf_world_cong [OF _ _ wf]) simp_all
  next
    case (inserted t)
    then show ?thesis using wf
      by (auto simp: wf_world_def new_job_def list_all_ids)
  qed
qed

lemma find_append_Some: "find P xs = Some x \<Longrightarrow> find P (xs @ ys) = Some x"
  by (induction xs) (auto split: if_splits)

lemma lookup_sched:
  assumes wf: "wf_world w" and r: "lookup_job i w = Some r" and np: "status r \<noteq> Pending"
  shows "lookup_job i (snd (scheduleOrDebounceJob db now u f w)) = Some r"
proof (cases db now u f w rule: sched_shape)
  case same
  then show ?thesis using r by (simp add: lookup_job_def)
next
  case (updated ex t c)
  from pending_for_member [OF updated(2)] have ex: "ex \<in> set (jobs w)" "status ex = Pending" by simp_all
  have "job_id ex \<noteq> i"
  proof
    assume "job_id ex = i"
    with lookup_job_member [OF wf ex(1)] r have "r = ex" by simp
    with np ex(2) show False by simp
  qed
  then show ?thesis using r updated(3) by (simp add: lookup_job_def find_update_job)
next
  case (inserted t)
  from r have "find (\<lambda>r. job_id r = i) (jobs w) = Some r" by (simp add: lookup_job_def)
  then show ?thesis using inserted(2) by (simp add: lookup_job_def find_append_Some)
qed

lemma wf_batch: "wf_world w \<Longrightarrow> wf_world (snd (process_batch envs js c w))"
proof (induction js arbitrary: c w)
  case Nil
  then show ?case by simp
next
  case (Cons j js)
  obtain x w1 where p: "processJob (envs (job_id j)) j w = (x, w1)" by fastforce
  have wf1: "wf_world w1" using wf_processJob [OF Cons.prems, of "envs (job_id j)" j] p by simp
  show ?case
  proof (cases x)
    case Returned
    then show ?thesis using p Cons.IH [OF wf1] by simp
  next
    case (Threw e)
    have "wf_world (say (Err_job_failed (job_id j) e) w1)"
      by (rule wf_world_cong [OF _ _ wf1]) simp_all
    then show ?thesis using p Threw Cons.IH by simp
  qed
qed

lemma lookup_batch:
  assumes "\<forall>j \<in> set js. job_id j \<noteq> i"
  shows "lookup_job i (snd (process_batch envs js c w)) = lookup_job i w"
  using assms
proof (induction js arbitrary: c w)
  case Nil
  then show ?case by simp
next
  case (Cons j js)
  obtain x w1 where p: "processJob (envs (job_id j)) j w = (x, w1)" by fastforce
  have l1: "lookup_job i w1 = lookup_job i w"
    using lookup_other_processJob [of j i "envs (job_id j)" w] p Cons.prems by simp
  have rest: "\<forall>j \<in> set js. job_id j \<noteq> i" using Cons.prems by simp
  show ?case
  proof (cases x)
    case Returned
    then show ?thesis using p Cons.IH [OF rest] l1 by simp
  next
    case (Threw e)
    have "lookup_job i (say (Err_job_failed (job_id j) e) w1) = lookup_job i w1"
      by (simp add: lookup_job_def)
    then show ?thesis using p Threw Cons.IH [OF rest] l1 by simp
  qed
qed

lemma wf_poll: "wf_world w \<Longrightarrow> wf_world (snd (processReadyJobs ok now envs w))"
proof -
  assume wf: "wf_world w"
  have "wf_world (say Err_fetch_failed w)" by (rule wf_world_cong [OF _ _ wf]) simp_all
  then show ?thesis using wf_batch [OF wf] by (simp add: processReadyJobs_def)
qed

lemma lookup_poll:
  assumes wf: "wf_world w" and r: "lookup_job i w = Some r" and np: "status r \<noteq> Pending"
  shows "lookup_job i (snd (processReadyJobs ok now envs w)) = Some r"
proof (cases ok)
  case False
  then show ?thesis using r by (simp add: processReadyJobs_def lookup_job_def)
next
  case True
  have "\<forall>j \<in> set (select_ready now (jobs w)). job_id j \<noteq> i"
  proof
    fix j assume "j \<in> set (select_ready now (jobs w))"
    with select_ready_subset have j: "j \<in> set (jobs w)" "ready now j" by blast+
    show "job_id j \<noteq> i"
    proof
      assume "job_id j = i"
      with lookup_job_member [OF wf j(1)] r have "r = j" by simp
      with np j(2) show False by (simp add: ready_def)
    qed
  qed
  from lookup_batch [OF this] r True show ?thesis by (simp add: processReadyJobs_def)
qed

lemma settled_row_stays:
  assumes "wf_world w" and "lookup_job i w = Some r" and "status r \<noteq> Pending"
  shows "wf_world (run_ops ops w) \<and> lookup_job i (run_ops ops w) = Some r"
  using assms
proof (induction ops arbitrary: w)
  case Nil
  then show ?case by simp
next
  case (Cons op ops)
  have "wf_world (run_op op w) \<and> lookup_job i (run_op op w) = Some r"
    using Cons.prems by (cases op) (simp_all add: wf_sched lookup_sched wf_poll lookup_poll)
  then show ?case using Cons.IH Cons.prems(3) by simp
qed

lemma never_selected:
  assumes "wf_world w" and "lookup_job i w = Some r" and "status r \<noteq> Pending"
  shows "i \<notin> set (map job_id (select_ready now (jobs w)))"
proof
  assume "i \<in> set (map job_id (select_ready now (jobs w)))"
  then obtain j where j: "j \<in> set (select_ready now (jobs w))" "job_id j = i" by auto
  with select_ready_subset have m: "j \<in> set (jobs w)" "ready now j" by blast+
  with lookup_job_member [OF assms(1) m(1)] assms(2) j(2) have "r = j" by simp
  with assms(3) m(2) show False by (simp add: ready_def)
qed

lemma lookup_job_Some: "lookup_job i w = Some j \<Longrightarrow> j \<in> set (jobs w) \<and> job_id j = i"
  by (auto simp: lookup_job_def find_Some_iff)

lemma failed_attempt:
  assumes wf: "wf_world w" and l: "lookup_job i w = Some j" and f: "failure_of env i w = Some x"
    and fin: "finish_ok env"
    and rng: "attempts j + 1 < MAX_ATTEMPTS \<Longrightarrow>
              in_date_range (clock env + 2 ^ (attempts j + 1) * 5 * 1000)"
  shows "wf_world (attempt env i w)"
    and "lookup_job i (attempt env i w) = Some (after_failure (clock env) (error_message x) j)"
    and "MAX_ATTEMPTS \<le> attempts j + 1 \<Longrightarrow> log_ok env \<Longrightarrow>
         event_logs (attempt env i w) = event_logs w @
           [\<lparr>event_type = ''job_failed'', ev_wa_id = wa_id j, ev_job_id = i,
             ev_payload = P_attempts (attempts j + 1), ev_error = Some (error_message x)\<rparr>]"
proof -
  from lookup_job_Some [OF l] have m: "j \<in> set (jobs w)" and i: "job_id j = i" by simp_all
  have a: "attempt env i w = snd (processJob env j w)" by (simp add: attempt_def l)
  from f have "fst (processJob env j w) = Threw x"
    by (simp add: failure_of_def l split: completion.splits)
  then have run: "processJob env j w = (Threw x, attempt env i w)"
    by (simp add: a prod_eq_iff)
  show "wf_world (attempt env i w)" unfolding a by (rule wf_processJob [OF wf])
  show "lookup_job i (attempt env i w) = Some (after_failure (clock env) (error_message x) j)"
    using fail_step(1) [OF run fin wf m rng] i by simp
  show "event_logs (attempt env i w) = event_logs w @
           [\<lparr>event_type = ''job_failed'', ev_wa_id = wa_id j, ev_job_id = i,
             ev_payload = P_attempts (attempts j + 1), ev_error = Some (error_message x)\<rparr>]"
    if "MAX_ATTEMPTS \<le> attempts j + 1" "log_ok env"
    using fail_step(2) [OF run fin wf m rng that] i by simp
qed

lemma try_ai_throws:
  "truthy (content j) \<Longrightarrow> ai env = Inl e \<Longrightarrow> fst (processJob_try env j w) = Some e"
  by (cases env j w rule: processJob_try_cases) simp_all

lemma try_no_content:
  "\<not> truthy (content j) \<Longrightarrow>
   processJob_try env j w = (Some (Error ''No message content found in job''), w)"
  by (cases env j w rule: processJob_try_cases) simp_all

lemma processJob_threw:
  assumes "fst (processJob_try env j (mark_processing (mark_ok env) j w)) = Some e"
    and "attempts j + 1 < MAX_ATTEMPTS \<Longrightarrow>
         in_date_range (clock env + 2 ^ (attempts j + 1) * 5 * 1000)"
  shows "fst (processJob env j w) = Threw e"
proof (cases "MAX_ATTEMPTS \<le> attempts j + 1")
  case True
  then show ?thesis using assms(1) by (simp add: processJob_unfold catch_final)
next
  case False
  then have lt: "attempts j + 1 < MAX_ATTEMPTS" by simp
  show ?thesis using assms(1) by (simp add: processJob_unfold catch_retry [OF lt assms(2) [OF lt]])
qed

lemma ai_down_fails:
  assumes "lookup_job i w = Some j" and "truthy (content j)"
    and "attempts j + 1 < MAX_ATTEMPTS \<Longrightarrow> in_date_range (t + 2 ^ (attempts j + 1) * 5 * 1000)"
  shows "failure_of (ai_down t) i w = Some (Error ''Chatbase API error: 500'')"
proof -
  have "fst (processJob_try (ai_down t) j (mark_processing (mark_ok (ai_down t)) j w))
        = Some (Error ''Chatbase API error: 500'')"
    by (rule try_ai_throws [OF assms(2)]) (simp add: ai_down_def)
  from processJob_threw [OF this] assms(3)
  have "fst (processJob (ai_down t) j w) = Threw (Error ''Chatbase API error: 500'')"
    by (simp add: ai_down_def)
  then show ?thesis by (simp add: failure_of_def assms(1))
qed

lemma world1_wf: "wf_world world1"
  by (simp add: world1_eq wf_world_def new_job_def world0_def)

lemma world1_lookup: "lookup_job 0 world1 = Some (new_job 0 ''+33600000001'' 3000 ''Hello'')"
  by (simp add: world1_eq lookup_job_def new_job_def world0_def)

section \<open>Retry bound\<close>

text \<open>
  Claim C5. Take a job with \<open>attempts = 0\<close> on which three attempts in a row fail
  (each attempt reads the row and hands it to \<^verbatim>\<open>processJob\<close>, which throws), the
  updates of the job row succeeding, the last insert into the event log succeeding, and
  the two retry times being representable dates. Then the row ends with status
  \<open>Failed\<close>, \<open>attempts = MAX_ATTEMPTS\<close> and the message of the third error as
  \<open>last_error\<close>; the last row of the event log is the \<open>job_failed\<close> event with
  that message; and after any further sequence of enqueue calls and poller runs the row
  is unchanged and the poller's query does not select it.
\<close>

theorem retry_bound:
  assumes wf: "wf_world w0" and j0: "lookup_job i w0 = Some j0" and a0: "attempts j0 = 0"
    and f1: "failure_of e1 i w0 = Some x1"
    and f2: "failure_of e2 i (attempt e1 i w0) = Some x2"
    and f3: "failure_of e3 i (attempt e2 i (attempt e1 i w0)) = Some x3"
    and ok: "finish_ok e1" "finish_ok e2" "finish_ok e3" "log_ok e3"
    and rng: "in_date_range (clock e1 + 10000)" "in_date_range (clock e2 + 20000)"
  shows "lookup_job i (attempt e3 i (attempt e2 i (attempt e1 i w0)))
           = Some (j0\<lparr>status := Failed, scheduled_for := clock e2 + 20000,
                      attempts := MAX_ATTEMPTS, last_error := Some (error_message x3)\<rparr>)
         \<and> last (event_logs (attempt e3 i (attempt e2 i (attempt e1 i w0))))
             = \<lparr>event_type = ''job_failed'', ev_wa_id = wa_id j0, ev_job_id = i,
                ev_payload = P_attempts MAX_ATTEMPTS, ev_error = Some (error_message x3)\<rparr>
         \<and> (\<forall>ops now.
               lookup_job i (run_ops ops (attempt e3 i (attempt e2 i (attempt e1 i w0))))
                 = Some (j0\<lparr>status := Failed, scheduled_for := clock e2 + 20000,
                            attempts := MAX_ATTEMPTS, last_error := Some (error_message x3)\<rparr>)
               \<and> i \<notin> set (map job_id (select_ready now
                       (jobs (run_ops ops (attempt e3 i (attempt e2 i (attempt e1 i w0))))))))"
proof -
  define w1 where "w1 = attempt e1 i w0"
  define w2 where "w2 = attempt e2 i w1"
  define w3 where "w3 = attempt e3 i w2"
  define j1 where "j1 = after_failure (clock e1) (error_message x1) j0"
  define j2 where "j2 = after_failure (clock e2) (error_message x2) j1"
  define j3 where "j3 = after_failure (clock e3) (error_message x3) j2"
  have r1: "in_date_range (clock e1 + 2 ^ (attempts j0 + 1) * 5 * 1000)"
    using rng(1) by (simp add: a0)
  have s1: "wf_world w1" "lookup_job i w1 = Some j1"
    unfolding w1_def j1_def using failed_attempt(1,2) [OF wf j0 f1 ok(1) r1] by simp_all
  have j1: "j1 = j0\<lparr>status := Pending, scheduled_for := clock e1 + 10000, attempts := 1,
                     last_error := Some (error_message x1)\<rparr>"
    by (simp add: j1_def after_failure_def a0 MAX_ATTEMPTS_def)
  have r2: "in_date_range (clock e2 + 2 ^ (attempts j1 + 1) * 5 * 1000)"
    using rng(2) by (simp add: j1)
  have s2: "wf_world w2" "lookup_job i w2 = Some j2"
    unfolding w2_def j2_def using failed_attempt(1,2) [OF s1 _ ok(2) r2] f2 by (simp_all add: w1_def)
  have j2: "j2 = j0\<lparr>status := Pending, scheduled_for := clock e2 + 20000, attempts := 2,
                     last_error := Some (error_message x2)\<rparr>"
    by (simp add: j2_def j1 after_failure_def MAX_ATTEMPTS_def)
  have m3: "MAX_ATTEMPTS \<le> attempts j2 + 1" by (simp add: j2 MAX_ATTEMPTS_def)
  have f3': "failure_of e3 i w2 = Some x3" using f3 by (simp add: w2_def w1_def)
  have s3: "wf_world w3" "lookup_job i w3 = Some j3"
    unfolding w3_def j3_def using failed_attempt(1,2) [OF s2 f3' ok(3)] m3 by simp_all
  have ev: "event_logs w3 = event_logs w2 @
           [\<lparr>event_type = ''job_failed'', ev_wa_id = wa_id j2, ev_job_id = i,
             ev_payload = P_attempts (attempts j2 + 1), ev_error = Some (error_message x3)\<rparr>]"
    unfolding w3_def using failed_attempt(3) [OF s2 f3' ok(3) _ m3 ok(4)] m3 by simp
  have j3: "j3 = j0\<lparr>status := Failed, scheduled_for := clock e2 + 20000, attempts := MAX_ATTEMPTS,
                     last_error := Some (error_message x3)\<rparr>"
    by (simp add: j3_def j2 after_failure_def MAX_ATTEMPTS_def)
  have np: "status j3 \<noteq> Pending" by (simp add: j3)
  have c1: "lookup_job i w3 = Some (j0\<lparr>status := Failed, scheduled_for := clock e2 + 20000,
                      attempts := MAX_ATTEMPTS, last_error := Some (error_message x3)\<rparr>)"
    using s3(2) j3 by simp
  have c2: "last (event_logs w3)
             = \<lparr>event_type = ''job_failed'', ev_wa_id = wa_id j0, ev_job_id = i,
                ev_payload = P_attempts MAX_ATTEMPTS, ev_error = Some (error_message x3)\<rparr>"
    by (simp add: ev j2 MAX_ATTEMPTS_def)
  have c3: "lookup_job i (run_ops ops w3) = Some j3
            \<and> i \<notin> set (map job_id (select_ready now (jobs (run_ops ops w3))))" for ops now
  proof -
    from settled_row_stays [OF s3 np, of ops]
    have "wf_world (run_ops ops w3)" "lookup_job i (run_ops ops w3) = Some j3" by simp_all
    with never_selected [OF this np, of now] show ?thesis by simp
  qed
  show ?thesis
    using c1 c2 c3 unfolding w3_def w2_def w1_def j3 by blast
qed


text \<open>The specification's scenario: the AI backend always fails.\<close>

theorem retry_bound_witness:
  "lookup_job 0 (attempt (ai_down 33000) 0 (attempt (ai_down 13000) 0 (attempt (ai_down 3000) 0 world1)))
     = Some \<lparr>job_id = 0, wa_id = ''+33600000001'', status = Failed, scheduled_for = 33000,
             attempts = 3, last_error = Some ''Chatbase API error: 500'',
             content = Some ''Hello''\<rparr>
   \<and> last (event_logs (attempt (ai_down 33000) 0 (attempt (ai_down 13000) 0 (attempt (ai_down 3000) 0 world1))))
     = \<lparr>event_type = ''job_failed'', ev_wa_id = ''+33600000001'', ev_job_id = 0,
        ev_payload = P_attempts 3, ev_error = Some ''Chatbase API error: 500''\<rparr>
   \<and> (\<forall>ops now. 0 \<notin> set (map job_id (select_ready now (jobs (run_ops ops
         (attempt (ai_down 33000) 0 (attempt (ai_down 13000) 0 (attempt (ai_down 3000) 0 world1))))))))"
proof -
  define j0 where "j0 = new_job 0 ''+33600000001'' 3000 ''Hello''"
  define x where "x = Error ''Chatbase API error: 500''"
  have l0: "lookup_job 0 world1 = Some j0" by (simp add: world1_lookup j0_def)
  have a0: "attempts j0 = 0" and t0: "truthy (content j0)"
    by (simp_all add: j0_def new_job_def truthy_def)
  have f1: "failure_of (ai_down 3000) 0 world1 = Some x"
    unfolding x_def by (rule ai_down_fails [OF l0 t0]) (simp add: a0 in_date_range_def)
  have s1: "wf_world (attempt (ai_down 3000) 0 world1)"
    "lookup_job 0 (attempt (ai_down 3000) 0 world1) = Some (after_failure 3000 (error_message x) j0)"
    using failed_attempt(1,2) [OF world1_wf l0 f1]
    by (simp_all add: ai_down_def a0 in_date_range_def)
  define j1 where "j1 = after_failure 3000 (error_message x) j0"
  have a1: "attempts j1 = 1" and t1: "truthy (content j1)"
    by (simp_all add: j1_def after_failure_def a0 MAX_ATTEMPTS_def j0_def new_job_def truthy_def)
  have f2: "failure_of (ai_down 13000) 0 (attempt (ai_down 3000) 0 world1) = Some x"
    unfolding x_def using s1(2)
    by (intro ai_down_fails [where j = j1]) (simp_all add: j1_def [symmetric] t1 a1 in_date_range_def)
  have s2: "wf_world (attempt (ai_down 13000) 0 (attempt (ai_down 3000) 0 world1))"
    "lookup_job 0 (attempt (ai_down 13000) 0 (attempt (ai_down 3000) 0 world1))
       = Some (after_failure 13000 (error_message x) j1)"
    using failed_attempt(1,2) [OF s1(1) s1(2) [folded j1_def] f2]
    by (simp_all add: ai_down_def a1 in_date_range_def)
  define j2 where "j2 = after_failure 13000 (error_message x) j1"
  have a2: "attempts j2 = 2" and t2: "truthy (content j2)"
    by (simp_all add: j2_def j1_def after_failure_def a0 MAX_ATTEMPTS_def j0_def new_job_def truthy_def)
  have f3: "failure_of (ai_down 33000) 0 (attempt (ai_down 13000) 0 (attempt (ai_down 3000) 0 world1)) = Some x"
    unfolding x_def using s2(2)
    by (intro ai_down_fails [where j = j2]) (simp_all add: j2_def [symmetric] t2 a2 MAX_ATTEMPTS_def)
  have r: "in_date_range (clock (ai_down 3000) + 10000)" "in_date_range (clock (ai_down 13000) + 20000)"
    by (simp_all add: ai_down_def in_date_range_def)
  have k: "finish_ok (ai_down 3000)" "finish_ok (ai_down 13000)" "finish_ok (ai_down 33000)"
    "log_ok (ai_down 33000)"
    by (simp_all add: ai_down_def)
  from retry_bound [OF world1_wf l0 a0 f1 f2 f3 k r]
  show ?thesis
    by (simp add: j0_def new_job_def x_def error_message_def MAX_ATTEMPTS_def ai_down_def)
qed

section \<open>The worker\<close>

lemma logEvent_fields [simp]:
  "jobs (logEvent ok t u i p e w) = jobs w" "next_job_id (logEvent ok t u i p e w) = next_job_id w"
  "mappings (logEvent ok t u i p e w) = mappings w" "config (logEvent ok t u i p e w) = config w"
  "calls (logEvent ok t u i p e w) = calls w" "console (logEvent ok t u i p e w) = console w"
  "event_logs (logEvent ok t u i p e w)
     = (if ok then event_logs w @ [\<lparr>event_type = t, ev_wa_id = u, ev_job_id = i, ev_payload = p,
                                      ev_error = e\<rparr>] else event_logs w)"
  by (simp_all add: logEvent_def)

lemma lookup_set_job:
  assumes "lookup_job i w = Some r" and "\<And>x. job_id (g x) = job_id x"
  shows "lookup_job i (set_job True i g w) = Some (g r)"
  using assms by (simp add: lookup_job_def find_update_job)

lemma lookup_cong: "jobs w' = jobs w \<Longrightarrow> lookup_job i w' = lookup_job i w"
  by (simp add: lookup_job_def)

text \<open>The worker's failure path.\<close>

lemma worker_catch_retry:
  assumes "attempts j + 1 < MAX_ATTEMPTS" and "in_date_range (clock env + 5000)"
  shows "worker_catch env j e w =
    (Returned,
     logEvent (log_ok env) ''job_retry'' (wa_id j) (job_id j) (P_attempts (attempts j + 1))
       (Some (worker_error_message e))
       (set_job (finish_ok env) (job_id j)
          (\<lambda>r. r\<lparr>status := Pending, attempts := attempts j + 1,
                 last_error := Some (worker_error_message e),
                 scheduled_for := clock env + 5000\<rparr>)
          (say (Err_worker_job_failed (job_id j) (worker_error_message e)) w)))"
  using assms by (simp add: worker_catch_def Let_def toISOString_Some)

lemma worker_catch_final:
  assumes "MAX_ATTEMPTS \<le> attempts j + 1"
  shows "worker_catch env j e w =
    (Returned,
     logEvent (log_ok env) ''job_failed'' (wa_id j) (job_id j) (P_attempts (attempts j + 1))
       (Some (worker_error_message e))
       (set_job (finish_ok env) (job_id j)
          (\<lambda>r. r\<lparr>status := Failed, attempts := attempts j + 1,
                 last_error := Some (worker_error_message e)\<rparr>)
          (say (Err_worker_job_failed (job_id j) (worker_error_message e)) w)))"
  using assms by (simp add: worker_catch_def Let_def)

lemma worker_retry_row:
  assumes "attempts j + 1 < MAX_ATTEMPTS" and "in_date_range (clock env + 5000)"
    and "finish_ok env" and "lookup_job (job_id j) w = Some r"
  shows "lookup_job (job_id j) (snd (worker_catch env j e w))
         = Some (r\<lparr>status := Pending, attempts := attempts j + 1,
                   last_error := Some (worker_error_message e),
                   scheduled_for := clock env + 5000\<rparr>)"
proof -
  have "lookup_job (job_id j) (say (Err_worker_job_failed (job_id j) (worker_error_message e)) w) = Some r"
    using assms(4) by (simp add: lookup_job_def)
  from lookup_set_job [OF this, of "\<lambda>r. r\<lparr>status := Pending, attempts := attempts j + 1,
                 last_error := Some (worker_error_message e),
                 scheduled_for := clock env + 5000\<rparr>"]
  show ?thesis
    unfolding worker_catch_retry [OF assms(1,2)] using assms(3)
    by (simp add: lookup_job_def)
qed

lemma worker_blocked:
  assumes "map_read_ok env" and "mappings w (wa_id j) = Some m" and "blocked m"
  shows "worker_processJob env j w =
    (Returned,
     logEvent (log_ok env) ''job_skipped_blocked'' (wa_id j) (job_id j) (P_blocked True) None
       (set_job (finish_ok env) (job_id j)
          (\<lambda>r. r\<lparr>status := Skipped, last_error := Some ''User is blocked''\<rparr>)
          (say (Log_worker_blocked (wa_id j) (job_id j))
             (say (Log_worker_processing (job_id j) (wa_id j)) w))))"
  using assms by (simp add: worker_processJob_def getMapping_def is_blocked_def Let_def)

text \<open>The block short-circuit of the worker.\<close>

lemma worker_block_short_circuit:
  assumes "map_read_ok env" and "mappings w (wa_id j) = Some m" and "blocked m"
    and "finish_ok env" and "log_ok env" and "lookup_job (job_id j) w = Some j"
  shows "fst (worker_processJob env j w) = Returned"
    and "lookup_job (job_id j) (snd (worker_processJob env j w))
         = Some (j\<lparr>status := Skipped, last_error := Some ''User is blocked''\<rparr>)"
    and "calls (snd (worker_processJob env j w)) = calls w"
    and "last (event_logs (snd (worker_processJob env j w)))
         = \<lparr>event_type = ''job_skipped_blocked'', ev_wa_id = wa_id j, ev_job_id = job_id j,
            ev_payload = P_blocked True, ev_error = None\<rparr>"
proof -
  note b = worker_blocked [OF assms(1,2,3)]
  show "fst (worker_processJob env j w) = Returned" by (simp add: b)
  show "calls (snd (worker_processJob env j w)) = calls w" by (simp add: b)
  show "last (event_logs (snd (worker_processJob env j w)))
         = \<lparr>event_type = ''job_skipped_blocked'', ev_wa_id = wa_id j, ev_job_id = job_id j,
            ev_payload = P_blocked True, ev_error = None\<rparr>"
    using assms(5) by (simp add: b)
  have "lookup_job (job_id j) (say (Log_worker_blocked (wa_id j) (job_id j))
             (say (Log_worker_processing (job_id j) (wa_id j)) w)) = Some j"
    using assms(6) by (simp add: lookup_job_def)
  from lookup_set_job [OF this, of "\<lambda>r. r\<lparr>status := Skipped, last_error := Some ''User is blocked''\<rparr>"]
  show "lookup_job (job_id j) (snd (worker_processJob env j w))
         = Some (j\<lparr>status := Skipped, last_error := Some ''User is blocked''\<rparr>)"
    using assms(4) by (simp add: b lookup_job_def)
qed

lemma worker_try_no_content:
  "\<not> truthy (content j) \<Longrightarrow> worker_try env j m w = (Some (Error ''No message content in job''), w)"
  by (simp add: worker_try_def)

lemma getMapping_say [simp]: "getMapping ok u (say l w) = getMapping ok u w"
  by (simp add: getMapping_def)

lemma worker_no_content:
  assumes "\<not> truthy (content j)"
    and "\<not> is_blocked (getMapping (map_read_ok env) (wa_id j) w)"
  shows "worker_processJob env j w
         = worker_catch env j (Error ''No message content in job'')
             (mark_processing (mark_ok env) j (say (Log_worker_processing (job_id j) (wa_id j)) w))"
  using assms by (simp add: worker_processJob_def Let_def worker_try_no_content)

lemma worker_fail_row:
  assumes fin: "finish_ok env"
    and rng: "attempts j + 1 < MAX_ATTEMPTS \<Longrightarrow> in_date_range (clock env + 5000)"
    and r: "lookup_job (job_id j) w = Some r" "r = j \<or> r = j\<lparr>status := Processing\<rparr>"
  shows "fst (worker_catch env j e w) = Returned
       \<and> lookup_job (job_id j) (snd (worker_catch env j e w))
           = Some (worker_after_failure (clock env) (worker_error_message e) j)
       \<and> calls (snd (worker_catch env j e w)) = calls w"
proof -
  have l: "lookup_job (job_id j) (say (Err_worker_job_failed (job_id j) (worker_error_message e)) w) = Some r"
    using r(1) by (simp add: lookup_job_def)
  show ?thesis
  proof (cases "MAX_ATTEMPTS \<le> attempts j + 1")
    case True
    note c = worker_catch_final [OF True, of env e w]
    from lookup_set_job [OF l, of "\<lambda>r. r\<lparr>status := Failed, attempts := attempts j + 1,
                 last_error := Some (worker_error_message e)\<rparr>"]
    have "lookup_job (job_id j) (snd (worker_catch env j e w))
         = Some (worker_after_failure (clock env) (worker_error_message e) j)"
      using fin r(2) True by (auto simp: c lookup_job_def worker_after_failure_def)
    then show ?thesis by (simp add: c)
  next
    case False
    then have lt: "attempts j + 1 < MAX_ATTEMPTS" by simp
    note c = worker_catch_retry [OF lt rng [OF lt], of e w]
    from lookup_set_job [OF l, of "\<lambda>r. r\<lparr>status := Pending, attempts := attempts j + 1,
                 last_error := Some (worker_error_message e),
                 scheduled_for := clock env + 5000\<rparr>"]
    have "lookup_job (job_id j) (snd (worker_catch env j e w))
         = Some (worker_after_failure (clock env) (worker_error_message e) j)"
      using fin r(2) False by (auto simp: c lookup_job_def worker_after_failure_def)
    then show ?thesis by (simp add: c)
  qed
qed

lemma lib_no_content:
  assumes nc: "\<not> truthy (content j)"
    and rng: "attempts j + 1 < MAX_ATTEMPTS \<Longrightarrow>
              in_date_range (clock env + 2 ^ (attempts j + 1) * 5 * 1000)"
  shows "fst (processJob env j w) = Threw (Error ''No message content found in job'')"
    and "calls (snd (processJob env j w)) = calls w"
proof -
  note t = try_no_content [OF nc, of env "mark_processing (mark_ok env) j w"]
  show "fst (processJob env j w) = Threw (Error ''No message content found in job'')"
    by (rule processJob_threw [OF _ rng]) (simp add: t)
  show "calls (snd (processJob env j w)) = calls w"
  proof (cases "MAX_ATTEMPTS \<le> attempts j + 1")
    case True
    then show ?thesis by (simp add: processJob_unfold t catch_final)
  next
    case False
    then have lt: "attempts j + 1 < MAX_ATTEMPTS" by simp
    show ?thesis by (simp add: processJob_unfold t catch_retry [OF lt rng [OF lt]])
  qed
qed

lemma world_blank_eq:
  "world_blank = world0\<lparr>jobs := [new_job 0 ''+33600000001'' 3000 []], next_job_id := Suc 0,
                   console := [Log_created 0 3000]\<rparr>"
proof -
  have "pending_for ''+33600000001'' (jobs world0) = []" by (simp add: world0_def pending_for_def)
  from sched_insert [OF _ _ debounceMs_world0 _ this, of all_ok 0 "[]"]
  show ?thesis by (simp add: world_blank_def all_ok_def in_date_range_def world0_def)
qed

lemma world_blank_wf: "wf_world world_blank"
  by (simp add: world_blank_eq wf_world_def new_job_def world0_def)

lemma world_blank_member: "new_job 0 ''+33600000001'' 3000 [] \<in> set (jobs world_blank)"
  by (simp add: world_blank_eq world0_def)

lemma blank_lib_row:
  "lookup_job 0 (snd (processJob (ai_down 4000) (new_job 0 ''+33600000001'' 3000 []) world_blank))
     = Some \<lparr>job_id = 0, wa_id = ''+33600000001'', status = Pending, scheduled_for = 14000,
             attempts = 1, last_error = Some ''No message content found in job'',
             content = Some []\<rparr>"
proof -
  define j where "j = new_job 0 ''+33600000001'' 3000 []"
  have nc: "\<not> truthy (content j)" by (simp add: j_def new_job_def truthy_def)
  have rng: "in_date_range (clock (ai_down 4000) + 2 ^ (attempts j + 1) * 5 * 1000)"
    by (simp add: ai_down_def j_def new_job_def in_date_range_def)
  have "fst (processJob (ai_down 4000) j world_blank) = Threw (Error ''No message content found in job'')"
    by (rule lib_no_content(1) [OF nc rng])
  then have run: "processJob (ai_down 4000) j world_blank
       = (Threw (Error ''No message content found in job''), snd (processJob (ai_down 4000) j world_blank))"
    by (simp add: prod_eq_iff)
  have fin: "finish_ok (ai_down 4000)" by (simp add: ai_down_def)
  from fail_step(1) [OF run fin world_blank_wf world_blank_member [folded j_def] rng]
  show ?thesis
    by (simp add: j_def [symmetric])
       (simp add: j_def new_job_def after_failure_def MAX_ATTEMPTS_def error_message_def ai_down_def)
qed

section \<open>Empty content\<close>

text \<open>
  Claim C9, as amended. A job whose content is null or the empty string fails like any
  other: the library's \<^verbatim>\<open>processJob\<close> throws the error
  \<open>No message content found in job\<close> and the worker's catches the error
  \<open>No message content in job\<close> (for a user who is not blocked); no adapter is called;
  and with the update of the row succeeding and the retry time a representable date, the
  row gets \<open>attempts + 1\<close>, that message as \<open>last_error\<close>, and status
  \<open>Pending\<close> with a retry time (the library's exponential delay, the worker's 5000
  ms) while \<open>attempts + 1 < MAX_ATTEMPTS\<close>, status \<open>Failed\<close> otherwise.
\<close>

theorem empty_content_is_retried:
  assumes "\<not> truthy (content j)" and "wf_world w" and "j \<in> set (jobs w)"
    and "finish_ok env"
    and "attempts j + 1 < MAX_ATTEMPTS \<Longrightarrow> in_date_range (clock env + 2 ^ (attempts j + 1) * 5 * 1000)"
    and "\<not> is_blocked (getMapping (map_read_ok wenv) (wa_id j) w)"
    and "finish_ok wenv"
    and "attempts j + 1 < MAX_ATTEMPTS \<Longrightarrow> in_date_range (clock wenv + 5000)"
  shows "fst (processJob env j w) = Threw (Error ''No message content found in job'')
       \<and> lookup_job (job_id j) (snd (processJob env j w))
           = Some (after_failure (clock env) ''No message content found in job'' j)
       \<and> calls (snd (processJob env j w)) = calls w
       \<and> fst (worker_processJob wenv j w) = Returned
       \<and> lookup_job (job_id j) (snd (worker_processJob wenv j w))
           = Some (worker_after_failure (clock wenv) ''No message content in job'' j)
       \<and> calls (snd (worker_processJob wenv j w)) = calls w"
proof -
  note lib = lib_no_content [OF assms(1,5), of w]
  have run: "processJob env j w = (Threw (Error ''No message content found in job''), snd (processJob env j w))"
    using lib(1) by (simp add: prod_eq_iff)
  have row: "lookup_job (job_id j) (snd (processJob env j w))
           = Some (after_failure (clock env) ''No message content found in job'' j)"
    using fail_step(1) [OF run assms(4,2,3,5)] by (simp add: error_message_def)
  define w1 where "w1 = mark_processing (mark_ok wenv) j (say (Log_worker_processing (job_id j) (wa_id j)) w)"
  have wk: "worker_processJob wenv j w = worker_catch wenv j (Error ''No message content in job'') w1"
    unfolding w1_def by (rule worker_no_content [OF assms(1,6)])
  have "wf_world (say (Log_worker_processing (job_id j) (wa_id j)) w)"
    by (rule wf_world_cong [OF _ _ assms(2)]) simp_all
  from lookup_marked [OF this, of j "mark_ok wenv"] assms(3)
  obtain r where r: "lookup_job (job_id j) w1 = Some r" "r = j \<or> r = j\<lparr>status := Processing\<rparr>"
    unfolding w1_def by auto
  note wr = worker_fail_row [OF assms(7,8) r, of "Error ''No message content in job''"]
  have c1: "calls w1 = calls w" by (simp add: w1_def)
  show ?thesis
    using lib row wr c1 by (simp add: wk worker_error_message_def)
qed


text \<open>A job enqueued from a text message without body, first attempt at time 4000.\<close>

theorem empty_content_is_retried_witness:
  "fst (processJob (ai_down 4000) (new_job 0 ''+33600000001'' 3000 []) world_blank)
     = Threw (Error ''No message content found in job'')
   \<and> lookup_job 0 (snd (processJob (ai_down 4000) (new_job 0 ''+33600000001'' 3000 []) world_blank))
     = Some \<lparr>job_id = 0, wa_id = ''+33600000001'', status = Pending, scheduled_for = 14000,
             attempts = 1, last_error = Some ''No message content found in job'',
             content = Some []\<rparr>
   \<and> calls (snd (processJob (ai_down 4000) (new_job 0 ''+33600000001'' 3000 []) world_blank)) = []
   \<and> lookup_job 0 (snd (worker_processJob (worker_ai_down 4000) (new_job 0 ''+33600000001'' 3000 []) world_blank))
     = Some \<lparr>job_id = 0, wa_id = ''+33600000001'', status = Pending, scheduled_for = 9000,
             attempts = 1, last_error = Some ''No message content in job'',
             content = Some []\<rparr>
   \<and> calls (snd (worker_processJob (worker_ai_down 4000) (new_job 0 ''+33600000001'' 3000 []) world_blank)) = []"
proof -
  define j where "j = new_job 0 ''+33600000001'' 3000 []"
  have nc: "\<not> truthy (content j)" by (simp add: j_def new_job_def truthy_def)
  have a: "attempts j = 0" "job_id j = 0" by (simp_all add: j_def new_job_def)
  have rng: "in_date_range (clock (ai_down 4000) + 2 ^ (attempts j + 1) * 5 * 1000)"
    "in_date_range (clock (worker_ai_down 4000) + 5000)"
    by (simp_all add: ai_down_def worker_ai_down_def a in_date_range_def)
  have fin: "finish_ok (ai_down 4000)" "finish_ok (worker_ai_down 4000)"
    by (simp_all add: ai_down_def worker_ai_down_def)
  have nb: "\<not> is_blocked (getMapping (map_read_ok (worker_ai_down 4000)) (wa_id j) world_blank)"
    by (simp add: is_blocked_def getMapping_def world_blank_eq world0_def)
  have c0: "calls world_blank = []" by (simp add: world_blank_eq world0_def)
  from empty_content_is_retried [OF nc world_blank_wf world_blank_member [folded j_def] fin(1) rng(1) nb fin(2) rng(2)]
  show ?thesis
    by (simp add: j_def [symmetric] a c0)
       (simp add: j_def new_job_def after_failure_def worker_after_failure_def MAX_ATTEMPTS_def
          ai_down_def worker_ai_down_def)
qed


text \<open>
  Claim C9 as stated names the recorded error \<open>No message content\<close>; the library
  records a longer message.
\<close>

theorem empty_content_counterexample:
  "lookup_job 0 (snd (processJob (ai_down 4000) (new_job 0 ''+33600000001'' 3000 []) world_blank))
     = Some \<lparr>job_id = 0, wa_id = ''+33600000001'', status = Pending, scheduled_for = 14000,
             attempts = 1, last_error = Some ''No message content found in job'',
             content = Some []\<rparr>
   \<and> ''No message content found in job'' \<noteq> ''No message content''"
  using blank_lib_row by simp

lemma worker_try_ai_throws:
  assumes "truthy (content j)" and "contact env = Inr c" and "ai env = Inl e"
  shows "fst (worker_try env j m w) = Some e" and "jobs (snd (worker_try env j m w)) = jobs w"
  using assms by (simp_all add: worker_try_def Let_def)

lemma worker_ai_throws:
  assumes "truthy (content j)" and "contact env = Inr c" and "ai env = Inl e"
    and "\<not> is_blocked (getMapping (map_read_ok env) (wa_id j) w)"
  shows "worker_processJob env j w
         = worker_catch env j e
             (snd (worker_try env j (getMapping (map_read_ok env) (wa_id j) w)
                (mark_processing (mark_ok env) j (say (Log_worker_processing (job_id j) (wa_id j)) w))))"
  using assms worker_try_ai_throws(1) [OF assms(1,2,3)]
  by (simp add: worker_processJob_def Let_def case_prod_unfold)

lemma world1_member: "new_job 0 ''+33600000001'' 3000 ''Hello'' \<in> set (jobs world1)"
  by (simp add: world1_eq world0_def)

lemma world1_worker_row:
  "lookup_job 0 (snd (worker_processJob (worker_ai_down 4000)
       (new_job 0 ''+33600000001'' 3000 ''Hello'') world1))
     = Some \<lparr>job_id = 0, wa_id = ''+33600000001'', status = Pending, scheduled_for = 9000,
             attempts = 1, last_error = Some ''Chatbase API error: 500'',
             content = Some ''Hello''\<rparr>"
proof -
  define j where "j = new_job 0 ''+33600000001'' 3000 ''Hello''"
  define env where "env = worker_ai_down 4000"
  define e where "e = Error ''Chatbase API error: 500''"
  have t: "truthy (content j)" and a: "attempts j = 0" "job_id j = 0"
    by (simp_all add: j_def new_job_def truthy_def)
  have c: "contact env = Inr None" "ai env = Inl e" "finish_ok env" "clock env = 4000"
    by (simp_all add: env_def worker_ai_down_def e_def)
  have nb: "\<not> is_blocked (getMapping (map_read_ok env) (wa_id j) world1)"
    by (simp add: is_blocked_def getMapping_def world1_eq world0_def)
  define w1 where "w1 = mark_processing (mark_ok env) j (say (Log_worker_processing (job_id j) (wa_id j)) world1)"
  define w2 where "w2 = snd (worker_try env j (getMapping (map_read_ok env) (wa_id j) world1) w1)"
  have run: "worker_processJob env j world1 = worker_catch env j e w2"
    unfolding w2_def w1_def by (rule worker_ai_throws [OF t c(1,2) nb])
  have "wf_world (say (Log_worker_processing (job_id j) (wa_id j)) world1)"
    by (rule wf_world_cong [OF _ _ world1_wf]) simp_all
  from lookup_marked [OF this, of j "mark_ok env"] world1_member
  obtain r where r: "lookup_job (job_id j) w1 = Some r" "r = j \<or> r = j\<lparr>status := Processing\<rparr>"
    unfolding w1_def j_def by auto
  have "jobs w2 = jobs w1" unfolding w2_def by (rule worker_try_ai_throws(2) [OF t c(1,2)])
  then have r2: "lookup_job (job_id j) w2 = Some r" using r(1) by (simp add: lookup_job_def)
  have rng: "in_date_range (clock env + 5000)" by (simp add: c in_date_range_def)
  from worker_fail_row [OF c(3) rng r2 r(2), of e]
  show ?thesis
    unfolding j_def [symmetric] env_def [symmetric] run
    by (simp add: a c) (simp add: worker_after_failure_def a MAX_ATTEMPTS_def e_def
         worker_error_message_def j_def new_job_def)
qed

lemma nonfinal_attempt:
  assumes wf: "wf_world w" and l: "lookup_job i w = Some j" and nf: "attempts j + 1 < MAX_ATTEMPTS"
    and f: "failure_of env i w = Some x" and fin: "finish_ok env"
    and rng: "in_date_range (clock env + 2 ^ (attempts j + 1) * 5 * 1000)"
  shows "wf_world (attempt env i w)"
    and "lookup_job i (attempt env i w)
         = Some (j\<lparr>status := Pending, scheduled_for := clock env + 2 ^ (attempts j + 1) * 5 * 1000,
                   attempts := attempts j + 1, last_error := Some (error_message x)\<rparr>)"
  using failed_attempt(1,2) [OF wf l f fin rng] nf by (simp_all add: after_failure_def)

section \<open>Retry delay\<close>

text \<open>
  Claim C6, as amended. In the library's \<^verbatim>\<open>processJob\<close>, after a failed attempt
  that is not the last (the update of the row succeeding, the retry time a representable
  date) the job is pending again with \<open>attempts\<close> incremented and
  \<open>scheduled_for - now = 2 ^ attempts * 5\<close> seconds, \<open>attempts\<close> being the
  incremented count; and when the next attempt fails too and is not the last, its delay
  obeys the same formula and is strictly greater. In the worker's \<^verbatim>\<open>catch\<close>
  block the job is pending again with \<open>scheduled_for - now = 5\<close> seconds, whatever
  the count.
\<close>

theorem retry_delay:
  assumes wf: "wf_world w" and l: "lookup_job i w = Some j" and nf: "attempts j + 1 < MAX_ATTEMPTS"
    and f1: "failure_of e1 i w = Some x1" and ok1: "finish_ok e1"
    and r1: "in_date_range (clock e1 + 2 ^ (attempts j + 1) * 5 * 1000)"
    and wk: "finish_ok wenv" "in_date_range (clock wenv + 5000)"
  shows "(\<exists>r1. lookup_job i (attempt e1 i w) = Some r1 \<and> status r1 = Pending
              \<and> attempts r1 = attempts j + 1
              \<and> scheduled_for r1 - clock e1 = 2 ^ attempts r1 * 5 * 1000
              \<and> (\<forall>e2 x2. attempts r1 + 1 < MAX_ATTEMPTS
                     \<and> failure_of e2 i (attempt e1 i w) = Some x2 \<and> finish_ok e2
                     \<and> in_date_range (clock e2 + 2 ^ (attempts r1 + 1) * 5 * 1000)
                   \<longrightarrow> (\<exists>r2. lookup_job i (attempt e2 i (attempt e1 i w)) = Some r2
                          \<and> status r2 = Pending
                          \<and> scheduled_for r2 - clock e2 = 2 ^ attempts r2 * 5 * 1000
                          \<and> scheduled_for r1 - clock e1 < scheduled_for r2 - clock e2)))
       \<and> (\<exists>r. lookup_job i (snd (worker_catch wenv j x w)) = Some r \<and> status r = Pending
              \<and> attempts r = attempts j + 1 \<and> scheduled_for r - clock wenv = 5000)"
proof -
  define r1 where "r1 = j\<lparr>status := Pending, scheduled_for := clock e1 + 2 ^ (attempts j + 1) * 5 * 1000,
                   attempts := attempts j + 1, last_error := Some (error_message x1)\<rparr>"
  note s1 = nonfinal_attempt [OF wf l nf f1 ok1 r1, folded r1_def]
  have p1: "status r1 = Pending" "attempts r1 = attempts j + 1"
    "scheduled_for r1 - clock e1 = 2 ^ attempts r1 * 5 * 1000"
    by (simp_all add: r1_def)
  have next_one: "\<exists>r2. lookup_job i (attempt e2 i (attempt e1 i w)) = Some r2
                          \<and> status r2 = Pending
                          \<and> scheduled_for r2 - clock e2 = 2 ^ attempts r2 * 5 * 1000
                          \<and> scheduled_for r1 - clock e1 < scheduled_for r2 - clock e2"
    if h: "attempts r1 + 1 < MAX_ATTEMPTS" "failure_of e2 i (attempt e1 i w) = Some x2" "finish_ok e2"
      "in_date_range (clock e2 + 2 ^ (attempts r1 + 1) * 5 * 1000)" for e2 x2
  proof -
    define r2 where "r2 = r1\<lparr>status := Pending, scheduled_for := clock e2 + 2 ^ (attempts r1 + 1) * 5 * 1000,
                   attempts := attempts r1 + 1, last_error := Some (error_message x2)\<rparr>"
    note s2 = nonfinal_attempt [OF s1 h, folded r2_def]
    have "status r2 = Pending" "scheduled_for r2 - clock e2 = 2 ^ attempts r2 * 5 * 1000"
      "scheduled_for r1 - clock e1 < scheduled_for r2 - clock e2"
      by (simp_all add: r2_def p1)
    with s2(2) show ?thesis by blast
  qed
  have i: "job_id j = i" using lookup_job_Some [OF l] by simp
  have wr: "lookup_job i (snd (worker_catch wenv j x w))
           = Some (worker_after_failure (clock wenv) (worker_error_message x) j)"
    using worker_fail_row [OF wk(1) wk(2), of j w j x] l i by simp
  have "\<exists>r. lookup_job i (snd (worker_catch wenv j x w)) = Some r \<and> status r = Pending
              \<and> attempts r = attempts j + 1 \<and> scheduled_for r - clock wenv = 5000"
    using nf by (simp add: wr worker_after_failure_def)
  moreover have "\<exists>r1. lookup_job i (attempt e1 i w) = Some r1 \<and> status r1 = Pending
              \<and> attempts r1 = attempts j + 1
              \<and> scheduled_for r1 - clock e1 = 2 ^ attempts r1 * 5 * 1000
              \<and> (\<forall>e2 x2. attempts r1 + 1 < MAX_ATTEMPTS
                     \<and> failure_of e2 i (attempt e1 i w) = Some x2 \<and> finish_ok e2
                     \<and> in_date_range (clock e2 + 2 ^ (attempts r1 + 1) * 5 * 1000)
                   \<longrightarrow> (\<exists>r2. lookup_job i (attempt e2 i (attempt e1 i w)) = Some r2
                          \<and> status r2 = Pending
                          \<and> scheduled_for r2 - clock e2 = 2 ^ attempts r2 * 5 * 1000
                          \<and> scheduled_for r1 - clock e1 < scheduled_for r2 - clock e2))"
    using s1(2) p1 next_one by (intro exI [of _ r1]) blast
  ultimately show ?thesis by blast
qed

text \<open>The AI backend is down: the library retries after 10 s and 20 s, the worker after 5 s.\<close>

theorem retry_delay_witness:
  "(\<exists>r1. lookup_job 0 (attempt (ai_down 3000) 0 world1) = Some r1 \<and> status r1 = Pending
       \<and> attempts r1 = 1 \<and> scheduled_for r1 - 3000 = 10000
       \<and> (\<exists>r2. lookup_job 0 (attempt (ai_down 13000) 0 (attempt (ai_down 3000) 0 world1)) = Some r2
              \<and> status r2 = Pending \<and> scheduled_for r2 - 13000 = 20000))
   \<and> (\<exists>r. lookup_job 0 (snd (worker_catch (worker_ai_down 4000)
               (new_job 0 ''+33600000001'' 3000 ''Hello'') (Error ''Chatbase API error: 500'') world1)) = Some r
          \<and> status r = Pending \<and> attempts r = 1 \<and> scheduled_for r - 4000 = 5000)"
proof -
  define j0 where "j0 = new_job 0 ''+33600000001'' 3000 ''Hello''"
  define x where "x = Error ''Chatbase API error: 500''"
  have l0: "lookup_job 0 world1 = Some j0" by (simp add: world1_lookup j0_def)
  have a0: "attempts j0 = 0" and t0: "truthy (content j0)"
    by (simp_all add: j0_def new_job_def truthy_def)
  have nf: "attempts j0 + 1 < MAX_ATTEMPTS" by (simp add: a0 MAX_ATTEMPTS_def)
  have f1: "failure_of (ai_down 3000) 0 world1 = Some x"
    unfolding x_def by (rule ai_down_fails [OF l0 t0]) (simp add: a0 in_date_range_def)
  have k: "finish_ok (ai_down 3000)" "in_date_range (clock (ai_down 3000) + 2 ^ (attempts j0 + 1) * 5 * 1000)"
    "finish_ok (worker_ai_down 4000)" "in_date_range (clock (worker_ai_down 4000) + 5000)"
    by (simp_all add: ai_down_def worker_ai_down_def a0 in_date_range_def)
  from retry_delay [OF world1_wf l0 nf f1 k, of x]
  obtain r1 r where
    r1: "lookup_job 0 (attempt (ai_down 3000) 0 world1) = Some r1" "status r1 = Pending"
        "attempts r1 = attempts j0 + 1"
        "scheduled_for r1 - clock (ai_down 3000) = 2 ^ attempts r1 * 5 * 1000"
        "\<forall>e2 x2. attempts r1 + 1 < MAX_ATTEMPTS
                     \<and> failure_of e2 0 (attempt (ai_down 3000) 0 world1) = Some x2 \<and> finish_ok e2
                     \<and> in_date_range (clock e2 + 2 ^ (attempts r1 + 1) * 5 * 1000)
                   \<longrightarrow> (\<exists>r2. lookup_job 0 (attempt e2 0 (attempt (ai_down 3000) 0 world1)) = Some r2
                          \<and> status r2 = Pending
                          \<and> scheduled_for r2 - clock e2 = 2 ^ attempts r2 * 5 * 1000
                          \<and> scheduled_for r1 - clock (ai_down 3000) < scheduled_for r2 - clock e2)"
    and r: "lookup_job 0 (snd (worker_catch (worker_ai_down 4000) j0 x world1)) = Some r"
        "status r = Pending" "attempts r = attempts j0 + 1" "scheduled_for r - clock (worker_ai_down 4000) = 5000"
    by blast
  have a1: "attempts r1 = 1" using r1(3) a0 by simp
  have s1: "wf_world (attempt (ai_down 3000) 0 world1)"
    "lookup_job 0 (attempt (ai_down 3000) 0 world1)
       = Some (j0\<lparr>status := Pending, scheduled_for := clock (ai_down 3000) + 2 ^ (attempts j0 + 1) * 5 * 1000,
                   attempts := attempts j0 + 1, last_error := Some (error_message x)\<rparr>)"
    by (rule nonfinal_attempt [OF world1_wf l0 nf f1 k(1,2)])+
  have t1: "truthy (content r1)" using s1(2) r1(1) t0 by auto
  have f2: "failure_of (ai_down 13000) 0 (attempt (ai_down 3000) 0 world1) = Some x"
    unfolding x_def by (rule ai_down_fails [OF r1(1) t1]) (simp add: a1 in_date_range_def)
  have "attempts r1 + 1 < MAX_ATTEMPTS
                     \<and> failure_of (ai_down 13000) 0 (attempt (ai_down 3000) 0 world1) = Some x
                     \<and> finish_ok (ai_down 13000)
                     \<and> in_date_range (clock (ai_down 13000) + 2 ^ (attempts r1 + 1) * 5 * 1000)"
  proof -
    have "finish_ok (ai_down 13000)"
      "in_date_range (clock (ai_down 13000) + 2 ^ (attempts r1 + 1) * 5 * 1000)"
      "attempts r1 + 1 < MAX_ATTEMPTS"
      by (simp_all add: a1 MAX_ATTEMPTS_def ai_down_def in_date_range_def)
    with f2 show ?thesis by blast
  qed
  with r1(5) obtain r2 where
    r2: "lookup_job 0 (attempt (ai_down 13000) 0 (attempt (ai_down 3000) 0 world1)) = Some r2"
        "status r2 = Pending"
        "scheduled_for r2 - clock (ai_down 13000) = 2 ^ attempts r2 * 5 * 1000"
        "scheduled_for r1 - clock (ai_down 3000) < scheduled_for r2 - clock (ai_down 13000)"
    by blast
  have s2: "lookup_job 0 (attempt (ai_down 13000) 0 (attempt (ai_down 3000) 0 world1))
       = Some (r1\<lparr>status := Pending, scheduled_for := clock (ai_down 13000) + 2 ^ (attempts r1 + 1) * 5 * 1000,
                   attempts := attempts r1 + 1, last_error := Some (error_message x)\<rparr>)"
    by (rule nonfinal_attempt(2) [OF s1(1) r1(1) _ f2])
       (simp_all add: a1 MAX_ATTEMPTS_def ai_down_def in_date_range_def)
  have d2: "scheduled_for r2 - 13000 = 20000"
    using r2(1) s2 by (auto simp: a1 ai_down_def)
  have d1: "scheduled_for r1 - 3000 = 10000"
    using r1(4) by (simp add: a1 ai_down_def)
  have d: "scheduled_for r - 4000 = 5000" "attempts r = 1"
    using r(3,4) by (simp_all add: a0 worker_ai_down_def)
  show ?thesis
    using r1(1,2) a1 d1 r2(1,2) d2 r(1,2) d unfolding j0_def x_def by blast
qed


text \<open>
  Claim C6 as stated fails in the worker: after the first failure, at time 4000, the
  retry is scheduled for 9000, a delay of 5 s where the formula gives 10 s.
\<close>

theorem retry_delay_counterexample:
  "lookup_job 0 (snd (worker_processJob (worker_ai_down 4000)
       (new_job 0 ''+33600000001'' 3000 ''Hello'') world1))
     = Some \<lparr>job_id = 0, wa_id = ''+33600000001'', status = Pending, scheduled_for = 9000,
             attempts = 1, last_error = Some ''Chatbase API error: 500'',
             content = Some ''Hello''\<rparr>
   \<and> (9000 :: int) - 4000 \<noteq> 2 ^ 1 * 5 * 1000"
  using world1_worker_row by simp

section \<open>Block short-circuit\<close>

lemma world_blocked_eq:
  "world_blocked =
     \<lparr>jobs = [new_job 0 ''+33600000001'' 3000 ''Hello''], next_job_id = Suc 0,
      mappings = [''+33600000001'' \<mapsto> empty_mapping\<lparr>blocked := True\<rparr>],
      config = [''whatsapp_phone_number_id'' \<mapsto> ''1055'',
                ''whatsapp_access_token'' \<mapsto> ''secret''],
      event_logs = [], console = [Log_created 0 3000], calls = []\<rparr>"
  by (simp add: world_blocked_def world1_eq world0_def)

lemma blocked_send:
  "config w = [''whatsapp_phone_number_id'' \<mapsto> ''1055'', ''whatsapp_access_token'' \<mapsto> ''secret'']
   \<Longrightarrow> sendWhatsAppMessage (reply_options w u reply) (http (all_up t)) w
       = (Inr \<lparr>success = True, messageId = Some ''wamid.1'', error = None\<rparr>,
          call (WA_post ''1055'' (Text_body u reply)) w)"
  by (simp add: sendWhatsAppMessage_def reply_options_def send_mode_def getConfig_def or_else_def
      truthy_def all_up_def send_exchange_def call_def Let_def)

text \<open>
  Claim C1 at a concrete input: a pending job of a blocked user, every collaborator
  answering. The library's \<^verbatim>\<open>processJob\<close> has no block check: it queries the AI
  adapter, sends the reply and completes the job. The worker's \<^verbatim>\<open>processJob\<close>
  on the same input calls no adapter and marks the job \<open>Skipped\<close> with
  \<open>User is blocked\<close>, leaving \<open>attempts\<close> alone (in general:
  \<open>worker_block_short_circuit\<close>).
\<close>

theorem blocked_user_eval:
  "fst (processJob (all_up 4000) (new_job 0 ''+33600000001'' 3000 ''Hello'') world_blocked) = Returned
   \<and> calls (snd (processJob (all_up 4000) (new_job 0 ''+33600000001'' 3000 ''Hello'') world_blocked))
       = [AI_query ''Hello'' None ''+33600000001'',
          WA_post ''1055'' (Text_body ''+33600000001'' ''Hi there'')]
   \<and> jobs (snd (processJob (all_up 4000) (new_job 0 ''+33600000001'' 3000 ''Hello'') world_blocked))
       = [\<lparr>job_id = 0, wa_id = ''+33600000001'', status = Completed, scheduled_for = 3000,
           attempts = 0, last_error = None, content = Some ''Hello''\<rparr>]
   \<and> fst (worker_processJob (worker_all_up 4000) (new_job 0 ''+33600000001'' 3000 ''Hello'') world_blocked)
       = Returned
   \<and> calls (snd (worker_processJob (worker_all_up 4000) (new_job 0 ''+33600000001'' 3000 ''Hello'') world_blocked))
       = []
   \<and> jobs (snd (worker_processJob (worker_all_up 4000) (new_job 0 ''+33600000001'' 3000 ''Hello'') world_blocked))
       = [\<lparr>job_id = 0, wa_id = ''+33600000001'', status = Skipped, scheduled_for = 3000,
           attempts = 0, last_error = Some ''User is blocked'', content = Some ''Hello''\<rparr>]"
proof -
  define j where "j = new_job 0 ''+33600000001'' 3000 ''Hello''"
  define w1 where "w1 = mark_processing True j world_blocked"
  have jf: "wa_id j = ''+33600000001''" "job_id j = 0" "content j = Some ''Hello''"
    by (simp_all add: j_def new_job_def)
  have w1: "w1 = world_blocked\<lparr>jobs := [j\<lparr>status := Processing\<rparr>]\<rparr>"
    by (simp add: w1_def mark_processing_def set_job_def update_job_def world_blocked_eq j_def new_job_def)
  define w3 where "w3 = call (AI_query ''Hello'' None ''+33600000001'') w1"
  define w4 where "w4 = updateMapping True ''+33600000001''
       (\<lambda>m. m\<lparr>chatbase_conversation_id := Some ''conv-1''\<rparr>) w3"
  have t: "processJob_try (all_up 4000) j w1 = send_reply (all_up 4000) j ''Hi there'' ''conv-1'' w4"
    by (simp add: processJob_try_def Let_def jf truthy_def or_else_def getOrCreateMapping_def
        w1 world_blocked_eq all_up_def empty_mapping_def w3_def w4_def)
  have c4: "config w4 = [''whatsapp_phone_number_id'' \<mapsto> ''1055'', ''whatsapp_access_token'' \<mapsto> ''secret'']"
    by (simp add: w4_def w3_def w1 world_blocked_eq)
  have s: "send_reply (all_up 4000) j ''Hi there'' ''conv-1'' w4
       = (None, say (Log_completed 0)
            (set_job True 0 (\<lambda>r. r\<lparr>status := Completed\<rparr>)
               (insert_event True
                  \<lparr>event_type = ''chatbase_response_sent'', ev_wa_id = ''+33600000001'', ev_job_id = 0,
                   ev_payload = P_response_sent 8 ''text'' ''conv-1'', ev_error = None\<rparr>
                  (call (WA_post ''1055'' (Text_body ''+33600000001'' ''Hi there'')) w4))))"
    unfolding send_reply_def jf blocked_send [OF c4]
    by (simp add: all_up_def Let_def send_mode_def getConfig_def c4 or_else_def)
  have lib: "processJob (all_up 4000) j world_blocked
       = (Returned, say (Log_completed 0)
            (set_job True 0 (\<lambda>r. r\<lparr>status := Completed\<rparr>)
               (insert_event True
                  \<lparr>event_type = ''chatbase_response_sent'', ev_wa_id = ''+33600000001'', ev_job_id = 0,
                   ev_payload = P_response_sent 8 ''text'' ''conv-1'', ev_error = None\<rparr>
                  (call (WA_post ''1055'' (Text_body ''+33600000001'' ''Hi there'')) w4))))"
    using t s by (simp add: processJob_def processJob_rest_def w1_def all_up_def)
  have wk: "worker_processJob (worker_all_up 4000) j world_blocked
      = (Returned,
     logEvent True ''job_skipped_blocked'' (wa_id j) (job_id j) (P_blocked True) None
       (set_job True (job_id j)
          (\<lambda>r. r\<lparr>status := Skipped, last_error := Some ''User is blocked''\<rparr>)
          (say (Log_worker_blocked (wa_id j) (job_id j))
             (say (Log_worker_processing (job_id j) (wa_id j)) world_blocked))))"
    using worker_blocked [of "worker_all_up 4000" world_blocked j "empty_mapping\<lparr>blocked := True\<rparr>"]
    by (simp add: worker_all_up_def jf world_blocked_eq)
  show ?thesis
    unfolding j_def [symmetric] lib wk
    by (simp add: w4_def w3_def w1 jf)
       (simp add: update_job_def world_blocked_eq j_def new_job_def)
qed

section \<open>Outbound send\<close>

lemma send_exchange_result: "fst (send_exchange h w') = fst (send_exchange h w)"
  by (simp add: send_exchange_def split: http_outcome.splits json_read.splits wa_messages.splits)

lemma send_result_config:
  assumes "config w' = config w"
  shows "fst (sendWhatsAppMessage opts h w') = fst (sendWhatsAppMessage opts h w)"
proof -
  have g: "getConfig k w' = getConfig k w" for k by (rule getConfig_cong [OF assms])
  have "fst (send_exchange h (w'\<lparr>calls := calls w' @ [c]\<rparr>)) = fst (send_exchange h (w\<lparr>calls := calls w @ [c]\<rparr>))" for c
    by (rule send_exchange_result)
  then show ?thesis
    by (simp add: sendWhatsAppMessage_def g Let_def case_prod_unfold split: option.splits sum.splits)
qed

lemma reply_options_config: "config w' = config w \<Longrightarrow> reply_options w' u r = reply_options w u r"
  by (simp add: reply_options_def send_mode_def getConfig_def)

lemma send_no_credentials:
  "\<not> has_credentials w \<Longrightarrow>
   sendWhatsAppMessage opts h w
   = (Inr \<lparr>success = False, messageId = None,
           error = Some ''WhatsApp credentials not configured''\<rparr>, w)"
  by (auto simp: sendWhatsAppMessage_def has_credentials_def split: option.splits)

lemma send_not_ok:
  "has_credentials w \<Longrightarrow>
   fst (sendWhatsAppMessage opts (Response False (Json body ms)) w)
   = Inr \<lparr>success = False, messageId = None, error = Some body\<rparr>"
  by (auto simp: sendWhatsAppMessage_def has_credentials_def send_exchange_def Let_def)

lemma send_fetch_rejects:
  "has_credentials w \<Longrightarrow>
   fst (sendWhatsAppMessage opts (Fetch_rejects e) w)
   = Inr \<lparr>success = False, messageId = None, error = Some (error_message e)\<rparr>"
  by (auto simp: sendWhatsAppMessage_def has_credentials_def send_exchange_def Let_def)

lemma send_reply_failure:
  assumes "fst (sendWhatsAppMessage (reply_options w (wa_id j) reply) (http env) w) = Inr r"
    and "\<not> success r"
  shows "fst (send_reply env j reply cid w) = Some (Error (or_else (error r) ''Failed to send message''))"
  using assms by (simp add: send_reply_def case_prod_unfold)

lemma try_send_failure:
  assumes t: "truthy (content j)" and a: "ai env = Inr (reply, cid)"
    and s: "fst (sendWhatsAppMessage (reply_options w (wa_id j) reply) (http env) w) = Inr r"
    and f: "\<not> success r"
  shows "fst (processJob_try env j w) = Some (Error (or_else (error r) ''Failed to send message''))"
proof (cases env j w rule: processJob_try_cases)
  case no_content
  then show ?thesis using t by simp
next
  case (ai_throws e w3)
  then show ?thesis using a by simp
next
  case (ai_replies reply' cid' w4)
  then have eq: "reply' = reply" "cid' = cid" using a by simp_all
  have "fst (sendWhatsAppMessage (reply_options w4 (wa_id j) reply) (http env) w4) = Inr r"
    using s send_result_config [OF ai_replies(7)] reply_options_config [OF ai_replies(7)] by simp
  from send_reply_failure [OF this f] show ?thesis using ai_replies(3) eq by simp
qed

text \<open>
  Claim C10. \<^verbatim>\<open>sendWhatsAppMessage\<close> returns a result for every input and never
  throws; without credentials the result is \<open>success = False\<close> with the error
  \<open>WhatsApp credentials not configured\<close> and nothing else happens; with credentials, a
  response that is not OK gives \<open>success = False\<close> with the stringified error body,
  and a rejected \<^verbatim>\<open>fetch\<close> gives \<open>success = False\<close> with the message of the
  exception. And when the AI adapter has replied and the send result is not a success,
  \<^verbatim>\<open>processJob\<close> throws \<open>Error (error || 'Failed to send message')\<close> and
  the job takes the failure path: with the update succeeding and the retry time a
  representable date, its row gets \<open>attempts + 1\<close>, that message, and status
  \<open>Pending\<close> with the retry time, or \<open>Failed\<close> at \<open>MAX_ATTEMPTS\<close>.
\<close>

theorem outbound_failures_are_values:
  assumes "wf_world w" and "j \<in> set (jobs w)" and "truthy (content j)"
    and "ai env = Inr (reply, cid)" and "finish_ok env"
    and "attempts j + 1 < MAX_ATTEMPTS \<Longrightarrow>
         in_date_range (clock env + 2 ^ (attempts j + 1) * 5 * 1000)"
    and "fst (sendWhatsAppMessage (reply_options w (wa_id j) reply) (http env) w) = Inr r"
    and "\<not> success r"
  shows "(\<forall>opts h v. \<exists>res. fst (sendWhatsAppMessage opts h v) = Inr res)
       \<and> (\<forall>opts h v. \<not> has_credentials v \<longrightarrow>
             sendWhatsAppMessage opts h v
             = (Inr \<lparr>success = False, messageId = None,
                     error = Some ''WhatsApp credentials not configured''\<rparr>, v))
       \<and> (\<forall>opts body ms v. has_credentials v \<longrightarrow>
             fst (sendWhatsAppMessage opts (Response False (Json body ms)) v)
             = Inr \<lparr>success = False, messageId = None, error = Some body\<rparr>)
       \<and> (\<forall>opts e v. has_credentials v \<longrightarrow>
             fst (sendWhatsAppMessage opts (Fetch_rejects e) v)
             = Inr \<lparr>success = False, messageId = None, error = Some (error_message e)\<rparr>)
       \<and> fst (processJob env j w) = Threw (Error (or_else (error r) ''Failed to send message''))
       \<and> lookup_job (job_id j) (snd (processJob env j w))
           = Some (after_failure (clock env) (or_else (error r) ''Failed to send message'') j)"
proof -
  define w1 where "w1 = mark_processing (mark_ok env) j w"
  have c1: "config w1 = config w" by (simp add: w1_def)
  have s1: "fst (sendWhatsAppMessage (reply_options w1 (wa_id j) reply) (http env) w1) = Inr r"
    using assms(7) send_result_config [OF c1] reply_options_config [OF c1] by simp
  have t: "fst (processJob_try env j w1) = Some (Error (or_else (error r) ''Failed to send message''))"
    by (rule try_send_failure [OF assms(3,4) s1 assms(8)])
  have thr: "fst (processJob env j w) = Threw (Error (or_else (error r) ''Failed to send message''))"
    by (rule processJob_threw [OF t [unfolded w1_def] assms(6)])
  then have run: "processJob env j w
      = (Threw (Error (or_else (error r) ''Failed to send message'')), snd (processJob env j w))"
    by (simp add: prod_eq_iff)
  have row: "lookup_job (job_id j) (snd (processJob env j w))
           = Some (after_failure (clock env) (or_else (error r) ''Failed to send message'') j)"
    using fail_step(1) [OF run assms(5,1,2,6)] by (simp add: error_message_def)
  show ?thesis
    using thr row send_never_throws send_no_credentials send_not_ok send_fetch_rejects
    by blast
qed


text \<open>No credentials are configured: the reply cannot be sent and the job is retried.\<close>

theorem outbound_failures_are_values_witness:
  "fst (sendWhatsAppMessage (reply_options world1 ''+33600000001'' ''Hi there'')
          (Response True (Json ''{}'' (Messages [Some ''wamid.1'']))) world1)
     = Inr \<lparr>success = False, messageId = None,
            error = Some ''WhatsApp credentials not configured''\<rparr>
   \<and> fst (processJob (all_up 4000) (new_job 0 ''+33600000001'' 3000 ''Hello'') world1)
     = Threw (Error ''WhatsApp credentials not configured'')
   \<and> lookup_job 0 (snd (processJob (all_up 4000) (new_job 0 ''+33600000001'' 3000 ''Hello'') world1))
     = Some \<lparr>job_id = 0, wa_id = ''+33600000001'', status = Pending, scheduled_for = 14000,
             attempts = 1, last_error = Some ''WhatsApp credentials not configured'',
             content = Some ''Hello''\<rparr>"
proof -
  define j where "j = new_job 0 ''+33600000001'' 3000 ''Hello''"
  define r where "r = \<lparr>success = False, messageId = None,
            error = Some ''WhatsApp credentials not configured''\<rparr>"
  have jf: "wa_id j = ''+33600000001''" "job_id j = 0" "attempts j = 0" "truthy (content j)"
    by (simp_all add: j_def new_job_def truthy_def)
  have nc: "\<not> has_credentials world1"
    by (simp add: has_credentials_def getConfig_def world1_eq world0_def)
  have s: "fst (sendWhatsAppMessage (reply_options world1 (wa_id j) ''Hi there'') (http (all_up 4000)) world1) = Inr r"
    by (simp add: send_no_credentials [OF nc] r_def)
  have e: "ai (all_up 4000) = Inr (''Hi there'', ''conv-1'')" "finish_ok (all_up 4000)"
    "http (all_up 4000) = Response True (Json ''{}'' (Messages [Some ''wamid.1'']))"
    "clock (all_up 4000) = 4000"
    by (simp_all add: all_up_def)
  have rng: "in_date_range (clock (all_up 4000) + 2 ^ (attempts j + 1) * 5 * 1000)"
    by (simp add: e jf in_date_range_def)
  have f: "\<not> success r" by (simp add: r_def)
  from outbound_failures_are_values [OF world1_wf world1_member [folded j_def] jf(4) e(1,2) rng s f]
  have "fst (processJob (all_up 4000) j world1) = Threw (Error (or_else (error r) ''Failed to send message''))"
    "lookup_job (job_id j) (snd (processJob (all_up 4000) j world1))
           = Some (after_failure (clock (all_up 4000)) (or_else (error r) ''Failed to send message'') j)"
    by blast+
  then show ?thesis
    using s unfolding j_def [symmetric] e jf
    by (simp add: r_def or_else_def after_failure_def jf MAX_ATTEMPTS_def)
       (simp add: j_def new_job_def)
qed

section \<open>What the console tells of a batch\<close>

lemma outcomes_say:
  "outcomes (say l w) = outcomes w @ (case outcome_of l of None \<Rightarrow> [] | Some p \<Rightarrow> [p])"
  by (simp add: outcomes_def List.map_filter_def split: option.splits)

lemma outcomes_cong: "console w' = console w \<Longrightarrow> outcomes w' = outcomes w"
  by (simp add: outcomes_def)

lemma outcomes_frame [simp]:
  "outcomes (set_job a i f w) = outcomes w" "outcomes (insert_event b ev w) = outcomes w"
  "outcomes (call c w) = outcomes w" "outcomes (updateMapping d u g w) = outcomes w"
  "outcomes (mark_processing a j w) = outcomes w"
  by (simp_all add: outcomes_def mark_processing_def)

lemma outcomes_send_exchange: "outcomes (snd (send_exchange h v)) = outcomes v"
  by (cases h)
     (simp_all add: send_exchange_def outcomes_def List.map_filter_def outcome_of_def
        split: json_read.splits wa_messages.splits)

lemma outcomes_send [simp]: "outcomes (snd (sendWhatsAppMessage opts h w)) = outcomes w"
proof (cases "getConfig ''whatsapp_phone_number_id'' w")
  case None
  then show ?thesis by (simp add: sendWhatsAppMessage_def)
next
  case p: (Some phoneNumberId)
  show ?thesis
  proof (cases "getConfig ''whatsapp_access_token'' w")
    case None
    then show ?thesis by (simp add: sendWhatsAppMessage_def p)
  next
    case a: (Some accessToken)
    define body where "body = (if useTemplate opts \<and> truthy (templateName opts)
                       then Template_body (to opts) (or_else (templateName opts) [])
                              (or_else (templateLanguage opts) ''en'')
                              (case templateComponents opts of None \<Rightarrow> [] | Some cs \<Rightarrow> cs)
                       else Text_body (to opts) (message opts))"
    define w1 where "w1 = w\<lparr>calls := calls w @ [WA_post phoneNumberId body]\<rparr>"
    obtain x w2 where se: "send_exchange h w1 = (x, w2)" by fastforce
    have "outcomes w2 = outcomes w1" using outcomes_send_exchange [of h w1] se by simp
    also have "\<dots> = outcomes w" by (simp add: w1_def outcomes_def)
    finally have o2: "outcomes w2 = outcomes w" .
    have o3: "outcomes (w2\<lparr>console := console w2 @ [Err_wa_send e]\<rparr>) = outcomes w" for e
      using o2 by (simp add: outcomes_def List.map_filter_def outcome_of_def)
    have "sendWhatsAppMessage opts h w
          = (case x of Inr r \<Rightarrow> (Inr r, w2)
             | Inl e \<Rightarrow> (Inr \<lparr>success = False, messageId = None, error = Some (error_message e)\<rparr>,
                         w2\<lparr>console := console w2 @ [Err_wa_send e]\<rparr>))"
      using se by (simp add: sendWhatsAppMessage_def p a Let_def body_def [symmetric] w1_def [symmetric])
    then show ?thesis using o2 o3 by (cases x) simp_all
  qed
qed

lemma outcomes_send_reply:
  "outcomes (snd (send_reply env j reply cid w))
   = outcomes w @ (if fst (send_reply env j reply cid w) = None then [(job_id j, True)] else [])"
proof -
  obtain r w5 where s: "sendWhatsAppMessage (reply_options w (wa_id j) reply) (http env) w = (r, w5)"
    by fastforce
  have o5: "outcomes w5 = outcomes w"
    using outcomes_send [of "reply_options w (wa_id j) reply" "http env" w] s by simp
  have k: "outcomes (say (Log_completed (job_id j)) (set_job a b c (insert_event d ev w5)))
           = outcomes w @ [(job_id j, True)]" for a b c d ev
    by (simp add: outcomes_say outcome_of_def o5)
  show ?thesis
    unfolding send_reply_def s using o5 k by (cases r) (simp_all add: Let_def)
qed

lemma outcomes_try:
  "outcomes (snd (processJob_try env j w))
   = outcomes w @ (if fst (processJob_try env j w) = None then [(job_id j, True)] else [])"
proof (cases env j w rule: processJob_try_cases)
  case no_content
  then show ?thesis by simp
next
  case (ai_throws e w3)
  have "outcomes w3 = outcomes w" by (rule outcomes_cong [OF ai_throws(8)])
  then show ?thesis using ai_throws(3) by simp
next
  case (ai_replies reply cid w4)
  have "outcomes w4 = outcomes w" by (rule outcomes_cong [OF ai_replies(8)])
  then show ?thesis unfolding ai_replies(3) using outcomes_send_reply [of env j reply cid w4] by simp
qed

lemma outcomes_catch: "outcomes (snd (processJob_catch env j e w)) = outcomes w"
  by (simp add: processJob_catch_def Let_def outcomes_say outcome_of_def
      split: sum.splits)

lemma outcomes_processJob:
  "outcomes (snd (processJob env j w))
   = outcomes w @ (if fst (processJob env j w) = Returned then [(job_id j, True)] else [])"
proof -
  define w1 where "w1 = mark_processing (mark_ok env) j w"
  have o1: "outcomes w1 = outcomes w" by (simp add: w1_def)
  show ?thesis
  proof (cases "fst (processJob_try env j w1)")
    case None
    then show ?thesis
      using outcomes_try [of env j w1] o1 by (simp add: processJob_unfold w1_def [symmetric])
  next
    case (Some e)
    have "fst (processJob_catch env j e v) \<noteq> Returned" for v
      by (simp add: processJob_catch_def Let_def split: sum.splits)
    then show ?thesis
      using Some outcomes_try [of env j w1] o1
      by (simp add: processJob_unfold w1_def [symmetric] outcomes_catch)
  qed
qed

lemma select_ready_sorted: "sorted (map scheduled_for (select_ready now js))"
proof -
  have "sorted (take 10 (map scheduled_for (sort_key scheduled_for (filter (ready now) js))))"
    by (rule sorted_wrt_take) simp
  then show ?thesis by (simp add: select_ready_def take_map)
qed

lemma select_ready_earliest:
  assumes "r \<in> set js" and "ready now r" and "r \<notin> set (select_ready now js)"
  shows "length (select_ready now js) = 10
       \<and> (\<forall>j \<in> set (select_ready now js). scheduled_for j \<le> scheduled_for r)"
proof -
  define xs where "xs = sort_key scheduled_for (filter (ready now) js)"
  have sel: "select_ready now js = take 10 xs" by (simp add: select_ready_def xs_def)
  have rx: "r \<in> set xs" using assms(1,2) by (simp add: xs_def)
  have "set xs = set (take 10 xs) \<union> set (drop 10 xs)"
    by (metis append_take_drop_id set_append)
  with rx assms(3) have rd: "r \<in> set (drop 10 xs)" by (simp add: sel)
  then have "drop 10 xs \<noteq> []" by auto
  then have len: "length (take 10 xs) = 10" by simp
  have "sorted (map scheduled_for (take 10 xs @ drop 10 xs))" by (simp add: xs_def)
  then have "\<forall>a \<in> set (take 10 xs). \<forall>b \<in> set (drop 10 xs). scheduled_for a \<le> scheduled_for b"
    unfolding map_append sorted_append by auto
  with rd len show ?thesis by (simp add: sel)
qed

lemma world2_eq:
  "world2 = world0\<lparr>jobs := [new_job 0 ''+33600000001'' 3000 ''Hello'',
                            new_job 1 ''+33600000002'' 3500 ''Bonjour''],
                   next_job_id := Suc (Suc 0),
                   console := [Log_created 0 3000, Log_created 1 3500]\<rparr>"
proof -
  have "pending_for ''+33600000002'' (jobs world1) = []"
    by (simp add: world1_eq pending_for_def new_job_def)
  from sched_insert [OF _ _ debounceMs_world1 _ this, of all_ok 500 "''Bonjour''"]
  show ?thesis by (simp add: world2_def all_ok_def in_date_range_def world1_eq world0_def)
qed

lemma world2_select:
  "select_ready 5000 (jobs world2)
   = [new_job 0 ''+33600000001'' 3000 ''Hello'', new_job 1 ''+33600000002'' 3500 ''Bonjour'']"
  by (simp add: world2_eq select_ready_def ready_def new_job_def)

section \<open>At most one pending job per user\<close>

lemma distinct_map_filter_length:
  "distinct (map f xs) \<longleftrightarrow> (\<forall>u. length (filter (\<lambda>x. f x = u) xs) \<le> 1)"
proof (induction xs)
  case Nil
  then show ?case by simp
next
  case (Cons x xs)
  show ?case
  proof
    assume d: "distinct (map f (x # xs))"
    then have "f x \<notin> f ` set xs" by simp
    then have n: "\<forall>y \<in> set xs. f y \<noteq> f x" by (metis imageI)
    then have "filter (\<lambda>y. f y = f x) xs = []" by (simp add: filter_empty_conv)
    moreover from d Cons.IH have "\<forall>u. length (filter (\<lambda>x. f x = u) xs) \<le> 1" by simp
    ultimately show "\<forall>u. length (filter (\<lambda>y. f y = u) (x # xs)) \<le> 1" by auto
  next
    assume a: "\<forall>u. length (filter (\<lambda>y. f y = u) (x # xs)) \<le> 1"
    then have "length (filter (\<lambda>y. f y = f x) (x # xs)) \<le> 1" by blast
    then have "filter (\<lambda>y. f y = f x) xs = []" by simp
    then have n: "f x \<notin> f ` set xs" by (auto simp: filter_empty_conv)
    have "\<forall>u. length (filter (\<lambda>y. f y = u) xs) \<le> 1"
    proof
      fix u
      from a have "length (filter (\<lambda>y. f y = u) (x # xs)) \<le> 1" by blast
      then show "length (filter (\<lambda>y. f y = u) xs) \<le> 1" by (simp split: if_splits)
    qed
    with Cons.IH n show "distinct (map f (x # xs))" by simp
  qed
qed

lemma pending_for_filter:
  "pending_for u js = filter (\<lambda>j. wa_id j = u) (filter (\<lambda>j. status j = Pending) js)"
  by (simp add: pending_for_def conj_commute)

lemma one_pending_iff:
  "(\<forall>u. length (pending_for u (jobs w)) \<le> 1) \<longleftrightarrow> distinct (pending_users w)"
  unfolding pending_users_def pending_for_filter
  by (rule distinct_map_filter_length [symmetric])

lemma pending_users_cong: "jobs w' = jobs w \<Longrightarrow> pending_users w' = pending_users w"
  by (simp add: pending_users_def)

lemma pending_update_same:
  assumes "\<And>r. wa_id (g r) = wa_id r \<and> status (g r) = status r"
  shows "map wa_id (filter (\<lambda>j. status j = Pending) (update_job i g js))
         = map wa_id (filter (\<lambda>j. status j = Pending) js)"
  using assms by (induction js) (simp_all add: update_job_def)

lemma pending_update_fewer:
  assumes k: "keeps_key g" and p: "\<forall>x \<in> set js. job_id x = i \<longrightarrow> status x = Pending"
  shows "set (map wa_id (filter (\<lambda>j. status j = Pending) (update_job i g js)))
           \<subseteq> set (map wa_id (filter (\<lambda>j. status j = Pending) js))
       \<and> (distinct (map wa_id (filter (\<lambda>j. status j = Pending) js))
            \<longrightarrow> distinct (map wa_id (filter (\<lambda>j. status j = Pending) (update_job i g js))))"
  using p
proof (induction js)
  case Nil
  then show ?case by (simp add: update_job_def)
next
  case (Cons x xs)
  then have ih: "set (map wa_id (filter (\<lambda>j. status j = Pending) (update_job i g xs)))
           \<subseteq> set (map wa_id (filter (\<lambda>j. status j = Pending) xs))"
    "distinct (map wa_id (filter (\<lambda>j. status j = Pending) xs))
            \<Longrightarrow> distinct (map wa_id (filter (\<lambda>j. status j = Pending) (update_job i g xs)))"
    by simp_all
  have u: "update_job i g (x # xs) = (if job_id x = i then g x else x) # update_job i g xs"
    by (simp add: update_job_def)
  have w: "wa_id (g x) = wa_id x" using k by (simp add: keeps_key_def)
  show ?case
  proof (cases "job_id x = i")
    case True
    then have px: "status x = Pending" using Cons.prems by simp
    show ?thesis using ih True px w unfolding u by (cases "status (g x) = Pending") auto
  next
    case False
    show ?thesis using ih False unfolding u by (cases "status x = Pending") auto
  qed
qed

lemma pending_processJob:
  assumes wf: "wf_world w" and d: "distinct (pending_users w)"
    and r: "lookup_job (job_id j) w = Some r" "status r = Pending"
  shows "distinct (pending_users (snd (processJob env j w)))"
proof -
  obtain g where g: "keeps_key g" "jobs (snd (processJob env j w)) = update_job (job_id j) g (jobs w)"
    using processJob_shape by blast
  have p: "\<forall>x \<in> set (jobs w). job_id x = job_id j \<longrightarrow> status x = Pending"
  proof (intro ballI impI)
    fix x assume "x \<in> set (jobs w)" "job_id x = job_id j"
    with lookup_job_member [OF wf this(1)] r show "status x = Pending" by simp
  qed
  from pending_update_fewer [OF g(1) p] d show ?thesis
    by (simp add: pending_users_def g(2))
qed

lemma batch_keeps_one_pending:
  assumes "wf_world w" and "distinct (pending_users w)" and "distinct (map job_id js)"
    and "\<forall>j \<in> set js. \<exists>r. lookup_job (job_id j) w = Some r \<and> status r = Pending"
  shows "distinct (pending_users (snd (process_batch envs js c w)))"
  using assms
proof (induction js arbitrary: c w)
  case Nil
  then show ?case by simp
next
  case (Cons j js)
  obtain x w1 where p: "processJob (envs (job_id j)) j w = (x, w1)" by fastforce
  obtain r where r: "lookup_job (job_id j) w = Some r" "status r = Pending"
    using Cons.prems(4) by auto
  have wf1: "wf_world w1" using wf_processJob [OF Cons.prems(1), of "envs (job_id j)" j] p by simp
  have d1: "distinct (pending_users w1)"
    using pending_processJob [OF Cons.prems(1,2) r, of "envs (job_id j)"] p by simp
  have dj: "distinct (map job_id js)" using Cons.prems(3) by simp
  have l1: "\<forall>k \<in> set js. \<exists>r. lookup_job (job_id k) w1 = Some r \<and> status r = Pending"
  proof
    fix k assume k: "k \<in> set js"
    then have "job_id j \<noteq> job_id k" using Cons.prems(3) by auto
    from lookup_other_processJob [OF this, of "envs (job_id j)" w] p
    have "lookup_job (job_id k) w1 = lookup_job (job_id k) w" by simp
    with Cons.prems(4) k show "\<exists>r. lookup_job (job_id k) w1 = Some r \<and> status r = Pending" by simp
  qed
  show ?case
  proof (cases x)
    case Returned
    then show ?thesis using p Cons.IH [OF wf1 d1 dj l1] by simp
  next
    case (Threw e)
    define w2 where "w2 = say (Err_job_failed (job_id j) e) w1"
    have j2: "jobs w2 = jobs w1" by (simp add: w2_def)
    have wf2: "wf_world w2" by (rule wf_world_cong [OF _ _ wf1]) (simp_all add: w2_def)
    have d2: "distinct (pending_users w2)" using d1 pending_users_cong [OF j2] by simp
    have l2: "\<forall>k \<in> set js. \<exists>r. lookup_job (job_id k) w2 = Some r \<and> status r = Pending"
      using l1 lookup_cong [OF j2] by simp
    show ?thesis using p Threw Cons.IH [OF wf2 d2 dj l2] by (simp add: w2_def)
  qed
qed

lemma select_ready_distinct:
  assumes "distinct (map job_id js)"
  shows "distinct (map job_id (select_ready now js))"
proof -
  define xs where "xs = sort_key scheduled_for (filter (ready now) js)"
  have "distinct (map job_id (filter (ready now) js))" using assms by (rule distinct_map_filter)
  then have "distinct (filter (ready now) js)" "inj_on job_id (set (filter (ready now) js))"
    by (simp_all add: distinct_map)
  then have "distinct xs" "inj_on job_id (set xs)" by (simp_all add: xs_def)
  then have "distinct (take 10 xs)" "inj_on job_id (set (take 10 xs))"
    using inj_on_subset [OF _ set_take_subset] by auto
  then show ?thesis by (simp add: select_ready_def xs_def distinct_map)
qed

lemma poll_keeps_one_pending:
  assumes wf: "wf_world w" and d: "distinct (pending_users w)"
  shows "distinct (pending_users (snd (processReadyJobs ok now envs w)))"
proof (cases ok)
  case False
  have "pending_users (say Err_fetch_failed w) = pending_users w" by (rule pending_users_cong) simp
  then show ?thesis using d False by (simp add: processReadyJobs_def)
next
  case True
  have dj: "distinct (map job_id (select_ready now (jobs w)))"
    using wf by (intro select_ready_distinct) (simp add: wf_world_def)
  have l: "\<forall>j \<in> set (select_ready now (jobs w)). \<exists>r. lookup_job (job_id j) w = Some r \<and> status r = Pending"
  proof
    fix j assume "j \<in> set (select_ready now (jobs w))"
    with select_ready_subset have j: "j \<in> set (jobs w)" "ready now j" by blast+
    with lookup_job_member [OF wf j(1)]
    show "\<exists>r. lookup_job (job_id j) w = Some r \<and> status r = Pending" by (simp add: ready_def)
  qed
  from batch_keeps_one_pending [OF wf d dj l] True show ?thesis by (simp add: processReadyJobs_def)
qed

lemma enqueue_keeps_one_pending:
  assumes d: "distinct (pending_users w)" and s: "select_ok db"
  shows "distinct (pending_users (snd (scheduleOrDebounceJob db now u f w)))"
proof (cases db now u f w rule: sched_shape)
  case same
  then show ?thesis using d pending_users_cong [OF same(1)] by simp
next
  case (updated ex t c)
  have "pending_users (snd (scheduleOrDebounceJob db now u f w)) = pending_users w"
    unfolding pending_users_def updated(3) by (rule pending_update_same) simp
  then show ?thesis using d by simp
next
  case (inserted t)
  then have n: "single (pending_for u (jobs w)) = None" using s by simp
  have "length (pending_for u (jobs w)) \<le> 1" using d one_pending_iff [of w] by blast
  have e: "pending_for u (jobs w) = []"
  proof (cases "pending_for u (jobs w)")
    case Nil
    then show ?thesis .
  next
    case (Cons a as)
    with \<open>length (pending_for u (jobs w)) \<le> 1\<close> have "as = []" by simp
    with Cons n show ?thesis by (simp add: single_def)
  qed
  have "u \<notin> set (pending_users w)"
  proof
    assume "u \<in> set (pending_users w)"
    then obtain j where "j \<in> set (jobs w)" "status j = Pending" "wa_id j = u"
      by (auto simp: pending_users_def)
    then have "j \<in> set (pending_for u (jobs w))" by (simp add: pending_for_def)
    with e show False by simp
  qed
  then show ?thesis using d by (simp add: pending_users_def inserted(2) new_job_def)
qed

lemma race_marked_eq:
  "race_marked = world1\<lparr>jobs := [(new_job 0 ''+33600000001'' 3000 ''Hello'')\<lparr>status := Processing\<rparr>]\<rparr>"
  by (simp add: race_marked_def mark_processing_def set_job_def update_job_def world1_eq new_job_def)

lemma race_enqueued_jobs:
  "jobs race_enqueued
   = [(new_job 0 ''+33600000001'' 3000 ''Hello'')\<lparr>status := Processing\<rparr>,
      new_job 1 ''+33600000001'' 6500 ''again'']"
proof -
  have c: "config race_marked = config world1" by (simp add: race_marked_def)
  have d: "debounceMs race_marked = Some 3000"
    using debounceMs_cong [OF c] debounceMs_world1 by simp
  have p: "pending_for ''+33600000001'' (jobs race_marked) = []"
    by (simp add: race_marked_eq pending_for_def new_job_def)
  from sched_insert [OF _ _ d _ p, of all_ok 3500 "''again''"]
  show ?thesis
    by (simp add: race_enqueued_def all_ok_def in_date_range_def race_marked_eq world1_eq world0_def)
qed

lemma race_world_jobs:
  "jobs race_world
   = [\<lparr>job_id = 0, wa_id = ''+33600000001'', status = Pending, scheduled_for = 14000,
       attempts = 1, last_error = Some ''Chatbase API error: 500'', content = Some ''Hello''\<rparr>,
      new_job 1 ''+33600000001'' 6500 ''again'']"
proof -
  define j where "j = new_job 0 ''+33600000001'' 3000 ''Hello''"
  define e where "e = Error ''Chatbase API error: 500''"
  have jf: "truthy (content j)" "attempts j = 0" "job_id j = 0"
    by (simp_all add: j_def new_job_def truthy_def)
  have t: "fst (processJob_try (ai_down 4000) j race_enqueued) = Some e"
    unfolding e_def by (rule try_ai_throws [OF jf(1)]) (simp add: ai_down_def)
  have tj: "jobs (snd (processJob_try (ai_down 4000) j race_enqueued)) = jobs race_enqueued"
    by (rule try_throws_frame(1) [OF t])
  have lt: "attempts j + 1 < MAX_ATTEMPTS" by (simp add: jf MAX_ATTEMPTS_def)
  have rng: "in_date_range (clock (ai_down 4000) + 2 ^ (attempts j + 1) * 5 * 1000)"
    by (simp add: ai_down_def jf in_date_range_def)
  have ck: "clock (ai_down 4000) = 4000" "finish_ok (ai_down 4000)"
    by (simp_all add: ai_down_def)
  have rw: "race_world = snd (processJob_catch (ai_down 4000) j e (snd (processJob_try (ai_down 4000) j race_enqueued)))"
    using t by (simp add: race_world_def processJob_rest_def j_def [symmetric] case_prod_unfold)
  have "jobs race_world = update_job 0
       (\<lambda>r. r\<lparr>status := Pending, scheduled_for := 14000, attempts := 1,
              last_error := Some (error_message e)\<rparr>) (jobs race_enqueued)"
    by (subst rw) (simp add: catch_retry [OF lt rng] tj jf ck)
  then show ?thesis
    by (simp add: race_enqueued_jobs update_job_def new_job_def e_def error_message_def)
qed

section \<open>The debounce invariant\<close>

text \<open>
  Claim C2, as amended. Start from a state with unique job keys in which every user has
  at most one pending job, and run any sequence of calls of
  \<^verbatim>\<open>scheduleOrDebounceJob\<close> and \<^verbatim>\<open>processReadyJobs\<close>, each call running to
  its end before the next one starts (so also through the failure path that puts a job
  back to pending), the lookup of the pending job succeeding in every enqueue call.
  Then every user has at most one pending job.
\<close>

theorem one_pending_per_user:
  assumes "wf_world w" and "\<forall>u. length (pending_for u (jobs w)) \<le> 1" and "lookups_ok ops"
  shows "\<forall>u. length (pending_for u (jobs (run_ops ops w))) \<le> 1"
proof -
  have "wf_world (run_ops ops w) \<and> distinct (pending_users (run_ops ops w))"
    if "wf_world w" "distinct (pending_users w)" "lookups_ok ops" for w
    using that
  proof (induction ops arbitrary: w)
    case Nil
    then show ?case by simp
  next
    case (Cons op ops)
    have "wf_world (run_op op w) \<and> distinct (pending_users (run_op op w)) \<and> lookups_ok ops"
      using Cons.prems
      by (cases op) (simp_all add: wf_sched wf_poll enqueue_keeps_one_pending poll_keeps_one_pending)
    then show ?case using Cons.IH by simp
  qed
  note step = this
  from assms(2) have "distinct (pending_users w)" using one_pending_iff [of w] by blast
  from step [OF assms(1) this assms(3)] have "distinct (pending_users (run_ops ops w))" by simp
  then show ?thesis using one_pending_iff [of "run_ops ops w"] by blast
qed


text \<open>Two messages, a poller run while the AI backend is down, a third message.\<close>

theorem one_pending_per_user_witness:
  "\<forall>u. length (pending_for u (jobs (run_ops
       [Enqueue all_ok 0 ''+33600000001'' ''Hello'',
        Enqueue all_ok 1000 ''+33600000001'' ''are you there?'',
        Poll True 5000 (\<lambda>i. ai_down 5000),
        Enqueue all_ok 6000 ''+33600000001'' ''hello?''] world0))) \<le> 1"
proof -
  have "wf_world world0" by (simp add: wf_world_def world0_def)
  moreover have "\<forall>u. length (pending_for u (jobs world0)) \<le> 1"
    by (simp add: world0_def pending_for_def)
  moreover have "lookups_ok
       [Enqueue all_ok 0 ''+33600000001'' ''Hello'',
        Enqueue all_ok 1000 ''+33600000001'' ''are you there?'',
        Poll True 5000 (\<lambda>i. ai_down 5000),
        Enqueue all_ok 6000 ''+33600000001'' ''hello?'']"
    by (simp add: all_ok_def)
  ultimately show ?thesis by (rule one_pending_per_user)
qed

text \<open>
  Claim C2 as stated, for any interleaving of enqueue calls and processing steps, fails:
  an enqueue call that runs between the first statement of \<^verbatim>\<open>processJob\<close> (the
  job is marked processing) and its failure path (the job is pending again) finds no
  pending job and inserts a second one.
\<close>

theorem one_pending_per_user_counterexample:
  "map job_id (pending_for ''+33600000001'' (jobs race_world)) = [0, 1]
   \<and> \<not> length (pending_for ''+33600000001'' (jobs race_world)) \<le> 1"
  by (simp add: race_world_jobs pending_for_def new_job_def)

section \<open>The poller's batch\<close>

lemma after_job_eq:
  "after_job envs w j =
     (case fst (processJob (envs (job_id j)) j w) of
        Returned \<Rightarrow> snd (processJob (envs (job_id j)) j w)
      | Threw e \<Rightarrow> say (Err_job_failed (job_id j) e) (snd (processJob (envs (job_id j)) j w)))"
  by (simp add: after_job_def case_prod_unfold)

lemma batch_step:
  "process_batch envs (j # js) c w =
     process_batch envs js
       (case fst (processJob (envs (job_id j)) j w) of
          Returned \<Rightarrow> c\<lparr>processed := processed c + 1\<rparr>
        | Threw e \<Rightarrow> c\<lparr>errors := errors c + 1\<rparr>)
       (after_job envs w j)"
  by (simp add: after_job_def case_prod_unfold split: completion.splits)

lemma batch_world: "snd (process_batch envs js c w) = foldl (after_job envs) w js"
proof (induction js arbitrary: c w)
  case Nil
  show ?case by simp
next
  case (Cons j js)
  show ?case unfolding batch_step by (simp add: Cons.IH)
qed

lemma state_before_simps:
  "state_before envs w js 0 = w"
  "state_before envs w (j # js) (Suc k) = state_before envs (after_job envs w j) js k"
  by (simp_all add: state_before_def)

lemma result_of_simps:
  "result_of envs w (j # js) 0 = fst (processJob (envs (job_id j)) j w)"
  "result_of envs w (j # js) (Suc k) = result_of envs (after_job envs w j) js k"
  by (simp_all add: result_of_def state_before_simps)

lemma upt_Suc_shift: "[0..<Suc n] = 0 # map Suc [0..<n]"
  by (simp add: upt_conv_Cons map_Suc_upt del: upt_Suc)

lemma batch_counts:
  "processed (fst (process_batch envs js c w))
     = processed c + length (filter (\<lambda>k. result_of envs w js k = Returned) [0..<length js])
   \<and> errors (fst (process_batch envs js c w))
     = errors c + length (filter (\<lambda>k. result_of envs w js k \<noteq> Returned) [0..<length js])"
proof (induction js arbitrary: c w)
  case Nil
  show ?case by simp
next
  case (Cons j js)
  define c1 where "c1 = (case fst (processJob (envs (job_id j)) j w) of
          Returned \<Rightarrow> c\<lparr>processed := processed c + 1\<rparr>
        | Threw e \<Rightarrow> c\<lparr>errors := errors c + 1\<rparr>)"
  define w1 where "w1 = after_job envs w j"
  have s: "process_batch envs (j # js) c w = process_batch envs js c1 w1"
    unfolding c1_def w1_def by (rule batch_step)
  have l: "length (filter P [0..<length (j # js)])
           = (if P 0 then 1 else 0) + length (filter (\<lambda>k. P (Suc k)) [0..<length js])"
    for P :: "nat \<Rightarrow> bool"
    by (simp add: upt_Suc_shift filter_map comp_def del: upt_Suc)
  have c1: "processed c1 = processed c + (if result_of envs w (j # js) 0 = Returned then 1 else 0)"
    "errors c1 = errors c + (if result_of envs w (j # js) 0 \<noteq> Returned then 1 else 0)"
    by (simp_all add: c1_def result_of_simps split: completion.splits)
  show ?case
    unfolding s l using Cons.IH [of c1 w1] c1
    by (simp add: result_of_simps w1_def)
qed

lemma outcomes_after_job:
  "outcomes (after_job envs w j)
   = outcomes w @ [(job_id j, fst (processJob (envs (job_id j)) j w) = Returned)]"
  using outcomes_processJob [of "envs (job_id j)" j w]
  by (simp add: after_job_eq outcomes_say outcome_of_def split: completion.splits)

lemma batch_console:
  "outcomes (foldl (after_job envs) w js)
   = outcomes w @ map (\<lambda>k. (job_id (js ! k), result_of envs w js k = Returned)) [0..<length js]"
proof (induction js arbitrary: w)
  case Nil
  show ?case by simp
next
  case (Cons j js)
  have "map (\<lambda>k. (job_id ((j # js) ! k), result_of envs w (j # js) k = Returned)) [0..<length (j # js)]
        = (job_id j, fst (processJob (envs (job_id j)) j w) = Returned)
          # map (\<lambda>k. (job_id (js ! k), result_of envs (after_job envs w j) js k = Returned)) [0..<length js]"
    by (simp add: upt_Suc_shift comp_def result_of_simps del: upt_Suc)
  then show ?case using Cons.IH [of "after_job envs w j"] by (simp add: outcomes_after_job)
qed

lemma success_step:
  assumes run: "fst (processJob env j w) = Returned"
    and fin: "finish_ok env" and wf: "wf_world w" and mem: "j \<in> set (jobs w)"
  shows "lookup_job (job_id j) (snd (processJob env j w)) = Some (j\<lparr>status := Completed\<rparr>)"
proof -
  define w1 where "w1 = mark_processing (mark_ok env) j w"
  have nr: "fst (processJob_catch env j e v) \<noteq> Returned" for e v
    by (simp add: processJob_catch_def Let_def split: sum.splits)
  have t: "fst (processJob_try env j w1) = None"
  proof (cases "fst (processJob_try env j w1)")
    case None
    then show ?thesis .
  next
    case (Some e)
    then have "processJob env j w = processJob_catch env j e (snd (processJob_try env j w1))"
      by (simp add: processJob_unfold w1_def)
    with run nr show ?thesis by simp
  qed
  then have pj: "snd (processJob env j w) = snd (processJob_try env j w1)"
    by (simp add: processJob_unfold w1_def)
  have js: "jobs (snd (processJob_try env j w1))
            = update_job (job_id j) (\<lambda>r. r\<lparr>status := Completed\<rparr>) (jobs w1)"
    using try_returns_frame [OF t] fin by simp
  obtain r where r: "lookup_job (job_id j) w1 = Some r" "r = j \<or> r = j\<lparr>status := Processing\<rparr>"
    unfolding w1_def using lookup_marked [OF wf mem] by blast
  then have "find (\<lambda>r. job_id r = job_id j) (jobs w1) = Some r" by (simp add: lookup_job_def)
  then have "lookup_job (job_id j) (snd (processJob env j w)) = Some (r\<lparr>status := Completed\<rparr>)"
    unfolding pj lookup_job_def js by (subst find_update_job) simp_all
  with r(2) show ?thesis by auto
qed

lemma processJob_row:
  assumes wf: "wf_world w" and mem: "j \<in> set (jobs w)" and fin: "finish_ok env"
    and rng: "attempts j + 1 < MAX_ATTEMPTS \<Longrightarrow>
              in_date_range (clock env + 2 ^ (attempts j + 1) * 5 * 1000)"
  shows "lookup_job (job_id j) (snd (processJob env j w))
         = Some (case fst (processJob env j w) of
                   Returned \<Rightarrow> j\<lparr>status := Completed\<rparr>
                 | Threw x \<Rightarrow> after_failure (clock env) (error_message x) j)"
proof (cases "fst (processJob env j w)")
  case Returned
  then show ?thesis using success_step [OF Returned fin wf mem] by simp
next
  case (Threw x)
  then have "processJob env j w = (Threw x, snd (processJob env j w))" by (simp add: prod_eq_iff)
  from fail_step(1) [OF this fin wf mem rng] Threw show ?thesis by simp
qed

lemma jobs_after_job: "jobs (after_job envs w j) = jobs (snd (processJob (envs (job_id j)) j w))"
  by (simp add: after_job_eq split: completion.splits)

lemma lookup_after_job:
  "lookup_job i (after_job envs w j) = lookup_job i (snd (processJob (envs (job_id j)) j w))"
  by (simp add: lookup_job_def jobs_after_job)

lemma wf_after_job: "wf_world w \<Longrightarrow> wf_world (after_job envs w j)"
proof -
  assume wf: "wf_world w"
  have "wf_world (snd (processJob (envs (job_id j)) j w))" by (rule wf_processJob [OF wf])
  then show ?thesis
    by (rule wf_world_cong [rotated 2]) (simp_all add: jobs_after_job after_job_eq split: completion.splits)
qed

lemma member_after_job:
  assumes "r \<in> set (jobs w)" and "job_id r \<noteq> job_id j"
  shows "r \<in> set (jobs (after_job envs w j))"
proof -
  obtain g where g: "jobs (snd (processJob (envs (job_id j)) j w)) = update_job (job_id j) g (jobs w)"
    using processJob_shape by blast
  have "r \<in> set (update_job (job_id j) g (jobs w))"
    using assms by (auto simp: update_job_def image_iff intro!: bexI [of _ r])
  then show ?thesis by (simp add: jobs_after_job g)
qed

lemma lookup_later_jobs:
  assumes "\<forall>j \<in> set js. job_id j \<noteq> i"
  shows "lookup_job i (foldl (after_job envs) w js) = lookup_job i w"
  using assms
proof (induction js arbitrary: w)
  case Nil
  show ?case by simp
next
  case (Cons j js)
  have "lookup_job i (after_job envs w j) = lookup_job i w"
    using lookup_other_processJob [of j i "envs (job_id j)" w] Cons.prems
    by (simp add: lookup_after_job)
  then show ?case using Cons.IH [of "after_job envs w j"] Cons.prems by simp
qed

lemma batch_rows:
  assumes "wf_world w" and "distinct (map job_id js)" and "set js \<subseteq> set (jobs w)"
    and "\<forall>j \<in> set js. finish_ok (envs (job_id j))
           \<and> (attempts j + 1 < MAX_ATTEMPTS \<longrightarrow>
                in_date_range (clock (envs (job_id j)) + 2 ^ (attempts j + 1) * 5 * 1000))"
  shows "\<forall>k < length js.
           lookup_job (job_id (js ! k)) (foldl (after_job envs) w js)
           = Some (case result_of envs w js k of
                     Returned \<Rightarrow> (js ! k)\<lparr>status := Completed\<rparr>
                   | Threw x \<Rightarrow> after_failure (clock (envs (job_id (js ! k)))) (error_message x) (js ! k))"
  using assms
proof (induction js arbitrary: w)
  case Nil
  show ?case by simp
next
  case (Cons j js)
  define w1 where "w1 = after_job envs w j"
  have wf1: "wf_world w1" unfolding w1_def by (rule wf_after_job [OF Cons.prems(1)])
  have d: "distinct (map job_id js)" using Cons.prems(2) by simp
  have ne: "\<forall>r \<in> set js. job_id r \<noteq> job_id j"
  proof (intro ballI notI)
    fix r assume "r \<in> set js" "job_id r = job_id j"
    then have "job_id j \<in> job_id ` set js" by (metis imageI)
    with Cons.prems(2) show False by simp
  qed
  have sub: "set js \<subseteq> set (jobs w1)"
  proof
    fix r assume r: "r \<in> set js"
    with Cons.prems(3) have "r \<in> set (jobs w)" by auto
    moreover from r ne have "job_id r \<noteq> job_id j" by simp
    ultimately show "r \<in> set (jobs w1)" unfolding w1_def by (rule member_after_job)
  qed
  have env: "\<forall>j \<in> set js. finish_ok (envs (job_id j))
           \<and> (attempts j + 1 < MAX_ATTEMPTS \<longrightarrow>
                in_date_range (clock (envs (job_id j)) + 2 ^ (attempts j + 1) * 5 * 1000))"
    using Cons.prems(4) by simp
  note ih = Cons.IH [OF wf1 d sub env]
  have mem: "j \<in> set (jobs w)" using Cons.prems(3) by simp
  have fin: "finish_ok (envs (job_id j))"
    and rng: "attempts j + 1 < MAX_ATTEMPTS \<Longrightarrow>
              in_date_range (clock (envs (job_id j)) + 2 ^ (attempts j + 1) * 5 * 1000)"
    using Cons.prems(4) by simp_all
  have first: "lookup_job (job_id j) (foldl (after_job envs) w1 js)
        = Some (case fst (processJob (envs (job_id j)) j w) of
                   Returned \<Rightarrow> j\<lparr>status := Completed\<rparr>
                 | Threw x \<Rightarrow> after_failure (clock (envs (job_id j))) (error_message x) j)"
    using lookup_later_jobs [OF ne, of envs w1] processJob_row [OF Cons.prems(1) mem fin rng]
    by (simp add: w1_def lookup_after_job)
  show ?case
  proof (intro allI impI)
    fix k assume k: "k < length (j # js)"
    show "lookup_job (job_id ((j # js) ! k)) (foldl (after_job envs) w (j # js))
           = Some (case result_of envs w (j # js) k of
                     Returned \<Rightarrow> ((j # js) ! k)\<lparr>status := Completed\<rparr>
                   | Threw x \<Rightarrow> after_failure (clock (envs (job_id ((j # js) ! k)))) (error_message x) ((j # js) ! k))"
    proof (cases k)
      case 0
      show ?thesis unfolding 0 using first
        by (simp add: result_of_simps w1_def split: completion.splits)
    next
      case (Suc k')
      with k have "k' < length js" by simp
      with ih show ?thesis unfolding Suc
        by (simp add: result_of_simps w1_def split: completion.splits)
    qed
  qed
qed


lemma ai_down_throws:
  assumes "truthy (content j)"
    and "attempts j + 1 < MAX_ATTEMPTS \<Longrightarrow> in_date_range (t + 2 ^ (attempts j + 1) * 5 * 1000)"
  shows "fst (processJob (ai_down t) j w) = Threw (Error ''Chatbase API error: 500'')"
proof -
  have "fst (processJob_try (ai_down t) j (mark_processing (mark_ok (ai_down t)) j w))
        = Some (Error ''Chatbase API error: 500'')"
    by (rule try_ai_throws [OF assms(1)]) (simp add: ai_down_def)
  from processJob_threw [OF this] assms(2) show ?thesis by (simp add: ai_down_def)
qed

lemma world2_wf: "wf_world world2"
  by (simp add: world2_eq wf_world_def new_job_def world0_def)

text \<open>
  Claim C7. When the query of \<^verbatim>\<open>processReadyJobs\<close> fails, the call returns
  \<open>{processed: 0, errors: 1}\<close> and touches no table and no collaborator. Otherwise
  let \<open>sel\<close> be the rows it selects: there are at most 10, each pending with
  \<open>scheduled_for \<le> now\<close>, in ascending order of \<open>scheduled_for\<close>, and a ready row
  is left out only when 10 rows with deadlines no later than its own were selected.
  The state the call leaves is the one reached by running \<^verbatim>\<open>processJob\<close> on
  every selected job, one after the other in that order, each in the state its
  predecessors left, whether they returned or threw; \<open>processed\<close> counts the calls
  that returned and \<open>errors\<close> those that threw; the console tells the end of each of
  them in the same order. When the primary keys are unique and the database accepts the
  final write of each call, every selected job has its row rewritten: completed when its
  call returned, and otherwise as the failure path writes it, also when the jobs before
  it failed.
\<close>

theorem poller_batch:
  assumes "processReadyJobs fetch_ok now envs w = (c, w')"
  shows "(\<not> fetch_ok \<longrightarrow>
            c = \<lparr>processed = 0, errors = 1\<rparr> \<and> jobs w' = jobs w \<and> calls w' = calls w
          \<and> event_logs w' = event_logs w \<and> mappings w' = mappings w
          \<and> outcomes w' = outcomes w)
       \<and> (fetch_ok \<longrightarrow>
            (let sel = select_ready now (jobs w); n = length sel
             in n \<le> 10
              \<and> (\<forall>j \<in> set sel. j \<in> set (jobs w) \<and> status j = Pending \<and> scheduled_for j \<le> now)
              \<and> sorted (map scheduled_for sel)
              \<and> (\<forall>r \<in> set (jobs w).
                    status r = Pending \<and> scheduled_for r \<le> now \<and> r \<notin> set sel
                    \<longrightarrow> n = 10 \<and> (\<forall>j \<in> set sel. scheduled_for j \<le> scheduled_for r))
              \<and> w' = state_before envs w sel n
              \<and> processed c = length (filter (\<lambda>k. result_of envs w sel k = Returned) [0..<n])
              \<and> errors c = length (filter (\<lambda>k. result_of envs w sel k \<noteq> Returned) [0..<n])
              \<and> outcomes w'
                  = outcomes w
                    @ map (\<lambda>k. (job_id (sel ! k), result_of envs w sel k = Returned)) [0..<n]
              \<and> (wf_world w
                  \<and> (\<forall>j \<in> set sel. finish_ok (envs (job_id j))
                        \<and> (attempts j + 1 < MAX_ATTEMPTS \<longrightarrow>
                             in_date_range
                               (clock (envs (job_id j)) + 2 ^ (attempts j + 1) * 5 * 1000)))
                  \<longrightarrow> (\<forall>k < n.
                         lookup_job (job_id (sel ! k)) w'
                         = Some (case result_of envs w sel k of
                                   Returned \<Rightarrow> (sel ! k)\<lparr>status := Completed\<rparr>
                                 | Threw x \<Rightarrow>
                                     after_failure (clock (envs (job_id (sel ! k))))
                                       (error_message x) (sel ! k))))))"
proof (cases fetch_ok)
  case False
  then show ?thesis using assms
    by (auto simp: processReadyJobs_def outcomes_say outcome_of_def)
next
  case True
  define sel where "sel = select_ready now (jobs w)"
  have run: "process_batch envs sel \<lparr>processed = 0, errors = 0\<rparr> w = (c, w')"
    using assms True by (simp add: processReadyJobs_def sel_def)
  have a: "length sel \<le> 10" by (simp add: sel_def select_ready_def)
  have b: "\<forall>j \<in> set sel. j \<in> set (jobs w) \<and> status j = Pending \<and> scheduled_for j \<le> now"
    using select_ready_subset [of now "jobs w"] by (auto simp: sel_def ready_def)
  have s: "sorted (map scheduled_for sel)" unfolding sel_def by (rule select_ready_sorted)
  have e: "\<forall>r \<in> set (jobs w).
                status r = Pending \<and> scheduled_for r \<le> now \<and> r \<notin> set sel
                \<longrightarrow> length sel = 10 \<and> (\<forall>j \<in> set sel. scheduled_for j \<le> scheduled_for r)"
    unfolding sel_def using select_ready_earliest [of _ "jobs w" now] by (simp add: ready_def)
  have st: "w' = foldl (after_job envs) w sel"
    using batch_world [of envs sel "\<lparr>processed = 0, errors = 0\<rparr>" w] run by simp
  then have st': "w' = state_before envs w sel (length sel)" by (simp add: state_before_def)
  have pc: "processed c = length (filter (\<lambda>k. result_of envs w sel k = Returned) [0..<length sel])"
    and ec: "errors c = length (filter (\<lambda>k. result_of envs w sel k \<noteq> Returned) [0..<length sel])"
    using batch_counts [of envs sel "\<lparr>processed = 0, errors = 0\<rparr>" w] run by simp_all
  have oc: "outcomes w' = outcomes w
              @ map (\<lambda>k. (job_id (sel ! k), result_of envs w sel k = Returned)) [0..<length sel]"
    unfolding st by (rule batch_console)
  have rows: "\<forall>k < length sel.
                lookup_job (job_id (sel ! k)) w'
                = Some (case result_of envs w sel k of
                          Returned \<Rightarrow> (sel ! k)\<lparr>status := Completed\<rparr>
                        | Threw x \<Rightarrow>
                            after_failure (clock (envs (job_id (sel ! k))))
                              (error_message x) (sel ! k))"
    if wf: "wf_world w"
      and env: "\<forall>j \<in> set sel. finish_ok (envs (job_id j))
                        \<and> (attempts j + 1 < MAX_ATTEMPTS \<longrightarrow>
                             in_date_range
                               (clock (envs (job_id j)) + 2 ^ (attempts j + 1) * 5 * 1000))"
  proof -
    have d: "distinct (map job_id sel)"
      unfolding sel_def using wf by (intro select_ready_distinct) (simp add: wf_world_def)
    have sub: "set sel \<subseteq> set (jobs w)" using b by blast
    show ?thesis unfolding st by (rule batch_rows [OF wf d sub env])
  qed
  have main: "length sel \<le> 10
      \<and> (\<forall>j \<in> set sel. j \<in> set (jobs w) \<and> status j = Pending \<and> scheduled_for j \<le> now)
      \<and> sorted (map scheduled_for sel)
      \<and> (\<forall>r \<in> set (jobs w).
            status r = Pending \<and> scheduled_for r \<le> now \<and> r \<notin> set sel
            \<longrightarrow> length sel = 10 \<and> (\<forall>j \<in> set sel. scheduled_for j \<le> scheduled_for r))
      \<and> w' = state_before envs w sel (length sel)
      \<and> processed c = length (filter (\<lambda>k. result_of envs w sel k = Returned) [0..<length sel])
      \<and> errors c = length (filter (\<lambda>k. result_of envs w sel k \<noteq> Returned) [0..<length sel])
      \<and> outcomes w'
          = outcomes w
            @ map (\<lambda>k. (job_id (sel ! k), result_of envs w sel k = Returned)) [0..<length sel]
      \<and> (wf_world w
          \<and> (\<forall>j \<in> set sel. finish_ok (envs (job_id j))
                \<and> (attempts j + 1 < MAX_ATTEMPTS \<longrightarrow>
                     in_date_range
                       (clock (envs (job_id j)) + 2 ^ (attempts j + 1) * 5 * 1000)))
          \<longrightarrow> (\<forall>k < length sel.
                 lookup_job (job_id (sel ! k)) w'
                 = Some (case result_of envs w sel k of
                           Returned \<Rightarrow> (sel ! k)\<lparr>status := Completed\<rparr>
                         | Threw x \<Rightarrow>
                             after_failure (clock (envs (job_id (sel ! k))))
                               (error_message x) (sel ! k))))"
    using a b s e st' pc ec oc rows by (intro conjI impI) blast+
  from True main show ?thesis unfolding Let_def sel_def [symmetric] by blast
qed

text \<open>
  Two ready jobs while the AI backend is down: the first fails, the second is processed
  all the same, and both rows are back to pending with one attempt and the backoff.
\<close>

theorem poller_batch_witness:
  "processed (fst (processReadyJobs True 5000 (\<lambda>i. ai_down 5000) world2)) = 0
   \<and> errors (fst (processReadyJobs True 5000 (\<lambda>i. ai_down 5000) world2)) = 2
   \<and> outcomes (snd (processReadyJobs True 5000 (\<lambda>i. ai_down 5000) world2))
       = [(0, False), (1, False)]
   \<and> lookup_job 0 (snd (processReadyJobs True 5000 (\<lambda>i. ai_down 5000) world2))
       = Some \<lparr>job_id = 0, wa_id = ''+33600000001'', status = Pending, scheduled_for = 15000,
               attempts = 1, last_error = Some ''Chatbase API error: 500'',
               content = Some ''Hello''\<rparr>
   \<and> lookup_job 1 (snd (processReadyJobs True 5000 (\<lambda>i. ai_down 5000) world2))
       = Some \<lparr>job_id = 1, wa_id = ''+33600000002'', status = Pending, scheduled_for = 15000,
               attempts = 1, last_error = Some ''Chatbase API error: 500'',
               content = Some ''Bonjour''\<rparr>"
proof -
  define envs :: "nat \<Rightarrow> pj_env" where "envs = (\<lambda>i. ai_down 5000)"
  define sel where "sel = [new_job 0 ''+33600000001'' 3000 ''Hello'',
                           new_job 1 ''+33600000002'' 3500 ''Bonjour'']"
  define c where "c = fst (processReadyJobs True 5000 envs world2)"
  define w' where "w' = snd (processReadyJobs True 5000 envs world2)"
  have sel: "select_ready 5000 (jobs world2) = sel" unfolding sel_def by (rule world2_select)
  have o: "outcomes world2 = []"
    by (simp add: world2_eq outcomes_def outcome_of_def world0_def)
  have res: "result_of envs world2 sel k = Threw (Error ''Chatbase API error: 500'')"
    if "k < 2" for k
  proof -
    from that have "k = 0 \<or> k = 1" by auto
    then have "truthy (content (sel ! k))" "attempts (sel ! k) = 0"
      by (auto simp: sel_def new_job_def truthy_def)
    then show ?thesis
      unfolding result_of_def envs_def
      by (intro ai_down_throws) (simp_all add: in_date_range_def)
  qed
  have env: "\<forall>j \<in> set sel. finish_ok (envs (job_id j))
                        \<and> (attempts j + 1 < MAX_ATTEMPTS \<longrightarrow>
                             in_date_range
                               (clock (envs (job_id j)) + 2 ^ (attempts j + 1) * 5 * 1000))"
    by (simp add: sel_def envs_def ai_down_def new_job_def in_date_range_def)
  have "processReadyJobs True 5000 envs world2 = (c, w')" by (simp add: c_def w'_def)
  note pb = poller_batch [OF this, unfolded Let_def sel, THEN conjunct2, THEN mp, OF TrueI]
  have pc: "processed c = length (filter (\<lambda>k. result_of envs world2 sel k = Returned) [0..<length sel])"
    and ec: "errors c = length (filter (\<lambda>k. result_of envs world2 sel k \<noteq> Returned) [0..<length sel])"
    and oc: "outcomes w' = outcomes world2
              @ map (\<lambda>k. (job_id (sel ! k), result_of envs world2 sel k = Returned)) [0..<length sel]"
    and rows: "\<forall>k < length sel.
                 lookup_job (job_id (sel ! k)) w'
                 = Some (case result_of envs world2 sel k of
                           Returned \<Rightarrow> (sel ! k)\<lparr>status := Completed\<rparr>
                         | Threw x \<Rightarrow>
                             after_failure (clock (envs (job_id (sel ! k))))
                               (error_message x) (sel ! k))"
    using pb world2_wf env by blast+
  have l: "length sel = 2" "[0..<length sel] = [0, 1]" by (simp_all add: sel_def)
  have r0: "result_of envs world2 sel 0 = Threw (Error ''Chatbase API error: 500'')"
    and r1: "result_of envs world2 sel (Suc 0) = Threw (Error ''Chatbase API error: 500'')"
    using res by simp_all
  have row: "lookup_job (job_id (sel ! k)) w'
             = Some (after_failure (clock (envs (job_id (sel ! k))))
                       ''Chatbase API error: 500'' (sel ! k))"
    if "k < 2" for k
    using rows [rule_format, of k] that res [OF that] by (simp add: l(1) error_message_def)
  have ids: "job_id (sel ! 0) = 0" "job_id (sel ! Suc 0) = 1" by (simp_all add: sel_def new_job_def)
  have "processed c = 0" "errors c = 2" "outcomes w' = [(0, False), (1, False)]"
    using pc ec oc unfolding l(2) by (simp_all add: r0 r1 o ids)
  moreover have "lookup_job 0 w'
       = Some \<lparr>job_id = 0, wa_id = ''+33600000001'', status = Pending, scheduled_for = 15000,
               attempts = 1, last_error = Some ''Chatbase API error: 500'',
               content = Some ''Hello''\<rparr>"
    using row [of 0]
    by (simp add: sel_def new_job_def envs_def ai_down_def after_failure_def MAX_ATTEMPTS_def)
  moreover have "lookup_job 1 w'
       = Some \<lparr>job_id = 1, wa_id = ''+33600000002'', status = Pending, scheduled_for = 15000,
               attempts = 1, last_error = Some ''Chatbase API error: 500'',
               content = Some ''Bonjour''\<rparr>"
    using row [of 1]
    by (simp add: sel_def new_job_def envs_def ai_down_def after_failure_def MAX_ATTEMPTS_def)
  ultimately show ?thesis unfolding c_def w'_def envs_def by simp
qed

section \<open>Debounce window sliding\<close>

lemma debounceMs_config:
  assumes "case config w ''debounce_ms'' of None \<Rightarrow> d = 3000
           | Some v \<Rightarrow> if v = [] then d = 3000 else parseInt v = Some d"
  shows "debounceMs w = Some d"
  using assms
  by (auto simp: debounceMs_def getConfig_def parseInt_3000 split: option.splits if_splits)

lemma parseInt_5000: "parseInt ''5000'' = Some 5000"
  by (simp add: parseInt_def is_js_space_def digit_val_def)

lemma sched_insert_more:
  assumes "write_ok db" "debounceMs w = Some d" "in_date_range (now + d)"
    and "single (pending_for u (jobs w)) = None"
  shows "scheduleOrDebounceJob db now u f w =
    (Returned, w\<lparr>jobs := jobs w @ [new_job (next_job_id w) u (now + d) f],
                  next_job_id := Suc (next_job_id w),
                  console := console w @ [Log_created (next_job_id w) (now + d)]\<rparr>)"
  using assms by (simp add: scheduleOrDebounceJob_def js_add_def toISOString_Some)

text \<open>
  Claim C4, as amended. Let \<open>d\<close> be the debounce window as the configuration table gives
  it: what \<^verbatim>\<open>parseInt\<close> reads in the value stored under \<^verbatim>\<open>debounce_ms\<close>, and
  3000 when the key is absent or its value empty. An enqueue call made while exactly one
  pending job exists for the user (the lookup and the update succeeding, \<open>now + d\<close>
  being a representable date) returns normally and leaves that job as the user's only
  pending job, with \<open>scheduled_for = now + d\<close> and the fragment appended; and the
  poller's query selects no job of the user at any time before \<open>now + d\<close>.
\<close>

theorem debounce_window_sliding:
  assumes "select_ok db" and "write_ok db" and "pending_for waId (jobs w) = [ex]"
    and "case config w ''debounce_ms'' of
           None \<Rightarrow> d = 3000
         | Some v \<Rightarrow> if v = [] then d = 3000 else parseInt v = Some d"
    and "in_date_range (now + d)"
  shows "\<exists>w'. scheduleOrDebounceJob db now waId fragment w = (Returned, w')
           \<and> pending_for waId (jobs w')
               = [ex\<lparr>scheduled_for := now + d,
                     content := Some (append_content (content ex) fragment)\<rparr>]
           \<and> (\<forall>t. t < now + d \<longrightarrow> filter (\<lambda>j. wa_id j = waId) (select_ready t (jobs w')) = [])"
proof -
  have dm: "debounceMs w = Some d" by (rule debounceMs_config [OF assms(4)])
  define ex' where "ex' = ex\<lparr>scheduled_for := now + d,
                     content := Some (append_content (content ex) fragment)\<rparr>"
  define w' where "w' = w\<lparr>jobs := update_job (job_id ex)
                     (\<lambda>j. j\<lparr>scheduled_for := now + d, content := Some (append_content (content ex) fragment)\<rparr>) (jobs w),
                  console := console w @ [Log_debounced (job_id ex) (now + d)]\<rparr>"
  have run: "scheduleOrDebounceJob db now waId fragment w = (Returned, w')"
    unfolding w'_def by (rule sched_update [OF assms(1,2) dm assms(5,3)])
  have pend: "pending_for waId (jobs w') = [ex']"
    unfolding w'_def ex'_def using pending_for_update_single [OF assms(3)] by simp
  have quiet: "filter (\<lambda>j. wa_id j = waId) (select_ready t (jobs w')) = []" if "t < now + d" for t
  proof -
    have "\<not> (wa_id j = waId)" if j: "j \<in> set (select_ready t (jobs w'))" for j
    proof
      assume u: "wa_id j = waId"
      from j select_ready_subset have "j \<in> set (jobs w')" "ready t j" by blast+
      with u have "j \<in> set (pending_for waId (jobs w'))"
        by (simp add: pending_for_def ready_def)
      with pend have "j = ex'" by simp
      with \<open>ready t j\<close> have "now + d \<le> t" by (simp add: ready_def ex'_def)
      with that(1) \<open>t < now + d\<close> show False by simp
    qed
    then show ?thesis by (simp add: filter_empty_conv)
  qed
  show ?thesis using run pend quiet by (auto simp: ex'_def)
qed

text \<open>
  The second message of the specification's scenario, one second after the first: with
  no configuration the job moves to 1000 + 3000, and with \<^verbatim>\<open>debounce_ms\<close> set to
  \<^verbatim>\<open>5000\<close> to 1000 + 5000.
\<close>

theorem debounce_window_sliding_witness:
  "(\<exists>w'. scheduleOrDebounceJob all_ok 1000 ''+33600000001'' ''are you there?'' world1 = (Returned, w')
      \<and> pending_for ''+33600000001'' (jobs w')
           = [\<lparr>job_id = 0, wa_id = ''+33600000001'', status = Pending, scheduled_for = 4000,
               attempts = 0, last_error = None,
               content = Some (''Hello'' @ newline @ ''are you there?'')\<rparr>]
      \<and> filter (\<lambda>j. wa_id j = ''+33600000001'') (select_ready 3999 (jobs w')) = [])
   \<and> (\<exists>w'. scheduleOrDebounceJob all_ok 1000 ''+33600000001'' ''are you there?''
             (world1\<lparr>config := [''debounce_ms'' \<mapsto> ''5000'']\<rparr>) = (Returned, w')
      \<and> pending_for ''+33600000001'' (jobs w')
           = [\<lparr>job_id = 0, wa_id = ''+33600000001'', status = Pending, scheduled_for = 6000,
               attempts = 0, last_error = None,
               content = Some (''Hello'' @ newline @ ''are you there?'')\<rparr>]
      \<and> filter (\<lambda>j. wa_id j = ''+33600000001'') (select_ready 5999 (jobs w')) = [])"
proof -
  have p: "pending_for ''+33600000001'' (jobs world1) = [new_job 0 ''+33600000001'' 3000 ''Hello'']"
    by (simp add: world1_eq pending_for_def new_job_def)
  have c1: "case config world1 ''debounce_ms'' of None \<Rightarrow> (3000::int) = 3000
            | Some v \<Rightarrow> if v = [] then (3000::int) = 3000 else parseInt v = Some 3000"
    by (simp add: world1_eq world0_def)
  have r1: "in_date_range (1000 + 3000)" by (simp add: in_date_range_def)
  define wc where "wc = world1\<lparr>config := [''debounce_ms'' \<mapsto> ''5000'']\<rparr>"
  have pc: "pending_for ''+33600000001'' (jobs wc) = [new_job 0 ''+33600000001'' 3000 ''Hello'']"
    by (simp add: wc_def p)
  have c2: "case config wc ''debounce_ms'' of None \<Rightarrow> (5000::int) = 3000
            | Some v \<Rightarrow> if v = [] then (5000::int) = 3000 else parseInt v = Some 5000"
    by (simp add: wc_def parseInt_5000)
  have r2: "in_date_range (1000 + 5000)" by (simp add: in_date_range_def)
  from debounce_window_sliding [OF _ _ p c1 r1, of all_ok "''are you there?''"]
  obtain w' where
    w': "scheduleOrDebounceJob all_ok 1000 ''+33600000001'' ''are you there?'' world1 = (Returned, w')"
        "pending_for ''+33600000001'' (jobs w')
           = [(new_job 0 ''+33600000001'' 3000 ''Hello'')\<lparr>scheduled_for := 1000 + 3000,
                content := Some (append_content (content (new_job 0 ''+33600000001'' 3000 ''Hello'')) ''are you there?'')\<rparr>]"
        "\<forall>t. t < 1000 + 3000 \<longrightarrow> filter (\<lambda>j. wa_id j = ''+33600000001'') (select_ready t (jobs w')) = []"
    by (auto simp: all_ok_def)
  from debounce_window_sliding [OF _ _ pc c2 r2, of all_ok "''are you there?''"]
  obtain v' where
    v': "scheduleOrDebounceJob all_ok 1000 ''+33600000001'' ''are you there?'' wc = (Returned, v')"
        "pending_for ''+33600000001'' (jobs v')
           = [(new_job 0 ''+33600000001'' 3000 ''Hello'')\<lparr>scheduled_for := 1000 + 5000,
                content := Some (append_content (content (new_job 0 ''+33600000001'' 3000 ''Hello'')) ''are you there?'')\<rparr>]"
        "\<forall>t. t < 1000 + 5000 \<longrightarrow> filter (\<lambda>j. wa_id j = ''+33600000001'') (select_ready t (jobs v')) = []"
    by (auto simp: all_ok_def)
  have a: "\<exists>w'. scheduleOrDebounceJob all_ok 1000 ''+33600000001'' ''are you there?'' world1 = (Returned, w')
      \<and> pending_for ''+33600000001'' (jobs w')
           = [\<lparr>job_id = 0, wa_id = ''+33600000001'', status = Pending, scheduled_for = 4000,
               attempts = 0, last_error = None,
               content = Some (''Hello'' @ newline @ ''are you there?'')\<rparr>]
      \<and> filter (\<lambda>j. wa_id j = ''+33600000001'') (select_ready 3999 (jobs w')) = []"
    using w' by (intro exI [of _ w']) (simp add: new_job_def append_content_def)
  have b: "\<exists>w'. scheduleOrDebounceJob all_ok 1000 ''+33600000001'' ''are you there?'' wc = (Returned, w')
      \<and> pending_for ''+33600000001'' (jobs w')
           = [\<lparr>job_id = 0, wa_id = ''+33600000001'', status = Pending, scheduled_for = 6000,
               attempts = 0, last_error = None,
               content = Some (''Hello'' @ newline @ ''are you there?'')\<rparr>]
      \<and> filter (\<lambda>j. wa_id j = ''+33600000001'') (select_ready 5999 (jobs w')) = []"
    using v' by (intro exI [of _ v']) (simp add: new_job_def append_content_def)
  from a b show ?thesis unfolding wc_def by (rule conjI)
qed

text \<open>
  Claim C4 as stated, for every call made while a pending job exists, fails in the state
  the interleaving of \<open>race_world\<close> leaves, where the user has two pending jobs:
  \<^verbatim>\<open>.single()\<close> returns no row, so the call inserts a third job and resets neither
  of the two, one of which the poller's query selects at once.
\<close>

theorem debounce_window_counterexample:
  "map job_id (pending_for ''+33600000001'' (jobs race_world)) = [0, 1]
   \<and> fst (scheduleOrDebounceJob all_ok 7000 ''+33600000001'' ''hello?'' race_world) = Returned
   \<and> map job_id
       (pending_for ''+33600000001''
          (jobs (snd (scheduleOrDebounceJob all_ok 7000 ''+33600000001'' ''hello?'' race_world))))
     = [0, 1, 2]
   \<and> map scheduled_for
       (pending_for ''+33600000001''
          (jobs (snd (scheduleOrDebounceJob all_ok 7000 ''+33600000001'' ''hello?'' race_world))))
     = [14000, 6500, 10000]
   \<and> (14000 :: int) \<noteq> 7000 + 3000 \<and> (6500 :: int) \<noteq> 7000 + 3000
   \<and> map job_id (select_ready 7000
          (jobs (snd (scheduleOrDebounceJob all_ok 7000 ''+33600000001'' ''hello?'' race_world))))
     = [1]"
proof -
  have f: "next_job_id (snd (processJob_rest env j w)) = next_job_id w"
    "config (snd (processJob_rest env j w)) = config w" for env j w
    by (simp_all add: processJob_rest_def processJob_catch_def Let_def case_prod_unfold
        split: option.splits sum.splits)
  have cm: "config race_marked = config world1" and nm: "next_job_id race_marked = 1"
    by (simp_all add: race_marked_eq world1_eq)
  have dm: "debounceMs race_marked = Some 3000"
    using debounceMs_cong [OF cm] debounceMs_world1 by simp
  have pm: "pending_for ''+33600000001'' (jobs race_marked) = []"
    by (simp add: race_marked_eq pending_for_def new_job_def)
  from sched_insert [OF _ _ dm _ pm, of all_ok 3500 "''again''"]
  have ne: "next_job_id race_enqueued = 2" and ce: "config race_enqueued = config world0"
    by (simp_all add: race_enqueued_def all_ok_def in_date_range_def nm cm world1_eq)
  have c: "config race_world = config world0" and n: "next_job_id race_world = 2"
    by (simp_all add: race_world_def f ne ce)
  have d: "debounceMs race_world = Some 3000"
    using debounceMs_cong [OF c] debounceMs_world0 by simp
  have p: "single (pending_for ''+33600000001'' (jobs race_world)) = None"
    by (simp add: race_world_jobs pending_for_def new_job_def single_simps)
  have r: "in_date_range (7000 + 3000)" by (simp add: in_date_range_def)
  from sched_insert_more [OF _ d r p, of all_ok "''hello?''"]
  have "scheduleOrDebounceJob all_ok 7000 ''+33600000001'' ''hello?'' race_world
        = (Returned, race_world\<lparr>jobs := jobs race_world @ [new_job 2 ''+33600000001'' 10000 ''hello?''],
                  next_job_id := 3,
                  console := console race_world @ [Log_created 2 10000]\<rparr>)"
    by (simp add: all_ok_def n)
  then show ?thesis
    by (simp add: race_world_jobs pending_for_def new_job_def select_ready_def ready_def)
qed
end
